(* ===== verification/Prelude.thy ===== *)
theory Prelude
  imports Main "HOL-Library.Word"
begin

text \<open>
  The vocabulary the components share: the ways a C function can go wrong (\<open>cerror\<close>), results
  that carry such an error, the sequencing of fallible steps, and the functions of \<^verbatim>\<open>string.h\<close>
  that the code calls, on C strings given by their contents without the terminating NUL.
\<close>

named_theorems cres_simps \<open>unfolding of the result combinators\<close>
named_theorems cstr_simps \<open>facts on the C string functions\<close>

section \<open>Results of C functions\<close>

text \<open>
  One constructor per way in which the code can leave defined behaviour or stop: a read or write
  through NULL, through a pointer whose block was released, through an integer used as a pointer,
  outside a block, of a variable that was never assigned; a second \<^verbatim>\<open>free\<close>; a failed
  \<^verbatim>\<open>assert\<close>; a division by zero; \<^verbatim>\<open>exit\<close>; a loop that never ends.
\<close>

datatype cerror =
    NullDeref
  | UseAfterFree
  | DoubleFree
  | WildDeref
  | OutOfBounds
  | UninitRead
  | AssertFail
  | DivByZero
  | Exited int
  | Diverges

type_synonym 'a cres = "cerror + 'a"

fun bindE :: "'a cres \<Rightarrow> ('a \<Rightarrow> 'b cres) \<Rightarrow> 'b cres" where
  "bindE (Inl e) f = Inl e"
| "bindE (Inr x) f = f x"

text \<open>A statement sequence: each step takes the state the previous one left.\<close>

fun seqE :: "('s \<Rightarrow> 's cres) list \<Rightarrow> 's \<Rightarrow> 's cres" where
  "seqE [] s = Inr s"
| "seqE (f # fs) s = bindE (f s) (seqE fs)"

declare bindE.simps [cres_simps] seqE.simps [cres_simps]

lemma bindE_assoc: "bindE (bindE m f) g = bindE m (\<lambda>x. bindE (f x) g)"
  by (cases m) simp_all

lemma bindE_Inr_iff: "bindE m f = Inr y \<longleftrightarrow> (\<exists>x. m = Inr x \<and> f x = Inr y)"
  by (cases m) simp_all

lemma bindE_Inl_iff: "bindE m f = Inl e \<longleftrightarrow> m = Inl e \<or> (\<exists>x. m = Inr x \<and> f x = Inl e)"
  by (cases m) simp_all

lemma bindE_Inr_right [simp]: "bindE m Inr = m"
  by (cases m) simp_all

lemma seqE_append: "seqE (fs @ gs) s = bindE (seqE fs s) (seqE gs)"
proof (induction fs arbitrary: s)
  case Nil
  then show ?case by simp
next
  case (Cons f fs)
  then show ?case by (cases "f s") simp_all
qed

text \<open>A property that every step keeps holds after the whole sequence.\<close>

lemma seqE_invariant:
  assumes "\<And>f s s'. f \<in> set fs \<Longrightarrow> P s \<Longrightarrow> f s = Inr s' \<Longrightarrow> P s'"
    and "P s" and "seqE fs s = Inr s'"
  shows "P s'"
  using assms
proof (induction fs arbitrary: s)
  case Nil
  then show ?case by simp
next
  case (Cons f fs)
  from Cons.prems(3) obtain t where t: "f s = Inr t" "seqE fs t = Inr s'"
    by (auto simp: bindE_Inr_iff)
  from Cons.prems(1,2) t(1) have "P t" by (metis list.set_intros(1))
  with Cons.IH [of t] Cons.prems(1) t(2) show ?case by (metis list.set_intros(2))
qed

text \<open>If every step is the identity at \<open>s\<close>, so is the sequence.\<close>

lemma seqE_id: "(\<And>f. f \<in> set fs \<Longrightarrow> f s = Inr s) \<Longrightarrow> seqE fs s = Inr s"
proof (induction fs)
  case Nil
  then show ?case by simp
next
  case (Cons f fs)
  then have "f s = Inr s" and "seqE fs s = Inr s" by (auto intro: Cons.prems)
  then show ?case by simp
qed

text \<open>A loop over blocks of statements of which only those of one element do something.\<close>

lemma seqE_concat_id:
  "(\<And>x s. x \<in> set xs \<Longrightarrow> seqE (B x) s = Inr s) \<Longrightarrow> seqE (concat (map B xs)) st = Inr st"
proof (induction xs arbitrary: st)
  case (Cons x xs)
  then show ?case by (simp add: seqE_append)
qed simp

lemma seqE_concat_single:
  assumes "m \<in> set xs" and "distinct xs"
    and "\<And>x s. x \<in> set xs \<Longrightarrow> x \<noteq> m \<Longrightarrow> seqE (B x) s = Inr s"
  shows "seqE (concat (map B xs)) st = seqE (B m) st"
  using assms
proof (induction xs arbitrary: st)
  case (Cons x xs)
  show ?case
  proof (cases "x = m")
    case True
    have "seqE (concat (map B xs)) s = Inr s" for s
      using Cons.prems True by (intro seqE_concat_id) auto
    then have "seqE (concat (map B xs)) = Inr" by (simp add: fun_eq_iff)
    then show ?thesis using True by (simp add: seqE_append)
  next
    case False
    then have "seqE (B x) st = Inr st" "m \<in> set xs" using Cons.prems by auto
    then show ?thesis using Cons by (simp add: seqE_append)
  qed
qed simp

section \<open>C strings\<close>

abbreviation NUL :: char where "NUL \<equiv> CHR 0x00"
abbreviation NL :: char where "NL \<equiv> CHR 0x0A"
abbreviation CR :: char where "CR \<equiv> CHR 0x0D"

text \<open>The C string a buffer holds: its bytes up to the first NUL.\<close>

definition cstr :: "string \<Rightarrow> string" where
  "cstr b = takeWhile (\<lambda>c. c \<noteq> NUL) b"

lemma cstr_id [cstr_simps]: "NUL \<notin> set s \<Longrightarrow> cstr s = s"
  by (auto simp: cstr_def takeWhile_eq_all_conv)

lemma cstr_no_NUL [cstr_simps]: "NUL \<notin> set (cstr b)"
  by (auto simp: cstr_def dest: set_takeWhileD)

text \<open>\<^verbatim>\<open>strncmp(s, t, n) == 0\<close>: at most \<open>n\<close> characters are compared, the terminating NUL included.\<close>

fun strncmp_eq :: "string \<Rightarrow> string \<Rightarrow> nat \<Rightarrow> bool" where
  "strncmp_eq s t 0 = True"
| "strncmp_eq [] [] (Suc n) = True"
| "strncmp_eq [] (y # ys) (Suc n) = False"
| "strncmp_eq (x # xs) [] (Suc n) = False"
| "strncmp_eq (x # xs) (y # ys) (Suc n) = (x = y \<and> strncmp_eq xs ys n)"

lemma strncmp_eq_take [cstr_simps]: "strncmp_eq s t n \<longleftrightarrow> take n s = take n t"
  by (induction s t n rule: strncmp_eq.induct) simp_all

lemma strncmp_eq_same_length: "length s = n \<Longrightarrow> length t = n \<Longrightarrow> strncmp_eq s t n \<longleftrightarrow> s = t"
  by (simp add: cstr_simps)

text \<open>\<^verbatim>\<open>!strncmp(s, p, strlen(p))\<close>.\<close>

definition has_prefix :: "string \<Rightarrow> string \<Rightarrow> bool" where
  "has_prefix s p = strncmp_eq s p (length p)"

text \<open>\<^verbatim>\<open>strstr(s, pat) != NULL\<close>.\<close>

fun strstr :: "string \<Rightarrow> string \<Rightarrow> bool" where
  "strstr [] pat = (pat = [])"
| "strstr (x # xs) pat = (take (length pat) (x # xs) = pat \<or> strstr xs pat)"

lemma strstr_iff: "strstr s pat \<longleftrightarrow> (\<exists>us vs. s = us @ pat @ vs)"
proof (induction s)
  case Nil
  then show ?case by auto
next
  case (Cons x xs)
  have head: "take (length pat) (x # xs) = pat \<longleftrightarrow> (\<exists>vs. x # xs = pat @ vs)"
    by (metis append_eq_conv_conj)
  show ?case
  proof
    assume "strstr (x # xs) pat"
    then consider "\<exists>vs. x # xs = pat @ vs" | "\<exists>us vs. xs = us @ pat @ vs"
      using head Cons.IH by auto
    then show "\<exists>us vs. x # xs = us @ pat @ vs"
      by cases (metis append_Nil, metis append_Cons)
  next
    assume "\<exists>us vs. x # xs = us @ pat @ vs"
    then obtain us vs where eq: "x # xs = us @ pat @ vs" by blast
    show "strstr (x # xs) pat"
    proof (cases us)
      case Nil
      with eq have "\<exists>vs. x # xs = pat @ vs" by auto
      with head show ?thesis by simp
    next
      case (Cons u us')
      from this eq have "xs = us' @ pat @ vs" by simp
      then show ?thesis using Cons.IH by auto
    qed
  qed
qed

text \<open>
  One call of \<^verbatim>\<open>strtok\<close>: leading delimiters are skipped, the token runs to the next delimiter or
  to the end, and the next call continues after that delimiter. \<open>strtok_all\<close> is the list of
  tokens that the calls return until NULL.
\<close>

definition strtok :: "(char \<Rightarrow> bool) \<Rightarrow> string \<Rightarrow> (string \<times> string) option" where
  "strtok d s =
     (case dropWhile d s of
        [] \<Rightarrow> None
      | s' \<Rightarrow> Some (takeWhile (\<lambda>c. \<not> d c) s', drop 1 (dropWhile (\<lambda>c. \<not> d c) s')))"

lemma strtok_rest_shorter: "strtok d s = Some (t, r) \<Longrightarrow> length r < length s"
proof -
  assume a: "strtok d s = Some (t, r)"
  then obtain c cs where s': "dropWhile d s = c # cs" "\<not> d c"
    by (auto simp: strtok_def split: list.splits) (metis hd_dropWhile list.discI list.sel(1))
  with a have "r = drop 1 (dropWhile (\<lambda>c. \<not> d c) cs)" by (simp add: strtok_def)
  then have "length r \<le> length cs"
    by simp (metis diff_le_self length_dropWhile_le order_trans)
  moreover have "length (c # cs) \<le> length s" using s' by (metis length_dropWhile_le)
  ultimately show ?thesis by simp
qed

function strtok_all :: "(char \<Rightarrow> bool) \<Rightarrow> string \<Rightarrow> string list" where
  "strtok_all d s = (case strtok d s of None \<Rightarrow> [] | Some (t, r) \<Rightarrow> t # strtok_all d r)"
  by pat_completeness auto
termination
  by (relation "measure (\<lambda>(d, s). length s)") (auto dest: strtok_rest_shorter)

declare strtok_all.simps [simp del]

lemma strtok_all_Nil [cstr_simps]: "strtok_all d [] = []"
  by (simp add: strtok_all.simps strtok_def)

lemma strtok_all_single [cstr_simps]:
  assumes "t \<noteq> []" and "\<forall>c\<in>set t. \<not> d c"
  shows "strtok_all d t = [t]"
proof -
  have "dropWhile d t = t" using assms by (cases t) auto
  moreover have "takeWhile (\<lambda>c. \<not> d c) t = t" "dropWhile (\<lambda>c. \<not> d c) t = []"
    using assms by (auto simp: takeWhile_eq_all_conv)
  ultimately have "strtok d t = Some (t, [])"
    using assms(1) by (cases t) (simp_all add: strtok_def)
  then show ?thesis by (simp add: strtok_all.simps [of d t] cstr_simps)
qed

lemma strtok_all_Cons [cstr_simps]:
  assumes "t \<noteq> []" and "\<forall>c\<in>set t. \<not> d c" and "d x"
  shows "strtok_all d (t @ x # r) = t # strtok_all d r"
proof -
  have "dropWhile d (t @ x # r) = t @ x # r" using assms by (cases t) auto
  moreover have "takeWhile (\<lambda>c. \<not> d c) (t @ x # r) = t"
    and "dropWhile (\<lambda>c. \<not> d c) (t @ x # r) = x # r"
    using assms(2,3) by (simp_all add: takeWhile_append2 dropWhile_append2)
  ultimately have "strtok d (t @ x # r) = Some (t, r)"
    using assms(1) by (cases t) (simp_all add: strtok_def)
  then show ?thesis by (simp add: strtok_all.simps [of d "t @ x # r"])
qed

lemma strtok_all_tokens: "t \<in> set (strtok_all d s) \<Longrightarrow> t \<noteq> [] \<and> set t \<subseteq> set s"
proof (induction d s rule: strtok_all.induct)
  case (1 d s)
  show ?case
  proof (cases "strtok d s")
    case None
    with "1.prems" show ?thesis by (simp add: strtok_all.simps [of d s])
  next
    case (Some p)
    obtain u r where p: "p = (u, r)" by force
    from Some p obtain c cs where s': "dropWhile d s = c # cs" "\<not> d c"
      by (auto simp: strtok_def split: list.splits) (metis hd_dropWhile list.discI list.sel(1))
    have sub: "set (c # cs) \<subseteq> set s" using s' by (metis set_dropWhileD subsetI)
    have u: "u = c # takeWhile (\<lambda>c. \<not> d c) cs" and r: "r = drop 1 (dropWhile (\<lambda>c. \<not> d c) cs)"
      using Some p s' by (simp_all add: strtok_def)
    have "set u \<subseteq> set s" using u sub by (auto dest: set_takeWhileD)
    moreover have "set r \<subseteq> set s"
      using r sub by (auto dest!: in_set_dropD set_dropWhileD)
    ultimately show ?thesis
      using "1.IH" [OF Some p [symmetric]] "1.prems" Some p u by (auto simp: strtok_all.simps [of d s])
  qed
qed

end
