(* ===== verification/Int_Codec.thy ===== *)
theory Int_Codec
  imports Prelude
begin

unbundle bit_operations_syntax

text \<open>
  The integer conversions of \<^verbatim>\<open>ike_sa_instance.c\<close> (\<^verbatim>\<open>int_to_char\<close>, \<^verbatim>\<open>char_to_int\<close>) and the
  sixteen hexadecimal digits that \<^verbatim>\<open>snprintf\<close> prints for an SPI. A C \<^verbatim>\<open>int\<close> that is parsed is a
  32-bit word with wrap-around (two's complement); a \<^verbatim>\<open>char\<close> is signed.
\<close>

section \<open>Definitions\<close>

definition schar :: "char \<Rightarrow> 32 word" where
  "schar c = scast (of_char c :: 8 word)"

subsection \<open>char_to_int\<close>

text \<open>
  The loop over \<^verbatim>\<open>str[0 .. slen)\<close>; the second argument counts the iterations left and the third
  is the memory from the current position to the end of the block.
\<close>

fun char_to_int_loop :: "32 word \<Rightarrow> nat \<Rightarrow> string \<Rightarrow> 32 word \<Rightarrow> 32 word cres" where
  "char_to_int_loop base 0 m ret = Inr ret"
| "char_to_int_loop base (Suc n) [] ret = Inl OutOfBounds"
| "char_to_int_loop base (Suc n) (ch # m) ret =
     (if ch = CHR '' '' then Inr ret
      else char_to_int_loop base n m (ret * base + (schar ch - 48)))"

text \<open>With base 0 a leading \<^verbatim>\<open>0x\<close> selects base 16 and is skipped, without shortening \<^verbatim>\<open>slen\<close>.\<close>

definition char_to_int :: "string \<Rightarrow> int \<Rightarrow> 32 word \<Rightarrow> 32 word cres" where
  "char_to_int str slen base =
     (if slen = 0 then Inr 0
      else if base = 0 then
        (case str of
           [] \<Rightarrow> Inl OutOfBounds
         | c0 # str1 \<Rightarrow>
             if c0 = CHR ''0'' then
               (case str1 of
                  [] \<Rightarrow> Inl OutOfBounds
                | c1 # str2 \<Rightarrow>
                    if c1 = CHR ''x'' then char_to_int_loop 16 (nat slen) str2 0
                    else char_to_int_loop 10 (nat slen) str 0)
             else char_to_int_loop 10 (nat slen) str 0)
      else char_to_int_loop base (nat slen) str 0)"

subsection \<open>int_to_char\<close>

text \<open>The first loop counts the non-zero remainders; the second writes that many digits from the back.\<close>

function int_to_char_count :: "nat \<Rightarrow> nat \<Rightarrow> nat" where
  "int_to_char_count base tmp =
     (if 0 < tmp \<and> 1 < base
      then (if 0 < tmp mod base then 1 else 0) + int_to_char_count base (tmp div base)
      else 0)"
  by pat_completeness auto
termination
  by (relation "measure (\<lambda>(base, tmp). tmp)") auto

declare int_to_char_count.simps [simp del]

definition int_to_char_digit :: "nat \<Rightarrow> char" where
  "int_to_char_digit rem = (if rem \<le> 9 then char_of (rem + 48) else char_of (rem + 87))"

fun int_to_char_fill :: "nat \<Rightarrow> nat \<Rightarrow> nat \<Rightarrow> string \<Rightarrow> string" where
  "int_to_char_fill base 0 tmp str = str"
| "int_to_char_fill base (Suc n) tmp str =
     int_to_char_fill base n (tmp div base) (int_to_char_digit (tmp mod base) # str)"

definition int_to_char :: "int \<Rightarrow> int \<Rightarrow> string cres" where
  "int_to_char num base =
     (if num \<le> 0 then Inr []
      else if base = 0 then Inl DivByZero
      else if base = 1 then Inl Diverges
      else if base < 0 then
        (let rem = num mod (- base) in Inr (if 0 < rem then [int_to_char_digit (nat rem)] else []))
      else Inr (int_to_char_fill (nat base) (int_to_char_count (nat base) (nat num)) (nat num) []))"

subsection \<open>The digits of an SPI\<close>

definition hex_digit :: "nat \<Rightarrow> char" where
  "hex_digit d = (if d < 10 then char_of (48 + d) else char_of (87 + d))"

definition hex16 :: "64 word \<Rightarrow> string" where
  "hex16 w = map (\<lambda>i. hex_digit (unat (drop_bit (4 * (15 - i)) w AND 15))) [0..<16]"

subsection \<open>Reference definitions\<close>

text \<open>The digits of a number, most significant first, and the number that digits denote.\<close>

function digits :: "nat \<Rightarrow> nat \<Rightarrow> nat list" where
  "digits base n = (if 0 < n \<and> 1 < base then digits base (n div base) @ [n mod base] else [])"
  by pat_completeness auto
termination
  by (relation "measure (\<lambda>(base, n). n)") auto

declare digits.simps [simp del]

definition number_of_digits :: "nat \<Rightarrow> nat list \<Rightarrow> nat" where
  "number_of_digits base ds = foldl (\<lambda>a d. a * base + d) 0 ds"

definition is_digit :: "char \<Rightarrow> bool" where
  "is_digit c \<longleftrightarrow> 48 \<le> (of_char c :: nat) \<and> (of_char c :: nat) \<le> 57"

definition digit_val :: "char \<Rightarrow> nat" where
  "digit_val c = of_char c - 48"

section \<open>Lemmas\<close>

subsection \<open>Digits\<close>

lemma number_of_digits_Nil [simp]: "number_of_digits base [] = 0"
  by (simp add: number_of_digits_def)

lemma number_of_digits_snoc [simp]:
  "number_of_digits base (ds @ [d]) = number_of_digits base ds * base + d"
  by (simp add: number_of_digits_def)

lemma digits_0 [simp]: "digits base 0 = []"
  by (subst digits.simps) simp

lemma digits_pos: "0 < n \<Longrightarrow> 1 < base \<Longrightarrow> digits base n = digits base (n div base) @ [n mod base]"
  by (subst digits.simps) simp

lemma number_of_digits_digits: "1 < base \<Longrightarrow> number_of_digits base (digits base n) = n"
proof (induction base n rule: digits.induct)
  case (1 base n)
  then show ?case by (cases "n = 0") (simp_all add: digits_pos)
qed

lemma digits_less: "1 < base \<Longrightarrow> d \<in> set (digits base n) \<Longrightarrow> d < base"
proof (induction base n rule: digits.induct)
  case (1 base n)
  then show ?case by (cases "n = 0") (auto simp: digits_pos)
qed

lemma number_of_digits_append:
  "number_of_digits base (xs @ ys) = number_of_digits base xs * base ^ length ys + number_of_digits base ys"
proof (induction ys rule: rev_induct)
  case (snoc y ys)
  then show ?case by (simp add: algebra_simps flip: append_assoc)
qed simp

lemma digits_leading: "0 < n \<Longrightarrow> 1 < base \<Longrightarrow> digits base n \<noteq> [] \<and> hd (digits base n) \<noteq> 0"
proof (induction base n rule: digits.induct)
  case (1 base n)
  show ?case
  proof (cases "n div base = 0")
    case True
    then have "n mod base = n" using "1.prems" by (simp add: div_eq_0_iff)
    then show ?thesis using "1.prems" True by (simp add: digits_pos)
  next
    case False
    then have "digits base (n div base) \<noteq> [] \<and> hd (digits base (n div base)) \<noteq> 0" using 1 by simp
    then show ?thesis unfolding digits_pos [OF "1.prems"] by (simp add: hd_append)
  qed
qed

lemma drop_digits_less:
  assumes "0 < n" and "1 < base" and "0 < k"
  shows "number_of_digits base (drop k (digits base n)) < n"
proof -
  let ?ds = "digits base n"
  obtain d ds where ds: "?ds = d # ds" "d \<noteq> 0" using digits_leading [OF assms(1,2)] by (cases ?ds) auto
  have le: "number_of_digits base (drop (k - 1) ds) \<le> number_of_digits base ds"
    using number_of_digits_append [of base "take (k - 1) ds" "drop (k - 1) ds"] by simp
  have n: "n = d * base ^ length ds + number_of_digits base ds"
    using number_of_digits_append [of base "[d]" ds] number_of_digits_digits [OF assms(2), of n] ds(1)
    by (simp add: number_of_digits_def)
  have "0 < d * base ^ length ds" using ds(2) assms(2) by simp
  with le have "number_of_digits base (drop (k - 1) ds) < d * base ^ length ds + number_of_digits base ds"
    by linarith
  then show ?thesis using ds(1) assms(3) unfolding n [symmetric] by (simp add: drop_Cons')
qed

lemma count_eq_nonzero_digits:
  "1 < base \<Longrightarrow> int_to_char_count base n = length (filter (\<lambda>d. d \<noteq> 0) (digits base n))"
proof (induction base n rule: digits.induct)
  case (1 base n)
  show ?case
  proof (cases "n = 0")
    case True
    then show ?thesis by (simp add: int_to_char_count.simps)
  next
    case False
    then show ?thesis
      using "1.IH" "1.prems" by (simp add: digits_pos int_to_char_count.simps [of base n])
  qed
qed

lemma fill_eq_low_digits:
  assumes "1 < base" and "k \<le> length (digits base n)"
  shows "int_to_char_fill base k n str =
           map int_to_char_digit (drop (length (digits base n) - k) (digits base n)) @ str"
  using assms
proof (induction k arbitrary: n str)
  case 0
  then show ?case by simp
next
  case (Suc k)
  then have "n \<noteq> 0" by (metis digits_0 le_zero_eq list.size(3) nat.distinct(1))
  then have n: "digits base n = digits base (n div base) @ [n mod base]"
    using Suc.prems(1) by (simp add: digits_pos)
  with Suc.prems have "k \<le> length (digits base (n div base))" by simp
  with Suc.IH [OF Suc.prems(1) this] n show ?case by simp
qed

subsection \<open>int_to_char\<close>

text \<open>
  What \<open>int_to_char\<close> writes: as many low-order digits as the number has non-zero digits.
\<close>

lemma int_to_char_low_digits:
  assumes "1 < base"
  shows "int_to_char (int n) (int base) =
           Inr (map int_to_char_digit
                  (drop (length (filter (\<lambda>d. d = 0) (digits base n))) (digits base n)))"
proof (cases "n = 0")
  case True
  then show ?thesis by (simp add: int_to_char_def)
next
  case False
  let ?ds = "digits base n"
  have "length (filter (\<lambda>d. d \<noteq> 0) ?ds) \<le> length ?ds" by simp
  moreover have "length ?ds - length (filter (\<lambda>d. d \<noteq> 0) ?ds) = length (filter (\<lambda>d. d = 0) ?ds)"
    using sum_length_filter_compl [of "\<lambda>d. d = 0" ?ds] by simp
  ultimately show ?thesis
    using assms False by (simp add: int_to_char_def count_eq_nonzero_digits fill_eq_low_digits)
qed

lemma int_to_char_digit_is_digit: "d < 10 \<Longrightarrow> is_digit (int_to_char_digit d)"
  by (auto simp: int_to_char_digit_def is_digit_def)

lemma digit_val_int_to_char_digit: "d < 10 \<Longrightarrow> digit_val (int_to_char_digit d) = d"
  by (auto simp: int_to_char_digit_def digit_val_def)

subsection \<open>char_to_int\<close>

lemma is_digit_not_space: "is_digit c \<Longrightarrow> c \<noteq> CHR '' ''"
  by (auto simp: is_digit_def)

lemma schar_digit: "is_digit c \<Longrightarrow> schar c - 48 = word_of_nat (digit_val c)"
proof -
  assume "is_digit c"
  then have n: "48 \<le> (of_char c :: nat)" "(of_char c :: nat) \<le> 57" by (auto simp: is_digit_def)
  define k where "k = (of_char c :: nat)"
  have "c = char_of k" by (simp add: k_def)
  have w: "(of_char c :: 8 word) = word_of_nat k"
    by (simp add: k_def flip: of_char_eq_iff) (simp add: of_nat_of_char)
  have "48 \<le> k" "k \<le> 57" using n by (simp_all add: k_def)
  then have "k = 48 \<or> k = 49 \<or> k = 50 \<or> k = 51 \<or> k = 52 \<or> k = 53 \<or> k = 54 \<or> k = 55 \<or> k = 56 \<or> k = 57"
    by arith
  then show ?thesis
    unfolding schar_def w digit_val_def k_def [symmetric] by auto
qed

lemma char_to_int_loop_digits:
  assumes "\<forall>c\<in>set s. is_digit c"
  shows "char_to_int_loop (word_of_nat base) (length s) (s @ m) (word_of_nat a) =
           Inr (word_of_nat (foldl (\<lambda>a d. a * base + d) a (map digit_val s)))"
  using assms
proof (induction s arbitrary: a)
  case Nil
  then show ?case by simp
next
  case (Cons c s)
  then have "schar c - 48 = word_of_nat (digit_val c)" by (simp add: schar_digit)
  then have step: "word_of_nat a * word_of_nat base + (schar c - 48)
                   = (word_of_nat (a * base + digit_val c) :: 32 word)"
    by simp
  show ?case
    using Cons.IH [of "a * base + digit_val c"] Cons.prems is_digit_not_space [of c]
    by (simp add: step del: of_nat_add of_nat_mult)
qed

lemma char_to_int_decimal:
  assumes "\<forall>c\<in>set s. is_digit c" and "(word_of_nat base :: 32 word) \<noteq> 0"
  shows "char_to_int (s @ m) (int (length s)) (word_of_nat base) =
           Inr (word_of_nat (number_of_digits base (map digit_val s)))"
  using assms char_to_int_loop_digits [of s base m 0]
  by (cases "s = []") (simp_all add: char_to_int_def number_of_digits_def)

text \<open>The reader gives back what the writer was given exactly for the numbers without a zero digit.\<close>

lemma int_codec_roundtrip:
  assumes "0 < n" and "n < 2 ^ 32"
  shows "\<exists>s. int_to_char (int n) 10 = Inr s \<and>
           (char_to_int (s @ m) (int (length s)) 10 = Inr (word_of_nat n) \<longleftrightarrow> 0 \<notin> set (digits 10 n))"
proof -
  let ?z = "length (filter (\<lambda>d. d = 0) (digits 10 n))" and ?ds = "digits 10 n"
  let ?s = "map int_to_char_digit (drop ?z ?ds)"
  have less: "d < 10" if "d \<in> set (drop ?z ?ds)" for d
    using that digits_less [of 10 d n] by (auto dest: in_set_dropD)
  have w: "int_to_char (int n) 10 = Inr ?s" using int_to_char_low_digits [of 10 n] by simp
  have "map digit_val ?s = drop ?z ?ds"
    using less by (auto simp: digit_val_int_to_char_digit intro: map_idI)
  moreover have "\<forall>c\<in>set ?s. is_digit c" using less int_to_char_digit_is_digit by auto
  ultimately have r: "char_to_int (?s @ m) (int (length ?s)) 10
      = Inr (word_of_nat (number_of_digits 10 (drop ?z ?ds)))"
    using char_to_int_decimal [of ?s 10 m] by simp
  have "number_of_digits 10 (drop ?z ?ds) = n \<longleftrightarrow> 0 \<notin> set ?ds"
  proof (cases "0 \<in> set ?ds")
    case True
    then have "0 < ?z" by (auto simp: filter_empty_conv)
    then show ?thesis using drop_digits_less [of n 10 ?z] assms(1) True by simp
  next
    case False
    then have "?z = 0" by (auto simp: filter_empty_conv intro!: gr0I)
    then show ?thesis using False number_of_digits_digits [of 10 n] by simp
  qed
  moreover have "number_of_digits 10 (drop ?z ?ds) \<le> n"
    using drop_digits_less [of n 10 ?z] assms(1) number_of_digits_digits [of 10 n] by (cases "?z = 0") auto
  ultimately have "(word_of_nat (number_of_digits 10 (drop ?z ?ds)) :: 32 word) = word_of_nat n
      \<longleftrightarrow> 0 \<notin> set ?ds"
    using assms(2) by (auto simp: word_of_nat_eq_iff take_bit_nat_eq_self)
  then show ?thesis using w r by auto
qed
subsection \<open>hex16\<close>

lemma length_hex16 [simp]: "length (hex16 w) = 16"
  by (simp add: hex16_def)

lemma hex_digit_inj: "a < 16 \<Longrightarrow> b < 16 \<Longrightarrow> hex_digit a = hex_digit b \<Longrightarrow> a = b"
  by (auto simp: hex_digit_def split: if_splits)

lemma hex_digit_no_delim:
  "d < 16 \<Longrightarrow> hex_digit d \<noteq> NL \<and> hex_digit d \<noteq> NUL \<and> hex_digit d \<noteq> CHR '':''"
  by (auto simp: hex_digit_def dest!: arg_cong [where f = "of_char :: char \<Rightarrow> nat"])

lemma nibble_less_16: "unat (w AND 15 :: 64 word) < 16"
proof -
  have "unat (w AND 15) \<le> unat (15 :: 64 word)"
    by (rule word_and_le1 [THEN word_le_nat_alt [THEN iffD1]])
  then show ?thesis by simp
qed

lemma hex16_no_delim: "c \<in> set (hex16 w) \<Longrightarrow> c \<noteq> NL \<and> c \<noteq> NUL \<and> c \<noteq> CHR '':''"
  using hex_digit_no_delim [OF nibble_less_16] by (auto simp: hex16_def)

lemma nibbles_eq_imp_eq:
  assumes "\<And>k. k < 16 \<Longrightarrow> drop_bit (4 * k) a AND 15 = drop_bit (4 * k) b AND (15 :: 64 word)"
  shows "a = b"
proof (rule bit_word_eqI)
  fix n assume n: "n < LENGTH(64)"
  define k j where "k = n div 4" and "j = n mod 4"
  then have "k < 16" and nkj: "n = 4 * k + j" and "j < 4" using n by simp_all
  have mask: "(15 :: 64 word) = mask 4" by (simp add: mask_eq_exp_minus_1)
  have "bit (drop_bit (4 * k) a AND 15) j = bit (drop_bit (4 * k) b AND (15 :: 64 word)) j"
    using assms [OF \<open>k < 16\<close>] by simp
  then show "bit a n = bit b n"
    using \<open>j < 4\<close> n nkj by (simp add: mask bit_and_iff bit_drop_bit_eq bit_mask_iff)
qed

lemma hex16_inj: "hex16 a = hex16 b \<Longrightarrow> a = b"
proof (rule nibbles_eq_imp_eq)
  fix k :: nat assume eq: "hex16 a = hex16 b" and k: "k < 16"
  have "hex16 w ! (15 - k) = hex_digit (unat (drop_bit (4 * k) w AND 15))" for w
  proof -
    have "[0..<16] ! (15 - k) = 15 - k" by (subst nth_upt) auto
    then show ?thesis using k by (simp add: hex16_def del: upt_rec_numeral)
  qed
  with eq have "hex_digit (unat (drop_bit (4 * k) a AND 15)) = hex_digit (unat (drop_bit (4 * k) b AND 15))"
    by metis
  then have "unat (drop_bit (4 * k) a AND 15) = unat (drop_bit (4 * k) b AND 15)"
    by (intro hex_digit_inj nibble_less_16)
  then show "drop_bit (4 * k) a AND 15 = drop_bit (4 * k) b AND 15" by (simp only: word_unat_eq_iff)
qed

end
