(* ===== verification/Bounded_Fifo.thy ===== *)
theory Bounded_Fifo
  imports Prelude
begin

text \<open>
  The contract of the send queue between the threads that report messages and the sender thread:
  a bounded first-in first-out queue whose operations return a C result. Both implementations
  (the one of the ePDG and the one of the IMS server) interpret the locale; what a client may rely
  on is proved here once, for every interleaving of additions and fetches.
\<close>

section \<open>Operation sequences\<close>

datatype 'm queue_op = Add 'm | Fetch

text \<open>
  The effect of a sequence of operations: the final queue, the messages that were accepted and the
  messages that were fetched.
\<close>

fun run_ops ::
  "('q \<Rightarrow> 'm \<Rightarrow> ('q \<times> int) cres) \<Rightarrow> ('q \<Rightarrow> ('m option \<times> 'q) cres) \<Rightarrow>
   'q \<Rightarrow> 'm queue_op list \<Rightarrow> ('q \<times> 'm list \<times> 'm list) cres" where
  "run_ops add fetch q [] = Inr (q, [], [])"
| "run_ops add fetch q (Add m # ops) =
     bindE (add q m) (\<lambda>(q', r).
       bindE (run_ops add fetch q' ops) (\<lambda>(q'', ins, outs).
         Inr (q'', (if r = 1 then m # ins else ins), outs)))"
| "run_ops add fetch q (Fetch # ops) =
     bindE (fetch q) (\<lambda>(r, q').
       bindE (run_ops add fetch q' ops) (\<lambda>(q'', ins, outs).
         Inr (q'', ins, (case r of None \<Rightarrow> outs | Some m \<Rightarrow> m # outs))))"

text \<open>The same sequence on the abstract queue, a list of at most \<open>cap\<close> messages.\<close>

fun spec_ops :: "nat \<Rightarrow> 'm list \<Rightarrow> 'm queue_op list \<Rightarrow> 'm list \<times> 'm list \<times> 'm list" where
  "spec_ops cap xs [] = (xs, [], [])"
| "spec_ops cap xs (Add m # ops) =
     (if length xs < cap
      then (case spec_ops cap (xs @ [m]) ops of (ys, ins, outs) \<Rightarrow> (ys, m # ins, outs))
      else spec_ops cap xs ops)"
| "spec_ops cap xs (Fetch # ops) =
     (case xs of
        [] \<Rightarrow> spec_ops cap [] ops
      | x # xs' \<Rightarrow> (case spec_ops cap xs' ops of (ys, ins, outs) \<Rightarrow> (ys, ins, x # outs)))"

lemma spec_ops_order:
  "spec_ops cap xs ops = (ys, ins, outs) \<Longrightarrow> outs @ ys = xs @ ins"
proof (induction cap xs ops arbitrary: ys ins outs rule: spec_ops.induct)
  case (2 cap xs m ops)
  then show ?case by (auto split: if_splits prod.splits)
next
  case (3 cap xs ops)
  then show ?case by (auto split: list.splits prod.splits)
qed simp

lemma spec_ops_bounded:
  "length xs \<le> cap \<Longrightarrow> spec_ops cap xs ops = (ys, ins, outs) \<Longrightarrow> length ys \<le> cap"
proof (induction cap xs ops arbitrary: ys ins outs rule: spec_ops.induct)
  case (2 cap xs m ops)
  then show ?case by (auto split: if_splits prod.splits)
next
  case (3 cap xs ops)
  then show ?case by (auto split: list.splits prod.splits)
qed simp

section \<open>The contract\<close>

locale bounded_fifo =
  fixes add :: "'q \<Rightarrow> 'm \<Rightarrow> ('q \<times> int) cres"
    and fetch :: "'q \<Rightarrow> ('m option \<times> 'q) cres"
    and contents :: "'q \<Rightarrow> 'm list"
    and wf :: "'q \<Rightarrow> bool"
    and cap :: nat
  assumes add_room: "wf q \<Longrightarrow> length (contents q) < cap \<Longrightarrow>
      \<exists>q'. add q m = Inr (q', 1) \<and> wf q' \<and> contents q' = contents q @ [m]"
    and add_full: "wf q \<Longrightarrow> \<not> length (contents q) < cap \<Longrightarrow> add q m = Inr (q, - 1)"
    and fetch_empty: "wf q \<Longrightarrow> contents q = [] \<Longrightarrow> fetch q = Inr (None, q)"
    and fetch_first: "wf q \<Longrightarrow> contents q = x # xs \<Longrightarrow>
      \<exists>q'. fetch q = Inr (Some x, q') \<and> wf q' \<and> contents q' = xs"
begin

text \<open>Every sequence of operations behaves as on the abstract queue, and none of them faults.\<close>

lemma run_ops_refines:
  "wf q \<Longrightarrow> spec_ops cap (contents q) ops = (ys, ins, outs) \<Longrightarrow>
   \<exists>q'. run_ops add fetch q ops = Inr (q', ins, outs) \<and> wf q' \<and> contents q' = ys"
proof (induction ops arbitrary: q ys ins outs)
  case Nil
  then show ?case by simp
next
  case (Cons a ops)
  show ?case
  proof (cases a)
    case (Add m)
    show ?thesis
    proof (cases "length (contents q) < cap")
      case True
      from add_room [OF Cons.prems(1) True] obtain q1 where
        q1: "add q m = Inr (q1, 1)" "wf q1" "contents q1 = contents q @ [m]" by blast
      obtain ins' where ins': "ins = m # ins'" "spec_ops cap (contents q1) ops = (ys, ins', outs)"
        using Cons.prems(2) True Add q1(3) by (auto split: prod.splits)
      from Cons.IH [OF q1(2) ins'(2)] show ?thesis using q1(1) ins'(1) Add by auto
    next
      case False
      then have "spec_ops cap (contents q) ops = (ys, ins, outs)" using Cons.prems(2) Add by simp
      from Cons.IH [OF Cons.prems(1) this] show ?thesis
        using add_full [OF Cons.prems(1) False] Add by auto
    qed
  next
    case Fetch
    show ?thesis
    proof (cases "contents q")
      case Nil
      then have "spec_ops cap (contents q) ops = (ys, ins, outs)" using Cons.prems(2) Fetch by simp
      from Cons.IH [OF Cons.prems(1) this] show ?thesis
        using fetch_empty [OF Cons.prems(1) Nil] Fetch by auto
    next
      case (Cons x xs)
      note q = this
      from fetch_first [OF Cons.prems(1) q] obtain q1 where
        q1: "fetch q = Inr (Some x, q1)" "wf q1" "contents q1 = xs" by blast
      obtain outs' where outs': "outs = x # outs'" "spec_ops cap (contents q1) ops = (ys, ins, outs')"
        using Cons.prems(2) Fetch q q1(3) by (auto split: prod.splits)
      from Cons.IH [OF q1(2) outs'(2)] show ?thesis using q1(1) outs'(1) Fetch by auto
    qed
  qed
qed

text \<open>Order and loss: what comes out is what went in, in order, and nothing accepted is lost.\<close>

lemma fifo_order:
  assumes "wf q"
  shows "\<exists>q' ins outs. run_ops add fetch q ops = Inr (q', ins, outs) \<and> wf q' \<and>
           outs @ contents q' = contents q @ ins"
proof -
  obtain ys ins outs where s: "spec_ops cap (contents q) ops = (ys, ins, outs)"
    by (metis prod_cases3)
  from run_ops_refines [OF assms s] spec_ops_order [OF s] show ?thesis by blast
qed

end

end
