(* ===== verification/Epdg_Instance.thy ===== *)
theory Epdg_Instance
  imports Int_Codec Bounded_Fifo
begin

text \<open>
  The shared state of the ePDG side (\<^verbatim>\<open>instance_t\<close> of \<^verbatim>\<open>ike_sa_instance.h\<close>), the send queue, the
  binding of an IKE_SA to the running test (\<^verbatim>\<open>check_instance\<close>) and the sender thread that turns
  queued messages into lines for the controller (\<^verbatim>\<open>sender_run\<close> of \<^verbatim>\<open>ike_sa_manager.c\<close>). Each
  queue operation holds the mutex \<^verbatim>\<open>slock\<close>, so it is one atomic step here.
\<close>

section \<open>Data\<close>

type_synonym addr = nat

abbreviation MAX_MESSAGE_LEN :: nat where "MAX_MESSAGE_LEN \<equiv> 1514"
abbreviation MAX_QUEUE_LEN :: nat where "MAX_QUEUE_LEN \<equiv> 10"

abbreviation MSG_TYPE_ATTRIBUTE :: int where "MSG_TYPE_ATTRIBUTE \<equiv> 1"
abbreviation MSG_TYPE_BLOCK_START :: int where "MSG_TYPE_BLOCK_START \<equiv> 2"
abbreviation MSG_TYPE_BLOCK_END :: int where "MSG_TYPE_BLOCK_END \<equiv> 3"

abbreviation OP_TYPE_UPDATE :: int where "OP_TYPE_UPDATE \<equiv> 1"
abbreviation OP_TYPE_DROP :: int where "OP_TYPE_DROP \<equiv> 2"

abbreviation VAL_TYPE_NONE :: int where "VAL_TYPE_NONE \<equiv> 1"
abbreviation VAL_TYPE_INTEGER :: int where "VAL_TYPE_INTEGER \<equiv> 2"
abbreviation VAL_TYPE_UINT8 :: int where "VAL_TYPE_UINT8 \<equiv> 3"
abbreviation VAL_TYPE_UINT8H :: int where "VAL_TYPE_UINT8H \<equiv> 4"
abbreviation VAL_TYPE_UINT16 :: int where "VAL_TYPE_UINT16 \<equiv> 5"
abbreviation VAL_TYPE_UINT16H :: int where "VAL_TYPE_UINT16H \<equiv> 6"
abbreviation VAL_TYPE_UINT32 :: int where "VAL_TYPE_UINT32 \<equiv> 7"
abbreviation VAL_TYPE_UINT32H :: int where "VAL_TYPE_UINT32H \<equiv> 8"
abbreviation VAL_TYPE_UINT64 :: int where "VAL_TYPE_UINT64 \<equiv> 9"
abbreviation VAL_TYPE_UINT64H :: int where "VAL_TYPE_UINT64H \<equiv> 10"
abbreviation VAL_TYPE_STRING :: int where "VAL_TYPE_STRING \<equiv> 11"

abbreviation VAL_LENGTH_NONE :: int where "VAL_LENGTH_NONE \<equiv> 0"

text \<open>
  A message to the controller. \<open>m_key\<close> is the used part of the array \<^verbatim>\<open>key\<close>; \<open>m_val\<close> is the
  block \<^verbatim>\<open>val\<close> points to, byte by byte.
\<close>

record msg_t =
  m_mtype :: "8 word"
  m_ispi :: "64 word"
  m_rspi :: "64 word"
  m_key :: string
  m_klen :: int
  m_vtype :: int
  m_val :: "string option"
  m_vlen :: int

text \<open>
  The instance. A pointer to a query is an address of the query heap; \<open>i_ike_sa\<close> is the identity
  of the IKE_SA the instance is bound to; a chunk is its bytes.
\<close>

record instance_t =
  i_asock :: int
  i_ispi :: "64 word"
  i_pispi :: "64 word"
  i_rspi :: "64 word"
  i_slast :: int
  i_sendq :: "msg_t option list"
  i_query :: "addr option"
  i_curr :: "addr option"
  i_running :: int
  i_initiated :: bool
  i_finished :: bool
  i_rprev :: "string option"
  i_sprev :: "string option"
  i_imid :: int
  i_rmid :: int
  i_retransmission :: int
  i_not_report :: int
  i_authentication_failed :: int
  i_no_proposal_chosen :: int
  i_invalid_ke_payload :: int
  i_ike_sa :: "nat option"
  i_table_mask :: "8 word"
  i_init_hash :: string
  i_rcvd_dst_hash :: string
  i_rcvd_src_hash :: string

section \<open>Operations\<close>

definition init_instance :: "int \<Rightarrow> instance_t" where
  "init_instance asock =
     \<lparr> i_asock = asock, i_ispi = 0, i_pispi = 0, i_rspi = 0,
       i_slast = 0, i_sendq = replicate MAX_QUEUE_LEN None,
       i_query = None, i_curr = None,
       i_running = 1, i_initiated = False, i_finished = False,
       i_rprev = None, i_sprev = None, i_imid = - 1, i_rmid = - 1,
       i_retransmission = 0, i_not_report = 0, i_authentication_failed = 0,
       i_no_proposal_chosen = 0, i_invalid_ke_payload = 0,
       i_ike_sa = None, i_table_mask = 0, i_init_hash = [],
       i_rcvd_dst_hash = [], i_rcvd_src_hash = [] \<rparr>"

definition check_instance ::
  "instance_t option \<Rightarrow> 64 word \<Rightarrow> 64 word \<Rightarrow> bool \<Rightarrow> bool \<times> instance_t option" where
  "check_instance instance ispi rspi update =
     (case instance of
        None \<Rightarrow> (False, None)
      | Some inst \<Rightarrow>
          let (ret, inst) =
            (if i_ispi inst = 0 \<and> i_rspi inst = 0 then
               (if update
                then (True, inst\<lparr>i_ispi := ispi, i_rspi := rspi, i_imid := - 1, i_rmid := - 1\<rparr>)
                else (False, inst))
             else if i_ispi inst = ispi \<and> i_rspi inst = rspi then (True, inst)
             else if i_ispi inst = ispi \<and> (i_pispi inst = ispi \<or> i_pispi inst = 0) \<and> rspi = 0
             then (True, inst)
             else (False, inst))
          in (ret, Some (if rspi = 0 then inst\<lparr>i_pispi := i_ispi inst\<rparr> else inst)))"

subsection \<open>The send queue\<close>

definition add_message_to_send_queue :: "instance_t \<Rightarrow> msg_t \<Rightarrow> (instance_t \<times> int) cres" where
  "add_message_to_send_queue inst msg =
     (if i_slast inst < int MAX_QUEUE_LEN then
        (if 0 \<le> i_slast inst \<and> nat (i_slast inst) < length (i_sendq inst) then
           Inr (inst\<lparr>i_sendq := (i_sendq inst)[nat (i_slast inst) := Some msg],
                     i_slast := i_slast inst + 1\<rparr>, 1)
         else Inl OutOfBounds)
      else Inr (inst, - 1))"

text \<open>The loop \<^verbatim>\<open>for (i=1; i<slast; i++) sendq[i-1] = sendq[i]\<close>, with \<open>n\<close> iterations left.\<close>

fun shift_loop :: "nat \<Rightarrow> nat \<Rightarrow> 'a list \<Rightarrow> 'a list cres" where
  "shift_loop 0 i q = Inr q"
| "shift_loop (Suc n) i q =
     (if i < length q then shift_loop n (Suc i) (q[i - 1 := q ! i]) else Inl OutOfBounds)"

definition fetch_message_from_send_queue :: "instance_t \<Rightarrow> (msg_t option \<times> instance_t) cres" where
  "fetch_message_from_send_queue inst =
     (if 0 < i_slast inst then
        (case i_sendq inst of
           [] \<Rightarrow> Inl OutOfBounds
         | ret # _ \<Rightarrow>
             bindE (shift_loop (nat (i_slast inst) - 1) 1 (i_sendq inst)) (\<lambda>q.
               Inr (ret, inst\<lparr>i_sendq := q, i_slast := i_slast inst - 1\<rparr>)))
      else Inr (None, inst))"

definition set_query :: "instance_t \<Rightarrow> addr option \<Rightarrow> instance_t" where
  "set_query inst query = inst\<lparr>i_query := query\<rparr>"

definition init_message ::
  "instance_t \<Rightarrow> int \<Rightarrow> string option \<Rightarrow> int \<Rightarrow> string option \<Rightarrow> int \<Rightarrow> msg_t cres" where
  "init_message inst mtype key vtype val vlen =
     (case key of
        None \<Rightarrow> Inr \<lparr>m_mtype = word_of_int mtype, m_ispi = i_ispi inst, m_rspi = i_rspi inst,
                     m_key = [], m_klen = 0, m_vtype = vtype, m_val = val, m_vlen = vlen\<rparr>
      | Some k \<Rightarrow>
          if length k \<le> MAX_MESSAGE_LEN then
            Inr \<lparr>m_mtype = word_of_int mtype, m_ispi = i_ispi inst, m_rspi = i_rspi inst,
                 m_key = k, m_klen = int (length k), m_vtype = vtype, m_val = val, m_vlen = vlen\<rparr>
          else Inl OutOfBounds)"

subsection \<open>The sender thread\<close>

text \<open>Reads through \<^verbatim>\<open>msg->val\<close>, little-endian as on the machines the code runs on.\<close>

definition read_bytes :: "string option \<Rightarrow> nat \<Rightarrow> string cres" where
  "read_bytes val n =
     (case val of
        None \<Rightarrow> Inl NullDeref
      | Some bs \<Rightarrow> if n \<le> length bs then Inr (take n bs) else Inl OutOfBounds)"

fun le_value :: "string \<Rightarrow> int" where
  "le_value [] = 0"
| "le_value (c # cs) = int (of_char c) + 256 * le_value cs"

definition le_signed32 :: "string \<Rightarrow> int" where
  "le_signed32 bs = sint (word_of_int (le_value bs) :: 32 word)"

definition sender_value :: "msg_t \<Rightarrow> string cres" where
  "sender_value msg =
     (if m_vtype msg = VAL_TYPE_INTEGER then
        bindE (read_bytes (m_val msg) 4) (\<lambda>bs. int_to_char (le_signed32 bs) 10)
      else if m_vtype msg = VAL_TYPE_UINT8 then
        bindE (read_bytes (m_val msg) 1) (\<lambda>bs. int_to_char (le_value bs) 10)
      else if m_vtype msg = VAL_TYPE_UINT16 then
        bindE (read_bytes (m_val msg) 2) (\<lambda>bs. int_to_char (le_value bs) 10)
      else if m_vtype msg = VAL_TYPE_STRING then read_bytes (m_val msg) (nat (m_vlen msg))
      else Inr [])"

text \<open>
  The line built in \<^verbatim>\<open>buf\<close>: type, both SPIs, key, and when there is a value its type and the
  value, ended by a newline. A line longer than the buffer is written past its end.
\<close>

definition sender_line :: "msg_t \<Rightarrow> string cres" where
  "sender_line msg =
     bindE
       (if 0 < m_vlen msg then
          bindE (int_to_char (m_vtype msg) 10) (\<lambda>vt.
            bindE (sender_value msg) (\<lambda>v. Inr ('':'' @ vt @ '':'' @ v)))
        else Inr [])
       (\<lambda>value.
          let line = char_of (unat (m_mtype msg)) # hex16 (m_ispi msg) @ hex16 (m_rspi msg)
                     @ (if 0 < m_klen msg then take (nat (m_klen msg)) (m_key msg) else [])
                     @ value @ [NL]
          in if length line \<le> MAX_MESSAGE_LEN then Inr line else Inl OutOfBounds)"

text \<open>
  The loop around \<^verbatim>\<open>write\<close>. The results of the successive calls are the second argument; the
  outcome is what went to the socket and whether the loop ended.
\<close>

fun write_loop :: "string \<Rightarrow> int list \<Rightarrow> string \<times> bool" where
  "write_loop [] rs = ([], True)"
| "write_loop (b # bs) [] = ([], False)"
| "write_loop (b # bs) (r # rs) =
     (if 0 < r then
        (case write_loop (drop (nat r) (b # bs)) rs of
           (out, fin) \<Rightarrow> (take (nat r) (b # bs) @ out, fin))
      else write_loop (b # bs) rs)"

text \<open>One iteration of \<^verbatim>\<open>while (instance->running)\<close>: what is sent, and whether the loop goes on.\<close>

definition sender_step :: "instance_t \<Rightarrow> int list \<Rightarrow> (instance_t \<times> string \<times> bool) cres" where
  "sender_step inst rs =
     (if i_running inst = 0 then Inr (inst, [], False)
      else bindE (fetch_message_from_send_queue inst) (\<lambda>(m, inst').
        case m of
          None \<Rightarrow> Inr (inst', [], True)
        | Some msg \<Rightarrow> bindE (sender_line msg) (\<lambda>line.
            case write_loop line rs of (out, fin) \<Rightarrow> Inr (inst', out, fin))))"

section \<open>Lemmas\<close>

subsection \<open>The queue implements the contract\<close>

definition queue_wf :: "instance_t \<Rightarrow> bool" where
  "queue_wf inst \<longleftrightarrow> length (i_sendq inst) = MAX_QUEUE_LEN \<and> 0 \<le> i_slast inst \<and>
     i_slast inst \<le> int MAX_QUEUE_LEN \<and> None \<notin> set (take (nat (i_slast inst)) (i_sendq inst))"

definition queue_contents :: "instance_t \<Rightarrow> msg_t list" where
  "queue_contents inst = map the (take (nat (i_slast inst)) (i_sendq inst))"

lemma shift_loop_tail:
  "1 \<le> i \<Longrightarrow> i + n \<le> length q \<Longrightarrow>
   shift_loop n i q = Inr (take (i - 1) q @ take n (drop i q) @ drop (i - 1 + n) q)"
proof (induction n arbitrary: i q)
  case 0
  then show ?case by simp
next
  case (Suc n)
  let ?q = "q[i - 1 := q ! i]"
  have i: "i < length q" using Suc.prems by simp
  have upd: "take i ?q = take (i - 1) q @ [q ! i]"
  proof -
    obtain j where j: "i = Suc j" using Suc.prems by (cases i) auto
    then have "take i ?q = take j ?q @ [?q ! j]" using i by (simp add: take_Suc_conv_app_nth)
    then show ?thesis using i j by simp
  qed
  have "shift_loop n (Suc i) ?q = Inr (take i ?q @ take n (drop (Suc i) ?q) @ drop (i + n) ?q)"
    using Suc.IH [of "Suc i" ?q] Suc.prems by simp
  moreover have "drop (Suc i) ?q = drop (Suc i) q" "drop (i + n) ?q = drop (i + n) q"
    using Suc.prems by simp_all
  moreover have "q ! i # take n (drop (Suc i) q) = take (Suc n) (drop i q)"
    using i by (metis Cons_nth_drop_Suc take_Suc_Cons)
  ultimately show ?case using i upd Suc.prems by (simp add: algebra_simps)
qed

lemma queue_wf_init: "queue_wf (init_instance asock)"
  by (simp add: queue_wf_def init_instance_def)

lemma queue_contents_init: "queue_contents (init_instance asock) = []"
  by (simp add: queue_contents_def init_instance_def)

lemma length_queue_contents: "queue_wf inst \<Longrightarrow> length (queue_contents inst) = nat (i_slast inst)"
  by (auto simp: queue_wf_def queue_contents_def)

lemma add_message_room:
  assumes wf: "queue_wf inst" and room: "length (queue_contents inst) < MAX_QUEUE_LEN"
  shows "\<exists>inst'. add_message_to_send_queue inst msg = Inr (inst', 1) \<and> queue_wf inst' \<and>
           queue_contents inst' = queue_contents inst @ [msg]"
proof -
  define n where "n = nat (i_slast inst)"
  have n: "i_slast inst = int n" "n < length (i_sendq inst)" "length (i_sendq inst) = MAX_QUEUE_LEN"
    using wf room by (auto simp: n_def queue_wf_def queue_contents_def)
  have tk: "take (Suc n) ((i_sendq inst)[n := Some msg]) = take n (i_sendq inst) @ [Some msg]"
    using n(2) by (simp add: take_Suc_conv_app_nth)
  have "nat (int n + 1) = Suc n" by simp
  then show ?thesis
    using wf n tk by (auto simp: add_message_to_send_queue_def queue_wf_def queue_contents_def)
qed

lemma fetch_message_first:
  assumes wf: "queue_wf inst" and c: "queue_contents inst = x # xs"
  shows "\<exists>inst'. fetch_message_from_send_queue inst = Inr (Some x, inst') \<and> queue_wf inst' \<and>
           queue_contents inst' = xs"
proof -
  obtain n where n: "i_slast inst = int (Suc n)"
    using wf c by (metis length_Cons length_queue_contents nat_0_le queue_wf_def)
  then have len: "Suc n \<le> length (i_sendq inst)" "length (i_sendq inst) = MAX_QUEUE_LEN"
    using wf by (auto simp: queue_wf_def)
  then obtain y ys where q: "i_sendq inst = y # ys" by (cases "i_sendq inst") auto
  have y: "y = Some x" and ys: "xs = map the (take n ys)" and none: "None \<notin> set (take n ys)"
    using wf c n q by (auto simp: queue_wf_def queue_contents_def nat_add_distrib)
  have "shift_loop n 1 (i_sendq inst) = Inr (take n ys @ drop n (y # ys))"
    using shift_loop_tail [of 1 n "i_sendq inst"] len q by simp
  then show ?thesis
    using n q y ys none len
    by (auto simp: fetch_message_from_send_queue_def queue_wf_def queue_contents_def nat_add_distrib)
qed

interpretation epdg_queue: bounded_fifo add_message_to_send_queue fetch_message_from_send_queue
  queue_contents queue_wf MAX_QUEUE_LEN
proof unfold_locales
  fix q :: instance_t and m
  assume "queue_wf q" and "\<not> length (queue_contents q) < MAX_QUEUE_LEN"
  then show "add_message_to_send_queue q m = Inr (q, - 1)"
    by (auto simp: length_queue_contents add_message_to_send_queue_def)
next
  fix q :: instance_t
  assume "queue_wf q" and "queue_contents q = []"
  then show "fetch_message_from_send_queue q = Inr (None, q)"
    using length_queue_contents [of q] by (simp add: fetch_message_from_send_queue_def)
qed (simp_all add: add_message_room fetch_message_first)

subsection \<open>The socket loop\<close>

lemma write_loop_sent: "write_loop buf rs = (out, fin) \<Longrightarrow> (\<exists>rest. buf = out @ rest) \<and> (fin \<longrightarrow> out = buf)"
proof (induction buf rs arbitrary: out fin rule: write_loop.induct)
  case (3 b bs r rs)
  show ?case
  proof (cases "0 < r")
    case True
    obtain out' where w: "write_loop (drop (nat r) (b # bs)) rs = (out', fin)"
      and out: "out = take (nat r) (b # bs) @ out'"
      using "3.prems" True by (auto split: prod.splits)
    from "3.IH"(1) [OF True w] obtain rest where
      "drop (nat r) (b # bs) = out' @ rest" "fin \<longrightarrow> out' = drop (nat r) (b # bs)" by blast
    then show ?thesis unfolding out by (metis append_assoc append_take_drop_id)
  next
    case False
    with "3.IH"(2) "3.prems" show ?thesis by simp
  qed
qed auto

lemma write_loop_finishes:
  "length buf \<le> length (filter (\<lambda>r. 0 < r) rs) \<Longrightarrow> snd (write_loop buf rs)"
proof (induction buf rs rule: write_loop.induct)
  case (3 b bs r rs)
  show ?case
  proof (cases "0 < r")
    case True
    then have "length (drop (nat r) (b # bs)) \<le> length (filter (\<lambda>r. 0 < r) rs)"
      using "3.prems" by simp
    from "3.IH"(1) [OF True this] show ?thesis using True by (auto split: prod.splits)
  next
    case False
    then show ?thesis using "3.IH"(2) "3.prems" by simp
  qed
qed auto

subsection \<open>Binding a test to an IKE_SA\<close>

lemma check_instance_some:
  "\<exists>inst'. snd (check_instance (Some inst) ispi rspi update) = Some inst'"
  by (simp add: check_instance_def Let_def split: prod.splits)

lemma check_instance_queue:
  "check_instance (Some inst) ispi rspi update = (ret, Some inst') \<Longrightarrow>
   i_sendq inst' = i_sendq inst \<and> i_slast inst' = i_slast inst"
  by (auto simp: check_instance_def Let_def split: if_splits)

end
