(* ===== verification/Query_Heap.thy ===== *)
theory Query_Heap
  imports Epdg_Instance
begin

text \<open>
  The queries of \<^verbatim>\<open>ike_sa_instance.c\<close>: nodes linked by \<^verbatim>\<open>parent\<close>, \<^verbatim>\<open>sub\<close> and \<^verbatim>\<open>next\<close> pointers on
  an explicit heap, and every operation on them. A pointer is an address or NULL (\<open>None\<close>); a cell
  that holds \<open>None\<close> is not allocated. Allocation never fails.
\<close>

section \<open>The heap\<close>

text \<open>A heap buffer owned by a node: NULL, allocated with its contents, or already released.\<close>

datatype cbuf = CNull | CBuf string | CFreed

text \<open>The fields of \<^verbatim>\<open>query_t\<close>: what a node says, and its links.\<close>

record qdata =
  q_name :: "string option"
  q_nlen :: int
  q_op :: int
  q_vtype :: int
  q_value :: cbuf
  q_vlen :: int

record query_t = qdata +
  q_parent :: "addr option"
  q_sub :: "addr option"
  q_next :: "addr option"

record qheap =
  qh_mem :: "addr \<Rightarrow> query_t option"
  qh_fresh :: addr

definition empty_heap :: qheap where
  "empty_heap = \<lparr>qh_mem = (\<lambda>_. None), qh_fresh = 0\<rparr>"

definition deref :: "qheap \<Rightarrow> addr option \<Rightarrow> query_t cres" where
  "deref h p =
     (case p of
        None \<Rightarrow> Inl NullDeref
      | Some a \<Rightarrow> (case qh_mem h a of None \<Rightarrow> Inl UseAfterFree | Some n \<Rightarrow> Inr n))"

definition store :: "qheap \<Rightarrow> addr \<Rightarrow> query_t \<Rightarrow> qheap" where
  "store h a n = h\<lparr>qh_mem := (qh_mem h)(a := Some n)\<rparr>"

text \<open>Assignment to a field through a pointer.\<close>

definition update_node :: "qheap \<Rightarrow> addr option \<Rightarrow> (query_t \<Rightarrow> query_t) \<Rightarrow> qheap cres" where
  "update_node h p f = bindE (deref h p) (\<lambda>n. Inr (store h (the p) (f n)))"

section \<open>Operations\<close>

definition null_query :: query_t where
  "null_query = \<lparr>q_name = None, q_nlen = 0, q_op = 0, q_vtype = 0, q_value = CNull, q_vlen = 0,
                 q_parent = None, q_sub = None, q_next = None\<rparr>"

definition init_query :: "qheap \<Rightarrow> addr \<times> qheap" where
  "init_query h =
     (qh_fresh h, (store h (qh_fresh h) null_query)\<lparr>qh_fresh := Suc (qh_fresh h)\<rparr>)"

definition has_query_parent :: "qheap \<Rightarrow> addr option \<Rightarrow> bool cres" where
  "has_query_parent h query = bindE (deref h query) (\<lambda>n. Inr (q_parent n \<noteq> None))"

definition get_query_parent :: "qheap \<Rightarrow> addr option \<Rightarrow> addr option cres" where
  "get_query_parent h query = bindE (deref h query) (\<lambda>n. Inr (q_parent n))"

definition set_query_parent :: "qheap \<Rightarrow> addr option \<Rightarrow> addr option \<Rightarrow> qheap cres" where
  "set_query_parent h query parent = update_node h query (\<lambda>n. n\<lparr>q_parent := parent\<rparr>)"

definition add_query_sub_message ::
  "qheap \<Rightarrow> addr option \<Rightarrow> int \<Rightarrow> int \<Rightarrow> (addr option \<times> qheap) cres" where
  "add_query_sub_message h query ptype ctype =
     bindE
       (if ctype = MSG_TYPE_ATTRIBUTE \<and> ptype = MSG_TYPE_ATTRIBUTE then
          bindE (has_query_parent h query) (\<lambda>b.
            if b then get_query_parent h query else Inl (Exited 1))
        else Inr query)
       (\<lambda>query.
          case init_query h of (sub, h1) \<Rightarrow>
            bindE (set_query_parent h1 (Some sub) query) (\<lambda>h2.
              bindE (deref h2 query) (\<lambda>n.
                bindE (if q_sub n \<noteq> None then update_node h2 (Some sub) (\<lambda>s. s\<lparr>q_next := q_sub n\<rparr>)
                       else Inr h2) (\<lambda>h3.
                  bindE (update_node h3 query (\<lambda>n. n\<lparr>q_sub := Some sub\<rparr>)) (\<lambda>h4.
                    Inr (Some sub, h4))))))"

definition get_query_name :: "qheap \<Rightarrow> addr option \<Rightarrow> (string option \<times> int) cres" where
  "get_query_name h query = bindE (deref h query) (\<lambda>n. Inr (q_name n, q_nlen n))"

text \<open>The length of a token without a final newline; the token is not empty.\<close>

definition chomp_len :: "string \<Rightarrow> nat cres" where
  "chomp_len s =
     (if s = [] then Inl OutOfBounds
      else Inr (if last s = NL then length s - 1 else length s))"

definition set_query_name :: "qheap \<Rightarrow> addr option \<Rightarrow> string \<Rightarrow> qheap cres" where
  "set_query_name h query name =
     bindE (chomp_len name) (\<lambda>nlen.
       update_node h query (\<lambda>n. n\<lparr>q_name := Some (take nlen name), q_nlen := int nlen\<rparr>))"

definition get_query_operator :: "qheap \<Rightarrow> addr option \<Rightarrow> int cres" where
  "get_query_operator h query = bindE (deref h query) (\<lambda>n. Inr (q_op n))"

definition set_query_operator :: "qheap \<Rightarrow> addr option \<Rightarrow> int \<Rightarrow> qheap cres" where
  "set_query_operator h query opr = update_node h query (\<lambda>n. n\<lparr>q_op := opr\<rparr>)"

definition get_query_value_type :: "qheap \<Rightarrow> addr option \<Rightarrow> int cres" where
  "get_query_value_type h query = bindE (deref h query) (\<lambda>n. Inr (q_vtype n))"

text \<open>The string argument is followed in memory by its terminating NUL.\<close>

definition set_query_value_type :: "qheap \<Rightarrow> addr option \<Rightarrow> string \<Rightarrow> qheap cres" where
  "set_query_value_type h query vtstr =
     bindE (char_to_int (vtstr @ [NUL]) (int (length vtstr)) 10) (\<lambda>v.
       update_node h query (\<lambda>n. n\<lparr>q_vtype := sint v\<rparr>))"

definition get_query_value :: "qheap \<Rightarrow> addr option \<Rightarrow> (cbuf \<times> int) cres" where
  "get_query_value h query = bindE (deref h query) (\<lambda>n. Inr (q_value n, q_vlen n))"

definition set_query_value :: "qheap \<Rightarrow> addr option \<Rightarrow> string \<Rightarrow> qheap cres" where
  "set_query_value h query value =
     bindE (chomp_len value) (\<lambda>vlen.
       update_node h query (\<lambda>n. n\<lparr>q_value := CBuf (take vlen value), q_vlen := int vlen\<rparr>))"

subsection \<open>Release\<close>

text \<open>
  The recursion of \<^verbatim>\<open>free_query\<close> and its loop over the sub-queries. The fuel bounds the nesting of
  calls; a nesting deeper than the number of cells allows comes back to a cell it is working on.
\<close>

fun free_query_fuel :: "nat \<Rightarrow> qheap \<Rightarrow> addr option \<Rightarrow> qheap cres"
  and free_subs_fuel :: "nat \<Rightarrow> qheap \<Rightarrow> addr option \<Rightarrow> qheap cres" where
  "free_query_fuel 0 h query = Inl Diverges"
| "free_query_fuel (Suc k) h query =
     (case query of
        None \<Rightarrow> Inr h
      | Some a \<Rightarrow>
          bindE (deref h query) (\<lambda>n.
            if q_value n = CFreed then Inl DoubleFree
            else bindE (free_subs_fuel k h (q_sub n)) (\<lambda>h'.
              case qh_mem h' a of
                None \<Rightarrow> Inl DoubleFree
              | Some _ \<Rightarrow> Inr (h'\<lparr>qh_mem := (qh_mem h')(a := None)\<rparr>))))"
| "free_subs_fuel 0 h cur = Inl Diverges"
| "free_subs_fuel (Suc k) h cur =
     (case cur of
        None \<Rightarrow> Inr h
      | Some a \<Rightarrow>
          bindE (deref h cur) (\<lambda>n.
            bindE (free_query_fuel k h cur) (\<lambda>h'. free_subs_fuel k h' (q_next n))))"

definition free_query :: "qheap \<Rightarrow> addr option \<Rightarrow> qheap cres" where
  "free_query h query = free_query_fuel (2 * qh_fresh h + 2) h query"

subsection \<open>Printing\<close>

text \<open>The lines \<^verbatim>\<open>_print_query\<close> prints for one node, for its sub-queries and at its end.\<close>

definition print_node_line :: "query_t \<Rightarrow> nat \<Rightarrow> string cres" where
  "print_node_line n depth =
     bindE (if 0 < q_nlen n then
              (case q_name n of None \<Rightarrow> Inl NullDeref | Some s \<Rightarrow> Inr (take (nat (q_nlen n)) s))
            else Inr []) (\<lambda>nm.
     bindE (if 0 < q_vlen n then
              (case q_value n of
                 CNull \<Rightarrow> Inl NullDeref
               | CFreed \<Rightarrow> Inl UseAfterFree
               | CBuf v \<Rightarrow> Inr (CHR '':'' # take (nat (q_vlen n)) v))
            else Inr []) (\<lambda>v.
       if length nm + length v < MAX_MESSAGE_LEN
       then Inr (concat (replicate depth ''  '') @ nm @ v)
       else Inl OutOfBounds))"

fun print_query_fuel :: "nat \<Rightarrow> qheap \<Rightarrow> addr option \<Rightarrow> nat \<Rightarrow> string list cres"
  and print_subs_fuel :: "nat \<Rightarrow> qheap \<Rightarrow> addr option \<Rightarrow> nat \<Rightarrow> string list cres" where
  "print_query_fuel 0 h query depth = Inl Diverges"
| "print_query_fuel (Suc k) h query depth =
     bindE (deref h query) (\<lambda>n.
       bindE (print_node_line n depth) (\<lambda>l.
         bindE (print_subs_fuel k h (q_sub n) (depth + 1)) (\<lambda>ls.
           Inr (l # ls @ [concat (replicate depth ''  '') @ ''end'']))))"
| "print_subs_fuel 0 h sub depth = Inl Diverges"
| "print_subs_fuel (Suc k) h sub depth =
     (case sub of
        None \<Rightarrow> Inr []
      | Some a \<Rightarrow>
          bindE (print_query_fuel k h sub depth) (\<lambda>ls.
            bindE (deref h sub) (\<lambda>n.
              bindE (print_subs_fuel k h (q_next n) depth) (\<lambda>ls'. Inr (ls @ ls')))))"

definition print_query :: "qheap \<Rightarrow> addr option \<Rightarrow> string list cres" where
  "print_query h query = print_query_fuel (2 * qh_fresh h + 2) h query 0"

subsection \<open>Lookup\<close>

definition is_query_name :: "qheap \<Rightarrow> addr option \<Rightarrow> string option \<Rightarrow> bool cres" where
  "is_query_name h query name =
     (case query of
        None \<Rightarrow> Inr False
      | Some a \<Rightarrow>
         (case name of
            None \<Rightarrow> Inr False
          | Some nm \<Rightarrow>
              bindE (deref h query) (\<lambda>n.
                if q_nlen n = int (length nm) then
                  (case q_name n of
                     None \<Rightarrow> if q_nlen n = 0 then Inr True else Inl NullDeref
                   | Some qn \<Rightarrow> Inr (strncmp_eq qn nm (nat (q_nlen n))))
                else Inr False)))"

text \<open>
  The loop of \<^verbatim>\<open>get_sub_query_by_name\<close> along the \<^verbatim>\<open>next\<close> pointers; a walk longer than the number of
  cells never ends.
\<close>

fun find_sub_fuel :: "nat \<Rightarrow> qheap \<Rightarrow> string \<Rightarrow> addr option \<Rightarrow> addr option cres" where
  "find_sub_fuel 0 h name cur = Inl Diverges"
| "find_sub_fuel (Suc k) h name cur =
     (case cur of
        None \<Rightarrow> Inr None
      | Some a \<Rightarrow>
          bindE (is_query_name h cur (Some name)) (\<lambda>b.
            if b then Inr cur
            else bindE (deref h cur) (\<lambda>n. find_sub_fuel k h name (q_next n))))"

definition get_sub_query_by_name :: "qheap \<Rightarrow> addr option \<Rightarrow> string \<Rightarrow> addr option cres" where
  "get_sub_query_by_name h query name =
     bindE (deref h query) (\<lambda>n. find_sub_fuel (qh_fresh h + 1) h name (q_sub n))"

definition has_query :: "instance_t \<Rightarrow> bool" where
  "has_query inst \<longleftrightarrow> i_query inst \<noteq> None"

definition is_query_finished :: "instance_t \<Rightarrow> bool" where
  "is_query_finished inst = i_finished inst"

definition get_query :: "instance_t \<Rightarrow> addr option" where
  "get_query inst = i_query inst"

text \<open>
  The conditions of the form \<^verbatim>\<open>(query = get_query(instance)) && is_query_name(query, m) && (query =
  get_sub_query_by_name(query, a)) && ...\<close> that guard the blocks of the query processing: the node at
  the end of the path of names, or NULL.
\<close>

fun sub_path :: "qheap \<Rightarrow> addr option \<Rightarrow> string list \<Rightarrow> addr option cres" where
  "sub_path h query [] = Inr query"
| "sub_path h query (name # names) =
     (case query of
        None \<Rightarrow> Inr None
      | Some a \<Rightarrow> bindE (get_sub_query_by_name h query name) (\<lambda>q. sub_path h q names))"

definition query_at :: "qheap \<Rightarrow> instance_t \<Rightarrow> string \<Rightarrow> string list \<Rightarrow> addr option cres" where
  "query_at h inst mname names =
     bindE (is_query_name h (get_query inst) (Some mname)) (\<lambda>b.
       if b then sub_path h (get_query inst) names else Inr None)"

subsection \<open>Waiting for the next query\<close>

text \<open>
  The busy wait of \<^verbatim>\<open>get_next_query\<close>. The listener thread changes the instance while the loop
  runs: the states that the successive iterations observe are the arguments. The result is \<open>None\<close>
  when the loop still waits after the last of them.
\<close>

definition must_wait :: "qheap \<Rightarrow> instance_t \<Rightarrow> bool cres" where
  "must_wait h inst =
     (if i_query inst = None then Inr True else is_query_name h (get_query inst) (i_sprev inst))"

primrec next_query_loop :: "(qheap \<times> instance_t) list \<Rightarrow> addr option option cres" where
  "next_query_loop [] = Inr None"
| "next_query_loop (s # env) =
     bindE (must_wait (fst s) (snd s)) (\<lambda>wait.
       if wait \<and> \<not> i_finished (snd s) then next_query_loop env
       else Inr (Some (get_query (snd s))))"

definition get_next_query ::
  "qheap \<Rightarrow> instance_t \<Rightarrow> (qheap \<times> instance_t) list \<Rightarrow> addr option option cres" where
  "get_next_query h inst env =
     (if i_initiated inst \<and> \<not> i_finished inst then next_query_loop ((h, inst) # env)
      else Inr (Some None))"

text \<open>\<^verbatim>\<open>wait_query\<close> spins until a query is set, whatever the finished flag says.\<close>

primrec wait_query :: "instance_t list \<Rightarrow> bool option" where
  "wait_query [] = None"
| "wait_query (inst # env) = (if has_query inst then Some True else wait_query env)"

end
