(* ===== verification/Query_Tree.thy ===== *)
theory Query_Tree
  imports Query_Heap
begin

text \<open>
  What the linked nodes mean: a query tree. \<open>qrep\<close> relates a heap to a tree whose nodes carry their
  addresses; under it lookup, release and printing of the heap are lookup, release and printing of
  the tree, they end, and they touch no cell that is not allocated.
\<close>

section \<open>Trees and their representation\<close>

datatype qtree = QNode (qt_addr: addr) (qt_data: qdata) (qt_subs: "qtree list")

abbreviation data_of :: "query_t \<Rightarrow> qdata" where
  "data_of n \<equiv> qdata.truncate n"

fun addrs :: "qtree \<Rightarrow> addr list" where
  "addrs (QNode a d ts) = a # concat (map addrs ts)"

definition first_addr :: "qtree list \<Rightarrow> addr option" where
  "first_addr ts = (case ts of [] \<Rightarrow> None | t # _ \<Rightarrow> Some (qt_addr t))"

text \<open>The \<^verbatim>\<open>next\<close> pointers of the nodes of a list of siblings.\<close>

primrec chain :: "qheap \<Rightarrow> qtree list \<Rightarrow> bool" where
  "chain h [] = True"
| "chain h (t # ts) =
     ((\<exists>n. qh_mem h (qt_addr t) = Some n \<and> q_next n = first_addr ts) \<and> chain h ts)"

fun qrep :: "qheap \<Rightarrow> addr option \<Rightarrow> qtree \<Rightarrow> bool" where
  "qrep h par (QNode a d ts) =
     ((\<exists>n. qh_mem h a = Some n \<and> data_of n = d \<and> q_parent n = par \<and> q_sub n = first_addr ts) \<and>
      chain h ts \<and> (\<forall>t\<in>set ts. qrep h (Some a) t))"

text \<open>What every setter keeps of a node: the stored lengths are the lengths of the buffers.\<close>

definition data_ok :: "qdata \<Rightarrow> bool" where
  "data_ok d \<longleftrightarrow>
     (case q_name d of None \<Rightarrow> q_nlen d = 0 | Some s \<Rightarrow> q_nlen d = int (length s)) \<and>
     (case q_value d of CNull \<Rightarrow> q_vlen d = 0 | CBuf v \<Rightarrow> q_vlen d = int (length v) | CFreed \<Rightarrow> True)"

fun all_data :: "(qdata \<Rightarrow> bool) \<Rightarrow> qtree \<Rightarrow> bool" where
  "all_data P (QNode a d ts) = (P d \<and> (\<forall>t\<in>set ts. all_data P t))"

definition heap_wf :: "qheap \<Rightarrow> bool" where
  "heap_wf h \<longleftrightarrow> (\<forall>a. qh_mem h a \<noteq> None \<longrightarrow> a < qh_fresh h)"

text \<open>A well-formed query: its nodes are pairwise different cells that hold the tree.\<close>

definition tree_ok :: "qheap \<Rightarrow> addr option \<Rightarrow> qtree \<Rightarrow> bool" where
  "tree_ok h par t \<longleftrightarrow> heap_wf h \<and> qrep h par t \<and> distinct (addrs t) \<and> all_data data_ok t"

definition query_ok :: "qheap \<Rightarrow> qtree \<Rightarrow> bool" where
  "query_ok h t \<longleftrightarrow> (\<exists>par. tree_ok h par t)"

subsection \<open>Abstract operations\<close>

definition named :: "string \<Rightarrow> qtree \<Rightarrow> bool" where
  "named name t \<longleftrightarrow> q_name (qt_data t) = Some name"

fun subtree :: "qtree \<Rightarrow> string list \<Rightarrow> qtree option" where
  "subtree t [] = Some t"
| "subtree t (name # names) =
     (case find (named name) (qt_subs t) of None \<Rightarrow> None | Some s \<Rightarrow> subtree s names)"

definition tree_at :: "qtree \<Rightarrow> string \<Rightarrow> string list \<Rightarrow> qtree option" where
  "tree_at t mname names = (if named mname t then subtree t names else None)"

definition data_line :: "qdata \<Rightarrow> nat \<Rightarrow> string" where
  "data_line d depth =
     concat (replicate depth ''  '') @ (case q_name d of None \<Rightarrow> [] | Some s \<Rightarrow> s)
     @ (case q_value d of CBuf v \<Rightarrow> (if v = [] then [] else CHR '':'' # v) | _ \<Rightarrow> [])"

fun tree_lines :: "nat \<Rightarrow> qtree \<Rightarrow> string list" where
  "tree_lines depth (QNode a d ts) =
     data_line d depth # concat (map (tree_lines (depth + 1)) ts)
     @ [concat (replicate depth ''  '') @ ''end'']"

section \<open>Lemmas\<close>

lemma first_addr_simps [simp]:
  "first_addr [] = None" "first_addr (t # ts) = Some (qt_addr t)"
  by (simp_all add: first_addr_def)

lemma qt_addr_in_addrs [simp]: "qt_addr t \<in> set (addrs t)"
  by (cases t) simp

lemma addrs_nonempty [simp]: "addrs t \<noteq> []"
  by (cases t) simp

lemma deref_Some [simp]: "qh_mem h a = Some n \<Longrightarrow> deref h (Some a) = Inr n"
  by (simp add: deref_def)

lemma deref_None [simp]: "deref h None = Inl NullDeref"
  by (simp add: deref_def)

text \<open>The representation looks only at the cells of the tree.\<close>

lemma chain_frame:
  "(\<And>t. t \<in> set ts \<Longrightarrow> qh_mem h' (qt_addr t) = qh_mem h (qt_addr t)) \<Longrightarrow> chain h' ts = chain h ts"
  by (induction ts) auto

lemma qrep_frame:
  "(\<And>a. a \<in> set (addrs t) \<Longrightarrow> qh_mem h' a = qh_mem h a) \<Longrightarrow> qrep h' par t = qrep h par t"
proof (induction t arbitrary: par)
  case (QNode a d ts)
  have "chain h' ts = chain h ts"
  proof (rule chain_frame)
    fix t assume "t \<in> set ts"
    then have "qt_addr t \<in> set (addrs (QNode a d ts))" by (auto intro: bexI [of _ t])
    then show "qh_mem h' (qt_addr t) = qh_mem h (qt_addr t)" by (rule QNode.prems)
  qed
  moreover have "qrep h' par' t = qrep h par' t" if "t \<in> set ts" for t par'
    using QNode.IH [OF that] QNode.prems that by auto
  moreover have "qh_mem h' a = qh_mem h a" by (simp add: QNode.prems)
  ultimately show ?case by auto
qed

lemma qrep_allocated: "qrep h par t \<Longrightarrow> a \<in> set (addrs t) \<Longrightarrow> qh_mem h a \<noteq> None"
  by (induction t arbitrary: par) auto

lemma qrep_node:
  "qrep h par t \<Longrightarrow> \<exists>n. qh_mem h (qt_addr t) = Some n \<and> data_of n = qt_data t \<and>
     q_parent n = par \<and> q_sub n = first_addr (qt_subs t)"
  by (cases t) simp

lemma query_size_le_fresh:
  assumes "heap_wf h" and "qrep h par t" and "distinct (addrs t)"
  shows "length (addrs t) \<le> qh_fresh h"
proof -
  have "set (addrs t) \<subseteq> {..<qh_fresh h}"
    using assms(1) qrep_allocated [OF assms(2)] by (auto simp: heap_wf_def)
  then have "card (set (addrs t)) \<le> card {..<qh_fresh h}" by (rule card_mono [rotated]) simp
  then show ?thesis by (simp add: distinct_card [OF assms(3)])
qed

lemma length_subs_le: "length ts \<le> length (concat (map addrs ts))"
proof (induction ts)
  case (Cons t ts)
  have "1 \<le> length (addrs t)" by (cases t) simp
  then show ?case using Cons by simp
qed simp

lemma truncate_fields:
  "q_name (data_of n) = q_name n" "q_nlen (data_of n) = q_nlen n" "q_op (data_of n) = q_op n"
  "q_vtype (data_of n) = q_vtype n" "q_value (data_of n) = q_value n" "q_vlen (data_of n) = q_vlen n"
  by (simp_all add: qdata.defs)

subsection \<open>Lookup\<close>

lemma is_query_name_node:
  assumes "qh_mem h a = Some n" and "data_ok (data_of n)" and "name \<noteq> []"
  shows "is_query_name h (Some a) (Some name) = Inr (q_name n = Some name)"
  using assms
  by (auto simp: is_query_name_def data_ok_def truncate_fields cstr_simps split: option.splits)

lemma find_sub_fuel_chain:
  assumes "\<And>t. t \<in> set ts \<Longrightarrow> \<exists>par. qrep h par t \<and> data_ok (qt_data t)"
    and "chain h ts" and "name \<noteq> []" and "length ts < k"
  shows "find_sub_fuel k h name (first_addr ts) = Inr (map_option qt_addr (find (named name) ts))"
  using assms
proof (induction ts arbitrary: k)
  case Nil
  then obtain k' where "k = Suc k'" by (cases k) auto
  then show ?case by simp
next
  case (Cons t ts)
  obtain k' where k: "k = Suc k'" "length ts < k'" using Cons.prems(4) by (cases k) auto
  obtain n where n: "qh_mem h (qt_addr t) = Some n" "data_of n = qt_data t"
    using Cons.prems(1) [of t] qrep_node by fastforce
  have nxt: "q_next n = first_addr ts" using Cons.prems(2) n(1) by simp
  have name: "is_query_name h (Some (qt_addr t)) (Some name) = Inr (named name t)"
    using is_query_name_node [OF n(1)] Cons.prems(1) [of t] n(2) Cons.prems(3)
    by (auto simp: named_def truncate_fields [symmetric])
  have "find_sub_fuel k' h name (first_addr ts) = Inr (map_option qt_addr (find (named name) ts))"
    using Cons.IH [of k'] Cons.prems k(2) by simp
  then show ?case using k(1) name n(1) nxt by simp
qed

lemma all_data_root: "all_data P t \<Longrightarrow> P (qt_data t)"
  by (cases t) simp

lemma all_data_subs: "all_data P t \<Longrightarrow> s \<in> set (qt_subs t) \<Longrightarrow> all_data P s"
  by (cases t) simp

lemma get_sub_query_by_name_rep:
  assumes "heap_wf h" and "qrep h par t" and "distinct (addrs t)" and "all_data data_ok t"
    and "name \<noteq> []"
  shows "get_sub_query_by_name h (Some (qt_addr t)) name =
           Inr (map_option qt_addr (find (named name) (qt_subs t)))"
proof (cases t)
  case (QNode a d ts)
  obtain n where n: "qh_mem h a = Some n" "q_sub n = first_addr ts"
    using assms(2) QNode by auto
  have "length ts < qh_fresh h + 1"
    using query_size_le_fresh [OF assms(1-3)] length_subs_le [of ts] QNode by simp
  then have "find_sub_fuel (qh_fresh h + 1) h name (first_addr ts) =
               Inr (map_option qt_addr (find (named name) ts))"
    using assms(2,4,5) QNode by (intro find_sub_fuel_chain) (auto intro: all_data_root)
  then show ?thesis
    using QNode n by (simp add: get_sub_query_by_name_def del: find_sub_fuel.simps)
qed

lemma qrep_subs: "qrep h par t \<Longrightarrow> s \<in> set (qt_subs t) \<Longrightarrow> qrep h (Some (qt_addr t)) s"
  by (cases t) simp

lemma distinct_subs: "distinct (addrs t) \<Longrightarrow> s \<in> set (qt_subs t) \<Longrightarrow> distinct (addrs s)"
  by (cases t) (auto simp: distinct_concat_iff)

lemma sub_path_rep:
  "heap_wf h \<Longrightarrow> qrep h par t \<Longrightarrow> distinct (addrs t) \<Longrightarrow> all_data data_ok t \<Longrightarrow> [] \<notin> set names \<Longrightarrow>
   sub_path h (Some (qt_addr t)) names = Inr (map_option qt_addr (subtree t names))"
proof (induction names arbitrary: t par)
  case Nil
  then show ?case by simp
next
  case (Cons name names)
  have g: "get_sub_query_by_name h (Some (qt_addr t)) name =
             Inr (map_option qt_addr (find (named name) (qt_subs t)))"
    using Cons.prems by (intro get_sub_query_by_name_rep) auto
  show ?case
  proof (cases "find (named name) (qt_subs t)")
    case None
    then show ?thesis using g by (cases names) simp_all
  next
    case (Some s)
    then have "s \<in> set (qt_subs t)" by (metis find_Some_iff nth_mem)
    then have "sub_path h (Some (qt_addr s)) names = Inr (map_option qt_addr (subtree s names))"
      using Cons.prems by (intro Cons.IH [of "Some (qt_addr t)"])
        (auto intro: qrep_subs distinct_subs all_data_subs)
    then show ?thesis using g Some by simp
  qed
qed

text \<open>The guards of the query processing are lookups in the tree the instance points to.\<close>

lemma query_at_rep:
  assumes "query_ok h t" and "i_query inst = Some (qt_addr t)" and "mname \<noteq> []" and "[] \<notin> set names"
  shows "query_at h inst mname names = Inr (map_option qt_addr (tree_at t mname names))"
proof -
  obtain par where rep: "heap_wf h" "qrep h par t" "distinct (addrs t)" "all_data data_ok t"
    using assms(1) by (auto simp: query_ok_def tree_ok_def)
  obtain n where n: "qh_mem h (qt_addr t) = Some n" "data_of n = qt_data t"
    using qrep_node [OF rep(2)] by blast
  have "is_query_name h (Some (qt_addr t)) (Some mname) = Inr (named mname t)"
    using is_query_name_node [OF n(1)] n(2) all_data_root [OF rep(4)] assms(3)
    by (auto simp: named_def truncate_fields [symmetric])
  then show ?thesis
    using assms(2) sub_path_rep [OF rep assms(4)] by (simp add: query_at_def tree_at_def get_query_def)
qed

lemma query_at_null: "i_query inst = None \<Longrightarrow> query_at h inst mname names = Inr None"
  by (simp add: query_at_def is_query_name_def get_query_def)

subsection \<open>Release\<close>

definition release :: "qheap \<Rightarrow> addr set \<Rightarrow> qheap" where
  "release h A = h\<lparr>qh_mem := (\<lambda>a. if a \<in> A then None else qh_mem h a)\<rparr>"

lemma release_release: "release (release h A) B = release h (A \<union> B)"
  by (auto simp: release_def fun_eq_iff)

lemma release_empty [simp]: "release h {} = h"
  by (simp add: release_def)

lemma qh_mem_release [simp]: "qh_mem (release h A) a = (if a \<in> A then None else qh_mem h a)"
  by (simp add: release_def)

abbreviation value_live :: "qdata \<Rightarrow> bool" where
  "value_live d \<equiv> q_value d \<noteq> CFreed"

lemma qrep_release: "qrep h par t \<Longrightarrow> set (addrs t) \<inter> A = {} \<Longrightarrow> qrep (release h A) par t"
  by (subst qrep_frame [where h = h]) auto

lemma chain_release:
  "chain h ts \<Longrightarrow> set (concat (map addrs ts)) \<inter> A = {} \<Longrightarrow> chain (release h A) ts"
proof (subst chain_frame [where h = h])
  fix t assume "t \<in> set ts" and d: "set (concat (map addrs ts)) \<inter> A = {}"
  then have "qt_addr t \<in> set (concat (map addrs ts))" by (auto intro: bexI [of _ t])
  with d have "qt_addr t \<notin> A" by blast
  then show "qh_mem (release h A) (qt_addr t) = qh_mem h (qt_addr t)" by simp
qed

text \<open>
  The statement for a tree and for a list of siblings, at one amount of fuel: exactly the cells of
  the tree are released, or a value was released before and the second release fails.
\<close>

definition freed_result :: "bool \<Rightarrow> qheap \<Rightarrow> addr set \<Rightarrow> qheap cres" where
  "freed_result live h A = (if live then Inr (release h A) else Inl DoubleFree)"

definition frees_tree :: "nat \<Rightarrow> bool" where
  "frees_tree k \<longleftrightarrow> (\<forall>h par t. qrep h par t \<longrightarrow> distinct (addrs t) \<longrightarrow> 2 * length (addrs t) \<le> k \<longrightarrow>
     free_query_fuel k h (Some (qt_addr t)) = freed_result (all_data value_live t) h (set (addrs t)))"

definition frees_list :: "nat \<Rightarrow> bool" where
  "frees_list k \<longleftrightarrow> (\<forall>h par ts. (\<forall>t\<in>set ts. qrep h par t) \<longrightarrow> chain h ts \<longrightarrow>
     distinct (concat (map addrs ts)) \<longrightarrow> 2 * length (concat (map addrs ts)) + 1 \<le> k \<longrightarrow>
     free_subs_fuel k h (first_addr ts) =
       freed_result (\<forall>t\<in>set ts. all_data value_live t) h (set (concat (map addrs ts))))"

lemma frees_tree_Suc: "frees_list k \<Longrightarrow> frees_tree (Suc k)"
  unfolding frees_tree_def
proof (intro allI impI)
  fix h par t
  assume IH: "frees_list k" and rep: "qrep h par t" and dist: "distinct (addrs t)"
    and fuel: "2 * length (addrs t) \<le> Suc k"
  obtain a d ts where t: "t = QNode a d ts" by (cases t)
  let ?A = "set (concat (map addrs ts))"
  obtain n where n: "qh_mem h a = Some n" "data_of n = d" "q_sub n = first_addr ts"
    using rep t by auto
  have v: "q_value n = q_value d" using n(2) by (auto simp: truncate_fields)
  have "free_subs_fuel k h (first_addr ts) = freed_result (\<forall>t\<in>set ts. all_data value_live t) h ?A"
    using IH rep dist fuel t unfolding frees_list_def by auto
  moreover have "a \<notin> ?A" using dist t by simp
  moreover have "(release h ?A)\<lparr>qh_mem := (qh_mem (release h ?A))(a := None)\<rparr>
                 = release h (set (addrs t))"
    using t by (auto simp: release_def fun_eq_iff)
  ultimately show "free_query_fuel (Suc k) h (Some (qt_addr t))
      = freed_result (all_data value_live t) h (set (addrs t))"
    using t n v by (simp add: freed_result_def)
qed

lemma frees_list_Suc: "frees_tree k \<Longrightarrow> frees_list k \<Longrightarrow> frees_list (Suc k)"
  unfolding frees_list_def [of "Suc k"]
proof (intro allI impI)
  fix h par ts
  assume IHt: "frees_tree k" and IHl: "frees_list k"
    and rep: "\<forall>t\<in>set ts. qrep h par t" and ch: "chain h ts"
    and dist: "distinct (concat (map addrs ts))"
    and fuel: "2 * length (concat (map addrs ts)) + 1 \<le> Suc k"
  show "free_subs_fuel (Suc k) h (first_addr ts)
      = freed_result (\<forall>t\<in>set ts. all_data value_live t) h (set (concat (map addrs ts)))"
  proof (cases ts)
    case Nil
    then show ?thesis by (simp add: freed_result_def)
  next
    case (Cons t ts')
    let ?B = "set (concat (map addrs ts'))"
    obtain n where n: "qh_mem h (qt_addr t) = Some n" "q_next n = first_addr ts'"
      using ch Cons by auto
    have one: "1 \<le> length (addrs t)" by (cases t) simp
    have "free_query_fuel k h (Some (qt_addr t)) = freed_result (all_data value_live t) h (set (addrs t))"
      using IHt rep dist fuel Cons unfolding frees_tree_def by auto
    moreover have disj: "?B \<inter> set (addrs t) = {}" using dist Cons by auto
    have "free_subs_fuel k (release h (set (addrs t))) (first_addr ts')
          = freed_result (\<forall>t\<in>set ts'. all_data value_live t) (release h (set (addrs t))) ?B"
    proof -
      have "\<forall>s\<in>set ts'. qrep (release h (set (addrs t))) par s"
        using rep Cons disj by (fastforce intro: qrep_release)
      moreover have "chain (release h (set (addrs t))) ts'"
        using ch Cons disj by (intro chain_release) auto
      moreover have "distinct (concat (map addrs ts'))" using dist Cons by simp
      moreover have "2 * length (concat (map addrs ts')) + 1 \<le> k"
        using fuel Cons one by simp
      ultimately show ?thesis using IHl unfolding frees_list_def by blast
    qed
    ultimately show ?thesis using Cons n by (simp add: freed_result_def release_release)
  qed
qed

lemma frees_all: "frees_tree k \<and> frees_list k"
proof (induction k)
  case 0
  show ?case by (auto simp: frees_tree_def frees_list_def)
next
  case (Suc k)
  then show ?case by (simp add: frees_tree_Suc frees_list_Suc)
qed

lemma free_query_result:
  assumes "query_ok h t"
  shows "free_query h (Some (qt_addr t)) = freed_result (all_data value_live t) h (set (addrs t))"
proof -
  obtain par where ok: "tree_ok h par t" using assms(1) by (auto simp: query_ok_def)
  then have "2 * length (addrs t) \<le> 2 * qh_fresh h + 2"
    using query_size_le_fresh [of h par t] by (simp add: tree_ok_def)
  then show ?thesis
    using frees_all [of "2 * qh_fresh h + 2"] ok
    unfolding frees_tree_def free_query_def tree_ok_def by blast
qed

lemma free_query_rep:
  "query_ok h t \<Longrightarrow> all_data value_live t \<Longrightarrow>
   free_query h (Some (qt_addr t)) = Inr (release h (set (addrs t)))"
  by (simp add: free_query_result freed_result_def)

subsection \<open>Printing\<close>

text \<open>The line of a node fits the buffer of \<^verbatim>\<open>_print_query\<close>.\<close>

definition printable :: "qdata \<Rightarrow> bool" where
  "printable d \<longleftrightarrow>
     (case q_name d of None \<Rightarrow> 0 | Some s \<Rightarrow> length s)
     + (case q_value d of CBuf v \<Rightarrow> (if v = [] then 0 else Suc (length v)) | _ \<Rightarrow> 0) < MAX_MESSAGE_LEN"

lemma print_node_line_data:
  assumes "data_ok (data_of n)" and "value_live (data_of n)"
  shows "print_node_line n depth =
           (if printable (data_of n) then Inr (data_line (data_of n) depth) else Inl OutOfBounds)"
  using assms
  by (auto simp: print_node_line_def data_ok_def printable_def data_line_def truncate_fields
      split: option.splits cbuf.splits)

definition prints_tree :: "nat \<Rightarrow> bool" where
  "prints_tree k \<longleftrightarrow> (\<forall>h par t depth. qrep h par t \<longrightarrow> all_data data_ok t \<longrightarrow> all_data value_live t \<longrightarrow>
     2 * length (addrs t) \<le> k \<longrightarrow>
     print_query_fuel k h (Some (qt_addr t)) depth =
       (if all_data printable t then Inr (tree_lines depth t) else Inl OutOfBounds))"

definition prints_list :: "nat \<Rightarrow> bool" where
  "prints_list k \<longleftrightarrow> (\<forall>h par ts depth.
     (\<forall>t\<in>set ts. qrep h par t \<and> all_data data_ok t \<and> all_data value_live t) \<longrightarrow> chain h ts \<longrightarrow>
     2 * length (concat (map addrs ts)) + 1 \<le> k \<longrightarrow>
     print_subs_fuel k h (first_addr ts) depth =
       (if \<forall>t\<in>set ts. all_data printable t then Inr (concat (map (tree_lines depth) ts))
        else Inl OutOfBounds))"

lemma prints_tree_Suc: "prints_list k \<Longrightarrow> prints_tree (Suc k)"
  unfolding prints_tree_def
proof (intro allI impI)
  fix h par t depth
  assume IH: "prints_list k" and rep: "qrep h par t" and ok: "all_data data_ok t"
    and live: "all_data value_live t" and fuel: "2 * length (addrs t) \<le> Suc k"
  obtain a d ts where t: "t = QNode a d ts" by (cases t)
  obtain n where n: "qh_mem h a = Some n" "data_of n = d" "q_sub n = first_addr ts"
    using rep t by auto
  have "print_subs_fuel k h (first_addr ts) (depth + 1) =
       (if \<forall>t\<in>set ts. all_data printable t then Inr (concat (map (tree_lines (depth + 1)) ts))
        else Inl OutOfBounds)"
    using IH rep ok live fuel t unfolding prints_list_def by auto
  moreover have "print_node_line n depth =
      (if printable d then Inr (data_line d depth) else Inl OutOfBounds)"
    using print_node_line_data [of n depth] ok live t n(2) by simp
  ultimately show "print_query_fuel (Suc k) h (Some (qt_addr t)) depth =
       (if all_data printable t then Inr (tree_lines depth t) else Inl OutOfBounds)"
    using t n by simp
qed

lemma prints_list_Suc: "prints_tree k \<Longrightarrow> prints_list k \<Longrightarrow> prints_list (Suc k)"
  unfolding prints_list_def [of "Suc k"]
proof (intro allI impI)
  fix h par ts depth
  assume IHt: "prints_tree k" and IHl: "prints_list k"
    and rep: "\<forall>t\<in>set ts. qrep h par t \<and> all_data data_ok t \<and> all_data value_live t"
    and ch: "chain h ts" and fuel: "2 * length (concat (map addrs ts)) + 1 \<le> Suc k"
  show "print_subs_fuel (Suc k) h (first_addr ts) depth =
       (if \<forall>t\<in>set ts. all_data printable t then Inr (concat (map (tree_lines depth) ts))
        else Inl OutOfBounds)"
  proof (cases ts)
    case Nil
    then show ?thesis by simp
  next
    case (Cons t ts')
    obtain n where n: "qh_mem h (qt_addr t) = Some n" "q_next n = first_addr ts'"
      using ch Cons by auto
    have one: "1 \<le> length (addrs t)" by (cases t) simp
    have "print_query_fuel k h (Some (qt_addr t)) depth =
        (if all_data printable t then Inr (tree_lines depth t) else Inl OutOfBounds)"
      using IHt rep fuel Cons unfolding prints_tree_def by auto
    moreover have "print_subs_fuel k h (first_addr ts') depth =
       (if \<forall>t\<in>set ts'. all_data printable t then Inr (concat (map (tree_lines depth) ts'))
        else Inl OutOfBounds)"
    proof -
      have "\<forall>t\<in>set ts'. qrep h par t \<and> all_data data_ok t \<and> all_data value_live t" "chain h ts'"
        "2 * length (concat (map addrs ts')) + 1 \<le> k"
        using rep ch fuel Cons one by simp_all
      then show ?thesis using IHl unfolding prints_list_def by blast
    qed
    ultimately show ?thesis using Cons n by simp
  qed
qed

lemma prints_all: "prints_tree k \<and> prints_list k"
proof (induction k)
  case 0
  show ?case by (auto simp: prints_tree_def prints_list_def)
next
  case (Suc k)
  then show ?case by (simp add: prints_tree_Suc prints_list_Suc)
qed

lemma print_query_rep:
  assumes "query_ok h t" and "all_data value_live t"
  shows "print_query h (Some (qt_addr t)) =
           (if all_data printable t then Inr (tree_lines 0 t) else Inl OutOfBounds)"
proof -
  obtain par where ok: "tree_ok h par t" using assms(1) by (auto simp: query_ok_def)
  then have "2 * length (addrs t) \<le> 2 * qh_fresh h + 2"
    using query_size_le_fresh [of h par t] by (simp add: tree_ok_def)
  then show ?thesis
    using prints_all [of "2 * qh_fresh h + 2"] assms(2) ok
    unfolding prints_tree_def print_query_def tree_ok_def by blast
qed

end
