(* ===== verification/Epdg_Listener.thy ===== *)
theory Epdg_Listener
  imports Query_Tree
begin

text \<open>
  The listener thread of the ePDG (\<^verbatim>\<open>listener_run\<close> of \<^verbatim>\<open>ike_sa_manager.c\<close>): it reads lines from the
  controller, answers the commands Hello, init and fin, and builds a query out of the lines of a
  test message.
\<close>

section \<open>The thread\<close>

definition HELLO_REQUEST :: string where "HELLO_REQUEST = ''Hello'' @ [NL]"
definition RESET_REQUEST :: string where "RESET_REQUEST = ''init'' @ [NL]"
definition FIN_REQUEST :: string where "FIN_REQUEST = ''fin'' @ [NL]"
definition ACK_RESPONSE :: string where "ACK_RESPONSE = ''ACK'' @ [NL]"

text \<open>
  The local variables of the thread that survive an iteration, the heap, the instance, and the
  bytes sent to the controller so far.
\<close>

record listener_t =
  l_heap :: qheap
  l_inst :: instance_t
  l_query :: "addr option"
  l_depth :: int
  l_ptype :: int
  l_sent :: string

text \<open>
  The inner reading loop: one byte per \<^verbatim>\<open>read\<close> until a newline. \<open>None\<close> is the end of the connection;
  a line that does not fit the buffer is written past its end. \<open>off\<close> is the position in \<^verbatim>\<open>buf\<close>.
\<close>

primrec read_line :: "string \<Rightarrow> nat \<Rightarrow> (string \<times> string) option cres" where
  "read_line [] off = Inr None"
| "read_line (c # cs) off =
     (if MAX_MESSAGE_LEN \<le> off then Inl OutOfBounds
      else if c = NL then Inr (Some ([NL], cs))
      else bindE (read_line cs (Suc off)) (\<lambda>r.
        Inr (case r of None \<Rightarrow> None | Some (l, rest) \<Rightarrow> Some (c # l, rest))))"

definition reset_instance :: "instance_t \<Rightarrow> instance_t" where
  "reset_instance inst =
     inst\<lparr>i_ispi := 0, i_rspi := 0, i_query := None, i_finished := False, i_initiated := True,
          i_sprev := None, i_rprev := None, i_imid := - 1, i_rmid := - 1, i_running := 1,
          i_retransmission := 0, i_not_report := 0, i_authentication_failed := 0,
          i_no_proposal_chosen := 0, i_invalid_ke_payload := 0, i_ike_sa := None\<rparr>"

definition finish_instance :: "instance_t \<Rightarrow> instance_t" where
  "finish_instance inst =
     inst\<lparr>i_finished := True, i_query := None, i_ispi := - 1, i_rspi := - 1\<rparr>"

text \<open>The switch on the message type: which node becomes current, and the nesting depth.\<close>

definition move_query ::
  "qheap \<Rightarrow> addr option \<Rightarrow> int \<Rightarrow> int \<Rightarrow> int \<Rightarrow> (qheap \<times> addr option \<times> int) cres" where
  "move_query h query depth ptype mtype =
     (if mtype = MSG_TYPE_ATTRIBUTE then
        bindE (add_query_sub_message h query ptype mtype) (\<lambda>(q, h'). Inr (h', q, depth))
      else if mtype = MSG_TYPE_BLOCK_START then
        (if query = None then (case init_query h of (q, h') \<Rightarrow> Inr (h', Some q, depth + 1))
         else bindE (add_query_sub_message h query ptype mtype) (\<lambda>(q, h'). Inr (h', q, depth + 1)))
      else if mtype = MSG_TYPE_BLOCK_END then
        bindE (has_query_parent h query) (\<lambda>b.
          bindE (if b then get_query_parent h query else Inr query) (\<lambda>q. Inr (h, q, depth - 1)))
      else Inr (h, query, depth))"

text \<open>The tokens after the SPIs: name, operator, value type, value; further ones are ignored.\<close>

definition apply_token :: "qheap \<Rightarrow> addr option \<Rightarrow> nat \<Rightarrow> string \<Rightarrow> qheap cres" where
  "apply_token h query idx token =
     (if idx = 0 then set_query_name h query token
      else if idx = 1 then
        bindE (if 6 \<le> length token \<and> strncmp_eq token ''update'' 6
               then set_query_operator h query OP_TYPE_UPDATE
               else if 4 \<le> length token \<and> strncmp_eq token ''drop'' 4
               then set_query_operator h query OP_TYPE_DROP
               else Inr h)
          (\<lambda>h'. bindE (get_query_operator h' query) (\<lambda>_. Inr h'))
      else if idx = 2 then set_query_value_type h query token
      else if idx = 3 then set_query_value h query token
      else Inr h)"

primrec apply_tokens :: "string list \<Rightarrow> qheap \<Rightarrow> addr option \<Rightarrow> nat \<Rightarrow> qheap cres" where
  "apply_tokens [] h query idx = Inr h"
| "apply_tokens (t # ts) h query idx =
     bindE (apply_token h query idx t) (\<lambda>h'. apply_tokens ts h' query (Suc idx))"

definition line_type :: "string \<Rightarrow> int cres" where
  "line_type line =
     bindE (char_to_int line 1 10) (\<lambda>v. Inr (uint (ucast v :: 8 word)))"

text \<open>
  A line of a test message: type, SPIs (compared with those of the instance for a warning only),
  and the tokens of the C string that starts at \<^verbatim>\<open>buf + 33\<close>. When the outermost block ends the query
  is handed to the instance.
\<close>

definition query_line :: "listener_t \<Rightarrow> string \<Rightarrow> listener_t cres" where
  "query_line st line =
     bindE (line_type line) (\<lambda>mtype.
     bindE (move_query (l_heap st) (l_query st) (l_depth st) (l_ptype st) mtype) (\<lambda>(h, query, depth).
     bindE (if 34 < length line then
              (if length line < MAX_MESSAGE_LEN
               then apply_tokens (strtok_all (\<lambda>c. c = CHR '':'') (cstr (drop 33 line))) h query 0
               else Inl OutOfBounds)
            else Inr h) (\<lambda>h'.
       if depth = 0 then
         bindE (print_query h' query) (\<lambda>_.
           Inr (st\<lparr>l_heap := h', l_inst := set_query (l_inst st) query, l_query := None,
                   l_depth := depth, l_ptype := mtype\<rparr>))
       else Inr (st\<lparr>l_heap := h', l_query := query, l_depth := depth, l_ptype := mtype\<rparr>))))"

definition release_query :: "qheap \<Rightarrow> instance_t \<Rightarrow> qheap cres" where
  "release_query h inst = (if i_query inst \<noteq> None then free_query h (i_query inst) else Inr h)"

text \<open>One iteration of \<^verbatim>\<open>while (instance->running)\<close> after a line was read.\<close>

definition listener_line :: "listener_t \<Rightarrow> string \<Rightarrow> listener_t cres" where
  "listener_line st line =
     (if line = HELLO_REQUEST then Inr (st\<lparr>l_sent := l_sent st @ ACK_RESPONSE\<rparr>)
      else if line = RESET_REQUEST then
        bindE (release_query (l_heap st) (l_inst st)) (\<lambda>h.
          Inr (st\<lparr>l_heap := h, l_inst := reset_instance (l_inst st),
                  l_sent := l_sent st @ ACK_RESPONSE\<rparr>))
      else if line = FIN_REQUEST then
        bindE (release_query (l_heap st) (l_inst st)) (\<lambda>h.
          Inr (st\<lparr>l_heap := h, l_inst := finish_instance (l_inst st)\<rparr>))
      else if line \<noteq> [] then query_line st line
      else Inr st)"

primrec listener_lines :: "string list \<Rightarrow> listener_t \<Rightarrow> listener_t cres" where
  "listener_lines [] st = Inr st"
| "listener_lines (l # ls) st = bindE (listener_line st l) (listener_lines ls)"

text \<open>
  The whole thread on the bytes a connection delivers: it stops when the connection ends or
  \<^verbatim>\<open>running\<close> is cleared. Every line takes at least one byte, which bounds the number of iterations.
\<close>

primrec listener_loop :: "nat \<Rightarrow> string \<Rightarrow> listener_t \<Rightarrow> listener_t cres" where
  "listener_loop 0 input st = Inr st"
| "listener_loop (Suc k) input st =
     (if i_running (l_inst st) = 0 then Inr st
      else bindE (read_line input 0) (\<lambda>r.
        case r of
          None \<Rightarrow> Inr st
        | Some (line, rest) \<Rightarrow> bindE (listener_line st line) (listener_loop k rest)))"

definition listener_run :: "string \<Rightarrow> listener_t \<Rightarrow> listener_t cres" where
  "listener_run input st = listener_loop (Suc (length input)) input st"

definition init_listener :: "int \<Rightarrow> listener_t" where
  "init_listener asock =
     \<lparr>l_heap = empty_heap, l_inst = init_instance asock, l_query = None, l_depth = 0,
      l_ptype = 0, l_sent = []\<rparr>"

end
