(* ===== verification/Listener_Zipper.thy ===== *)
theory Listener_Zipper
  imports Epdg_Listener "HOL-Library.Multiset"
begin

text \<open>
  The query under construction as a zipper: the subtree of the current node and, innermost first,
  its ancestors with their older sub-queries (a new sub-query is always put in front). Every move of
  the listener on the heap is a move of the zipper.
\<close>

section \<open>Zippers\<close>

type_synonym frame = "addr \<times> qdata \<times> qtree list"

fun plug :: "qtree \<Rightarrow> frame list \<Rightarrow> qtree" where
  "plug t [] = t"
| "plug t ((a, d, ts) # fs) = plug (QNode a d (t # ts)) fs"

definition ctx_parent :: "frame list \<Rightarrow> addr option" where
  "ctx_parent fs = (case fs of [] \<Rightarrow> None | (a, d, ts) # _ \<Rightarrow> Some a)"

definition ctx_addrs :: "frame list \<Rightarrow> addr list" where
  "ctx_addrs fs = concat (map (\<lambda>(a, d, ts). a # concat (map addrs ts)) fs)"

lemma ctx_parent_simps [simp]:
  "ctx_parent [] = None" "ctx_parent ((a, d, ts) # fs) = Some a"
  by (simp_all add: ctx_parent_def)

lemma ctx_addrs_simps [simp]:
  "ctx_addrs [] = []" "ctx_addrs ((a, d, ts) # fs) = a # concat (map addrs ts) @ ctx_addrs fs"
  by (simp_all add: ctx_addrs_def)

lemma mset_addrs_plug: "mset (addrs (plug t fs)) = mset (addrs t) + mset (ctx_addrs fs)"
  by (induction t fs rule: plug.induct) simp_all

lemma set_addrs_plug: "set (addrs (plug t fs)) = set (addrs t) \<union> set (ctx_addrs fs)"
  by (metis mset_addrs_plug set_mset_mset set_mset_union)

lemma distinct_plug:
  "distinct (addrs (plug t fs)) \<longleftrightarrow>
     distinct (addrs t) \<and> distinct (ctx_addrs fs) \<and> set (addrs t) \<inter> set (ctx_addrs fs) = {}"
proof -
  have "mset (addrs (plug t fs)) = mset (addrs t @ ctx_addrs fs)" by (simp add: mset_addrs_plug)
  then have "distinct (addrs (plug t fs)) = distinct (addrs t @ ctx_addrs fs)"
    by (rule mset_eq_imp_distinct_iff)
  then show ?thesis by simp
qed

lemma all_data_plug:
  "all_data P (plug t fs) \<longleftrightarrow>
     all_data P t \<and> (\<forall>(a, d, ts)\<in>set fs. P d \<and> (\<forall>s\<in>set ts. all_data P s))"
  by (induction t fs rule: plug.induct) auto

lemma qrep_plug_node: "qrep h None (plug t fs) \<Longrightarrow> qrep h (ctx_parent fs) t"
  by (induction t fs rule: plug.induct) auto

text \<open>
  Replacing the current subtree: the rest of the tree is untouched when its cells are, and the
  current node keeps its place among its siblings.
\<close>

lemma qrep_plug_replace:
  assumes "qrep h None (plug t fs)" and "distinct (addrs (plug t fs))"
    and "qrep h' (ctx_parent fs) t'" and "qt_addr t' = qt_addr t"
    and "\<And>b. b \<in> set (ctx_addrs fs) \<Longrightarrow> qh_mem h' b = qh_mem h b"
    and "map_option q_next (qh_mem h' (qt_addr t)) = map_option q_next (qh_mem h (qt_addr t))"
  shows "qrep h' None (plug t' fs)"
  using assms
proof (induction t fs arbitrary: t' rule: plug.induct)
  case (1 t)
  then show ?case by simp
next
  case (2 t a d ts fs)
  let ?u = "QNode a d (t # ts)" and ?u' = "QNode a d (t' # ts)"
  have rep: "qrep h (ctx_parent fs) ?u" using "2.prems"(1) qrep_plug_node by fastforce
  have dist: "distinct (addrs ?u)" using "2.prems"(2) distinct_plug [of ?u fs] by simp
  have same_a: "qh_mem h' a = qh_mem h a" using "2.prems"(5) by simp
  have same_ts: "qh_mem h' b = qh_mem h b" if "b \<in> set (addrs s)" "s \<in> set ts" for b s
    using "2.prems"(5) that by auto
  have ch: "chain h' ts = chain h ts" by (rule chain_frame) (rule same_ts [OF qt_addr_in_addrs])
  have "qrep h' (Some a) s = qrep h (Some a) s" if "s \<in> set ts" for s
    using same_ts that by (intro qrep_frame) auto
  moreover obtain n where n: "qh_mem h (qt_addr t) = Some n" "q_next n = first_addr ts"
    using rep by auto
  then obtain n' where n': "qh_mem h' (qt_addr t) = Some n'" "q_next n' = first_addr ts"
    using "2.prems"(6) by auto
  ultimately have rep': "qrep h' (ctx_parent fs) ?u'"
    using rep same_a ch "2.prems"(3,4) by auto
  have "qrep h' None (plug ?u' fs)"
  proof (rule "2.IH")
    show "qrep h None (plug ?u fs)" "distinct (addrs (plug ?u fs))"
      using "2.prems"(1,2) by simp_all
    show "qrep h' (ctx_parent fs) ?u'" by (rule rep')
    show "qt_addr ?u' = qt_addr ?u" by simp
    show "\<And>b. b \<in> set (ctx_addrs fs) \<Longrightarrow> qh_mem h' b = qh_mem h b" using "2.prems"(5) by auto
    show "map_option q_next (qh_mem h' (qt_addr ?u)) = map_option q_next (qh_mem h (qt_addr ?u))"
      using same_a by simp
  qed
  then show ?case by simp
qed

section \<open>The builder's state\<close>

definition builder_ok :: "qheap \<Rightarrow> addr option \<Rightarrow> (qtree \<times> frame list) option \<Rightarrow> bool" where
  "builder_ok h query z \<longleftrightarrow> heap_wf h \<and>
     (case z of
        None \<Rightarrow> query = None
      | Some (t, fs) \<Rightarrow> query = Some (qt_addr t) \<and> tree_ok h None (plug t fs) \<and>
                      all_data value_live (plug t fs))"

definition zipper_addrs :: "(qtree \<times> frame list) option \<Rightarrow> addr set" where
  "zipper_addrs z = (case z of None \<Rightarrow> {} | Some (t, fs) \<Rightarrow> set (addrs (plug t fs)))"

abbreviation null_data :: qdata where "null_data \<equiv> data_of null_query"

lemma null_data_ok: "data_ok null_data \<and> value_live null_data"
  by (simp add: null_query_def data_ok_def qdata.defs)

subsection \<open>Reading and writing nodes\<close>

lemma qh_store [simp]:
  "qh_mem (store h a n) = (qh_mem h)(a := Some n)" "qh_fresh (store h a n) = qh_fresh h"
  by (simp_all add: store_def)

lemma heap_wf_store: "heap_wf h \<Longrightarrow> qh_mem h a \<noteq> None \<Longrightarrow> heap_wf (store h a n)"
  by (auto simp: heap_wf_def)

lemma update_node_Some: "qh_mem h a = Some n \<Longrightarrow> update_node h (Some a) f = Inr (store h a (f n))"
  by (simp add: update_node_def)

text \<open>An assignment to a data field of the current node.\<close>

lemma update_current:
  assumes ok: "builder_ok h query (Some (QNode a d ts, fs))"
    and f: "\<And>n. data_of (f n) = g (data_of n)" "\<And>n. q_parent (f n) = q_parent n"
      "\<And>n. q_sub (f n) = q_sub n" "\<And>n. q_next (f n) = q_next n"
    and g: "data_ok (g d)" "value_live (g d)"
  shows "\<exists>h'. update_node h query f = Inr h' \<and> builder_ok h' query (Some (QNode a (g d) ts, fs)) \<and>
           (\<forall>b. b \<noteq> a \<longrightarrow> qh_mem h' b = qh_mem h b) \<and> qh_fresh h' = qh_fresh h"
proof -
  let ?t = "QNode a d ts" and ?t' = "QNode a (g d) ts"
  have wf: "heap_wf h" and rep: "qrep h None (plug ?t fs)" and dist: "distinct (addrs (plug ?t fs))"
    and q: "query = Some a" and dat: "all_data data_ok (plug ?t fs)" "all_data value_live (plug ?t fs)"
    using ok by (auto simp: builder_ok_def tree_ok_def)
  have rt: "qrep h (ctx_parent fs) ?t" by (rule qrep_plug_node [OF rep])
  then obtain n where n: "qh_mem h a = Some n" "data_of n = d" by auto
  let ?h = "store h a (f n)"
  have dt: "distinct (addrs ?t)" "set (addrs ?t) \<inter> set (ctx_addrs fs) = {}"
    using dist by (auto simp: distinct_plug)
  have other: "qh_mem ?h b = qh_mem h b" if "b \<in> set (addrs s)" "s \<in> set ts" for b s
    using dt(1) that by auto
  have ch: "chain ?h ts = chain h ts" by (rule chain_frame) (rule other [OF qt_addr_in_addrs])
  have "qrep ?h (Some a) s = qrep h (Some a) s" if "s \<in> set ts" for s
    by (rule qrep_frame) (rule other [OF _ that])
  then have rt': "qrep ?h (ctx_parent fs) ?t'" using rt n f ch by auto
  have "qrep ?h None (plug ?t' fs)"
    using dt(2) n(1) f(4) by (intro qrep_plug_replace [OF rep dist rt']) auto
  moreover have "distinct (addrs (plug ?t' fs))" using dist by (simp add: distinct_plug)
  ultimately have "builder_ok ?h query (Some (?t', fs))"
    using wf n q dat g
    by (auto simp: builder_ok_def tree_ok_def all_data_plug intro!: heap_wf_store)
  then show ?thesis using q n by (auto simp: update_node_Some intro!: exI [of _ ?h])
qed

subsection \<open>Moves\<close>

lemma parent_of_current:
  assumes "builder_ok h query (Some (t, fs))"
  shows "has_query_parent h query = Inr (fs \<noteq> [])" "get_query_parent h query = Inr (ctx_parent fs)"
proof -
  have "qrep h (ctx_parent fs) t" "query = Some (qt_addr t)"
    using assms by (auto simp: builder_ok_def tree_ok_def intro: qrep_plug_node)
  then obtain n where "qh_mem h (qt_addr t) = Some n" "q_parent n = ctx_parent fs"
    using qrep_node by blast
  then show "has_query_parent h query = Inr (fs \<noteq> [])" "get_query_parent h query = Inr (ctx_parent fs)"
    using \<open>query = _\<close>
    by (auto simp: has_query_parent_def get_query_parent_def ctx_parent_def split: list.splits)
qed

lemma builder_up:
  "builder_ok h query (Some (t, (a, d, ts) # fs)) \<Longrightarrow>
   builder_ok h (Some a) (Some (QNode a d (t # ts), fs))"
  by (simp add: builder_ok_def)

text \<open>The heap after a new node was linked in front of the sub-queries of \<open>a\<close>.\<close>

definition push_heap :: "qheap \<Rightarrow> addr \<Rightarrow> query_t \<Rightarrow> qheap" where
  "push_heap h a n =
     h\<lparr>qh_mem := (qh_mem h)(qh_fresh h := Some (null_query\<lparr>q_parent := Some a, q_next := q_sub n\<rparr>),
                            a := Some (n\<lparr>q_sub := Some (qh_fresh h)\<rparr>)),
       qh_fresh := Suc (qh_fresh h)\<rparr>"

lemma add_sub_heap:
  assumes "qh_mem h a = Some n" and "a < qh_fresh h"
    and "\<not> (ctype = MSG_TYPE_ATTRIBUTE \<and> ptype = MSG_TYPE_ATTRIBUTE)"
  shows "add_query_sub_message h (Some a) ptype ctype = Inr (Some (qh_fresh h), push_heap h a n)"
proof (cases "q_sub n")
  case None
  then have "null_query\<lparr>q_parent := Some a, q_next := q_sub n\<rparr> = null_query\<lparr>q_parent := Some a\<rparr>"
    by (simp add: null_query_def)
  with None show ?thesis
    using assms
    by (auto simp: add_query_sub_message_def init_query_def set_query_parent_def update_node_def
        deref_def push_heap_def store_def fun_eq_iff)
next
  case (Some s)
  then show ?thesis
    using assms
    by (auto simp: add_query_sub_message_def init_query_def set_query_parent_def update_node_def
        deref_def push_heap_def store_def fun_eq_iff)
qed

lemma qh_push [simp]:
  "qh_fresh (push_heap h a n) = Suc (qh_fresh h)"
  "b \<noteq> a \<Longrightarrow> b \<noteq> qh_fresh h \<Longrightarrow> qh_mem (push_heap h a n) b = qh_mem h b"
  "qh_mem (push_heap h a n) a = Some (n\<lparr>q_sub := Some (qh_fresh h)\<rparr>)"
  "qh_fresh h \<noteq> a \<Longrightarrow> qh_mem (push_heap h a n) (qh_fresh h) =
     Some (null_query\<lparr>q_parent := Some a, q_next := q_sub n\<rparr>)"
  by (simp_all add: push_heap_def)

lemma push_current:
  assumes ok: "builder_ok h (Some a) (Some (QNode a d ts, fs))"
  shows "\<exists>n. qh_mem h a = Some n \<and> a < qh_fresh h \<and>
           builder_ok (push_heap h a n) (Some (qh_fresh h))
             (Some (QNode (qh_fresh h) null_data [], (a, d, ts) # fs))"
proof -
  let ?t = "QNode a d ts" and ?s = "QNode (qh_fresh h) null_data []"
  let ?t' = "QNode a d (?s # ts)"
  have wf: "heap_wf h" and rep: "qrep h None (plug ?t fs)" and dist: "distinct (addrs (plug ?t fs))"
    and dat: "all_data data_ok (plug ?t fs)" "all_data value_live (plug ?t fs)"
    using ok by (auto simp: builder_ok_def tree_ok_def)
  have rt: "qrep h (ctx_parent fs) ?t" by (rule qrep_plug_node [OF rep])
  then obtain n where n: "qh_mem h a = Some n" "data_of n = d" "q_sub n = first_addr ts"
    "q_parent n = ctx_parent fs" by auto
  have old: "b < qh_fresh h" if "b \<in> set (addrs (plug ?t fs))" for b
    using qrep_allocated [OF rep that] wf by (auto simp: heap_wf_def)
  have a: "a < qh_fresh h" using wf n(1) by (auto simp: heap_wf_def)
  let ?h = "push_heap h a n"
  have dt: "distinct (addrs ?t)" "set (addrs ?t) \<inter> set (ctx_addrs fs) = {}"
    using dist by (auto simp: distinct_plug)
  have other: "qh_mem ?h b = qh_mem h b" if "b \<in> set (addrs u)" "u \<in> set ts" for b u
  proof -
    have "b \<noteq> a" using dt(1) that by auto
    moreover have "b \<noteq> qh_fresh h" using old [of b] that by (auto simp: set_addrs_plug)
    ultimately show ?thesis by simp
  qed
  have ch: "chain ?h ts = chain h ts" by (rule chain_frame) (rule other [OF qt_addr_in_addrs])
  have "qrep ?h (Some a) u = qrep h (Some a) u" if "u \<in> set ts" for u
    by (rule qrep_frame) (rule other [OF _ that])
  then have rt': "qrep ?h (ctx_parent fs) ?t'"
    using rt n a ch by (auto simp: qdata.defs null_query_def)
  have ctx: "qh_mem ?h b = qh_mem h b" if "b \<in> set (ctx_addrs fs)" for b
  proof -
    have "b \<noteq> a" using dt(2) that by auto
    moreover have "b \<noteq> qh_fresh h" using old [of b] that by (auto simp: set_addrs_plug)
    ultimately show ?thesis by simp
  qed
  have "qrep ?h None (plug ?t' fs)"
    using n(1) ctx by (intro qrep_plug_replace [OF rep dist rt']) auto
  moreover have "distinct (addrs (plug ?t' fs))"
    using dist old [of "qh_fresh h"] a by (auto simp: distinct_plug set_addrs_plug)
  moreover have "heap_wf ?h"
    using wf a by (auto simp: heap_wf_def push_heap_def less_Suc_eq)
  ultimately have "builder_ok ?h (Some (qh_fresh h)) (Some (?s, (a, d, ts) # fs))"
    using dat null_data_ok by (auto simp: builder_ok_def tree_ok_def all_data_plug)
  then show ?thesis using n(1) a by blast
qed

lemma builder_start:
  assumes "heap_wf h"
  shows "\<exists>h'. init_query h = (qh_fresh h, h') \<and>
           builder_ok h' (Some (qh_fresh h)) (Some (QNode (qh_fresh h) null_data [], [])) \<and>
           (\<forall>b. b \<noteq> qh_fresh h \<longrightarrow> qh_mem h' b = qh_mem h b) \<and> qh_fresh h' = Suc (qh_fresh h)"
  using assms null_data_ok
  by (auto simp: init_query_def builder_ok_def tree_ok_def heap_wf_def null_query_def less_Suc_eq)

end
