(* ===== verification/Listener_Build.thy ===== *)
theory Listener_Build
  imports Listener_Zipper
begin

text \<open>
  What the listener thread does to its query, without a heap: a machine whose state is a tree with
  a position in it. \<open>listener_line_refines\<close> shows that the thread of \<^verbatim>\<open>listener_run\<close> is this machine on
  every line, faults included; consequences are that no sequence of lines makes it release a node
  twice, use a released node, or loop.
\<close>

section \<open>The machine\<close>

type_synonym zipper = "qtree \<times> frame list"

definition new_node :: "addr \<Rightarrow> qtree" where
  "new_node a = QNode a null_data []"

fun zpush :: "addr \<Rightarrow> qtree \<Rightarrow> frame list \<Rightarrow> zipper" where
  "zpush a (QNode b d ts) fs = (new_node a, (b, d, ts) # fs)"

fun zup :: "qtree \<Rightarrow> frame list \<Rightarrow> zipper" where
  "zup t [] = (t, [])"
| "zup t ((a, d, ts) # fs) = (QNode a d (t # ts), fs)"

definition zmove :: "addr \<Rightarrow> zipper option \<Rightarrow> int \<Rightarrow> int \<Rightarrow> (zipper option) cres" where
  "zmove a z ptype mtype =
     (if mtype = MSG_TYPE_ATTRIBUTE then
        (case z of
           None \<Rightarrow> Inl NullDeref
         | Some (t, fs) \<Rightarrow>
             if ptype = MSG_TYPE_ATTRIBUTE then
               (if fs = [] then Inl (Exited 1) else Inr (Some (case_prod (zpush a) (zup t fs))))
             else Inr (Some (zpush a t fs)))
      else if mtype = MSG_TYPE_BLOCK_START then
        (case z of
           None \<Rightarrow> Inr (Some (new_node a, []))
         | Some (t, fs) \<Rightarrow> Inr (Some (zpush a t fs)))
      else if mtype = MSG_TYPE_BLOCK_END then
        (case z of
           None \<Rightarrow> Inl NullDeref
         | Some (t, fs) \<Rightarrow> Inr (Some (zup t fs)))
      else Inr z)"

definition allocates :: "int \<Rightarrow> bool" where
  "allocates mtype \<longleftrightarrow> mtype = MSG_TYPE_ATTRIBUTE \<or> mtype = MSG_TYPE_BLOCK_START"

definition new_depth :: "int \<Rightarrow> int \<Rightarrow> int" where
  "new_depth depth mtype =
     (if mtype = MSG_TYPE_BLOCK_START then depth + 1
      else if mtype = MSG_TYPE_BLOCK_END then depth - 1 else depth)"

definition data_token :: "nat \<Rightarrow> string \<Rightarrow> qdata \<Rightarrow> qdata cres" where
  "data_token idx token d =
     (if idx = 0 then
        bindE (chomp_len token) (\<lambda>n. Inr (d\<lparr>q_name := Some (take n token), q_nlen := int n\<rparr>))
      else if idx = 1 then
        Inr (if 6 \<le> length token \<and> strncmp_eq token ''update'' 6 then d\<lparr>q_op := OP_TYPE_UPDATE\<rparr>
             else if 4 \<le> length token \<and> strncmp_eq token ''drop'' 4 then d\<lparr>q_op := OP_TYPE_DROP\<rparr>
             else d)
      else if idx = 2 then
        bindE (char_to_int (token @ [NUL]) (int (length token)) 10) (\<lambda>v. Inr (d\<lparr>q_vtype := sint v\<rparr>))
      else if idx = 3 then
        bindE (chomp_len token) (\<lambda>n. Inr (d\<lparr>q_value := CBuf (take n token), q_vlen := int n\<rparr>))
      else Inr d)"

primrec data_tokens :: "string list \<Rightarrow> nat \<Rightarrow> qdata \<Rightarrow> qdata cres" where
  "data_tokens [] idx d = Inr d"
| "data_tokens (t # ts) idx d = bindE (data_token idx t d) (data_tokens ts (Suc idx))"

fun ztokens :: "string list \<Rightarrow> zipper option \<Rightarrow> (zipper option) cres" where
  "ztokens toks None = (if toks = [] then Inr None else Inl NullDeref)"
| "ztokens toks (Some (QNode a d ts, fs)) =
     bindE (data_tokens toks 0 d) (\<lambda>d'. Inr (Some (QNode a d' ts, fs)))"

definition line_tokens :: "string \<Rightarrow> string list" where
  "line_tokens line = strtok_all (\<lambda>c. c = CHR '':'') (cstr (drop 33 line))"

record zstate =
  z_fresh :: addr
  z_cur :: "zipper option"
  z_depth :: int
  z_ptype :: int
  z_inst :: "qtree option"

definition zinstall :: "zstate \<Rightarrow> zstate cres" where
  "zinstall zs =
     (if z_depth zs = 0 then
        (case z_cur zs of
           None \<Rightarrow> Inl NullDeref
         | Some (t, fs) \<Rightarrow>
             if all_data printable t then Inr (zs\<lparr>z_cur := None, z_inst := Some t\<rparr>)
             else Inl OutOfBounds)
      else Inr zs)"

definition zquery :: "zstate \<Rightarrow> string \<Rightarrow> zstate cres" where
  "zquery zs line =
     bindE (line_type line) (\<lambda>mtype.
     bindE (zmove (z_fresh zs) (z_cur zs) (z_ptype zs) mtype) (\<lambda>z.
     bindE (if 34 < length line then
              (if length line < MAX_MESSAGE_LEN then ztokens (line_tokens line) z
               else Inl OutOfBounds)
            else Inr z) (\<lambda>z'.
       zinstall (zs\<lparr>z_fresh := (if allocates mtype then Suc (z_fresh zs) else z_fresh zs),
                    z_cur := z', z_depth := new_depth (z_depth zs) mtype, z_ptype := mtype\<rparr>))))"

definition zline :: "zstate \<Rightarrow> string \<Rightarrow> zstate cres" where
  "zline zs line =
     (if line = HELLO_REQUEST then Inr zs
      else if line = RESET_REQUEST \<or> line = FIN_REQUEST then Inr (zs\<lparr>z_inst := None\<rparr>)
      else if line \<noteq> [] then zquery zs line
      else Inr zs)"

section \<open>Refinement\<close>

text \<open>The thread's state and the machine's: the query under construction and the installed one.\<close>

definition installed_ok :: "qheap \<Rightarrow> zipper option \<Rightarrow> qtree option \<Rightarrow> bool" where
  "installed_ok h z ti \<longleftrightarrow>
     (case ti of
        None \<Rightarrow> True
      | Some t \<Rightarrow> query_ok h t \<and> all_data value_live t \<and> set (addrs t) \<inter> zipper_addrs z = {})"

lemma installed_ok_None [simp]: "installed_ok h z None"
  by (simp add: installed_ok_def)

definition listener_sim :: "listener_t \<Rightarrow> zstate \<Rightarrow> bool" where
  "listener_sim st zs \<longleftrightarrow>
     builder_ok (l_heap st) (l_query st) (z_cur zs) \<and>
     z_fresh zs = qh_fresh (l_heap st) \<and> z_depth zs = l_depth st \<and> z_ptype zs = l_ptype st \<and>
     i_query (l_inst st) = map_option qt_addr (z_inst zs) \<and>
     installed_ok (l_heap st) (z_cur zs) (z_inst zs)"

text \<open>Which cells a step may change: those of the query under construction and new ones.\<close>

definition only_builder :: "qheap \<Rightarrow> zipper option \<Rightarrow> qheap \<Rightarrow> zipper option \<Rightarrow> bool" where
  "only_builder h z h' z' \<longleftrightarrow>
     (\<forall>b. b < qh_fresh h \<longrightarrow> b \<notin> zipper_addrs z \<longrightarrow> qh_mem h' b = qh_mem h b \<and> b \<notin> zipper_addrs z')
     \<and> qh_fresh h \<le> qh_fresh h'"

lemma only_builder_refl: "only_builder h z h z"
  by (simp add: only_builder_def)

lemma only_builder_trans:
  "only_builder h z h' z' \<Longrightarrow> only_builder h' z' h'' z'' \<Longrightarrow> only_builder h z h'' z''"
  by (auto simp: only_builder_def)

lemma query_ok_frame:
  assumes "query_ok h t" and "heap_wf h'" and "\<And>b. b \<in> set (addrs t) \<Longrightarrow> qh_mem h' b = qh_mem h b"
  shows "query_ok h' t"
  using assms qrep_frame [of t h' h] by (auto simp: query_ok_def tree_ok_def)

lemma query_ok_below: "query_ok h t \<Longrightarrow> b \<in> set (addrs t) \<Longrightarrow> b < qh_fresh h"
  by (auto simp: query_ok_def tree_ok_def heap_wf_def dest: qrep_allocated)

lemma installed_ok_frame:
  assumes "installed_ok h z ti" and "heap_wf h'" and "only_builder h z h' z'"
  shows "installed_ok h' z' ti"
proof (cases ti)
  case (Some t)
  have t: "query_ok h t" "all_data value_live t" "set (addrs t) \<inter> zipper_addrs z = {}"
    using assms(1) Some by (simp_all add: installed_ok_def)
  have same: "qh_mem h' b = qh_mem h b" "b \<notin> zipper_addrs z'" if "b \<in> set (addrs t)" for b
    using assms(3) query_ok_below [OF t(1) that] t(3) that unfolding only_builder_def by blast+
  have "query_ok h' t" by (rule query_ok_frame [OF t(1) assms(2) same(1)])
  then show ?thesis using t(2) same(2) Some by (auto simp: installed_ok_def)
qed (simp add: installed_ok_def)

subsection \<open>Moving and naming\<close>

lemma zmove_push:
  assumes "builder_ok h (Some b) (Some (QNode b d ts, fs))"
    and "\<not> (mtype = MSG_TYPE_ATTRIBUTE \<and> ptype = MSG_TYPE_ATTRIBUTE)"
  shows "\<exists>h'. add_query_sub_message h (Some b) ptype mtype = Inr (Some (qh_fresh h), h') \<and>
           builder_ok h' (Some (qh_fresh h)) (Some (zpush (qh_fresh h) (QNode b d ts) fs)) \<and>
           only_builder h (Some (QNode b d ts, fs)) h' (Some (zpush (qh_fresh h) (QNode b d ts) fs)) \<and>
           qh_fresh h' = Suc (qh_fresh h)"
proof -
  obtain n where n: "qh_mem h b = Some n" "b < qh_fresh h"
      "builder_ok (push_heap h b n) (Some (qh_fresh h))
         (Some (QNode (qh_fresh h) null_data [], (b, d, ts) # fs))"
    using push_current [OF assms(1)] by blast
  have "only_builder h (Some (QNode b d ts, fs)) (push_heap h b n)
          (Some (zpush (qh_fresh h) (QNode b d ts) fs))"
    by (auto simp: only_builder_def zipper_addrs_def set_addrs_plug new_node_def)
  then show ?thesis
    using add_sub_heap [OF n(1,2) assms(2)] n(3) by (simp add: new_node_def)
qed

lemma add_attribute_after_attribute:
  assumes "builder_ok h query (Some (t, (a, d, ts) # fs))"
  shows "add_query_sub_message h query MSG_TYPE_ATTRIBUTE MSG_TYPE_ATTRIBUTE
         = add_query_sub_message h (Some a) MSG_TYPE_BLOCK_START MSG_TYPE_ATTRIBUTE"
  using parent_of_current [OF assms] by (simp add: add_query_sub_message_def)

definition moved :: "qheap \<Rightarrow> zipper option \<Rightarrow> int \<Rightarrow> int \<Rightarrow> zipper option \<Rightarrow>
    (qheap \<times> addr option \<times> int) cres \<Rightarrow> bool" where
  "moved h z depth mtype z' r \<longleftrightarrow>
     (\<exists>h' q'. r = Inr (h', q', new_depth depth mtype) \<and> builder_ok h' q' z' \<and> only_builder h z h' z' \<and>
        qh_fresh h' = (if allocates mtype then Suc (qh_fresh h) else qh_fresh h))"

lemma move_attribute:
  assumes ok: "builder_ok h q z"
  shows "case zmove (qh_fresh h) z ptype MSG_TYPE_ATTRIBUTE of
           Inl e \<Rightarrow> move_query h q depth ptype MSG_TYPE_ATTRIBUTE = Inl e
         | Inr z' \<Rightarrow> moved h z depth MSG_TYPE_ATTRIBUTE z'
                      (move_query h q depth ptype MSG_TYPE_ATTRIBUTE)"
proof (cases z)
  case None
  then show ?thesis
    using ok by (simp add: zmove_def move_query_def builder_ok_def add_query_sub_message_def
        has_query_parent_def init_query_def set_query_parent_def update_node_def deref_def)
next
  case (Some p)
  obtain b d ts fs where z: "z = Some (QNode b d ts, fs)" using Some by (cases p, cases "fst p") auto
  have q: "q = Some b" using ok z by (simp add: builder_ok_def)
  show ?thesis
  proof (cases "ptype = MSG_TYPE_ATTRIBUTE")
    case False
    then show ?thesis
      using zmove_push [of h b d ts fs MSG_TYPE_ATTRIBUTE ptype] ok z q
      by (auto simp: zmove_def move_query_def moved_def new_depth_def allocates_def)
  next
    case attr: True
    show ?thesis
    proof (cases fs)
      case Nil
      then show ?thesis
        using attr z parent_of_current(1) [OF ok [unfolded z]]
        by (simp add: zmove_def move_query_def add_query_sub_message_def)
    next
      case (Cons f fs')
      obtain a e us where f: "f = (a, e, us)" by (cases f)
      have up: "builder_ok h (Some a) (Some (QNode a e (QNode b d ts # us), fs'))"
        using builder_up ok z Cons f by blast
      have addr: "zipper_addrs (Some (QNode a e (QNode b d ts # us), fs')) = zipper_addrs z"
        using z Cons f by (simp add: zipper_addrs_def)
      have "add_query_sub_message h q ptype MSG_TYPE_ATTRIBUTE
            = add_query_sub_message h (Some a) MSG_TYPE_BLOCK_START MSG_TYPE_ATTRIBUTE"
        using add_attribute_after_attribute ok z Cons f attr by blast
      then show ?thesis
        using zmove_push [OF up, of MSG_TYPE_ATTRIBUTE MSG_TYPE_BLOCK_START] z Cons f attr addr
        by (auto simp: zmove_def move_query_def moved_def new_depth_def allocates_def only_builder_def)
    qed
  qed
qed

lemma move_block_start:
  assumes ok: "builder_ok h q z"
  shows "\<exists>z'. zmove (qh_fresh h) z ptype MSG_TYPE_BLOCK_START = Inr z' \<and>
           moved h z depth MSG_TYPE_BLOCK_START z' (move_query h q depth ptype MSG_TYPE_BLOCK_START)"
proof (cases z)
  case None
  then have q: "q = None" "heap_wf h" using ok by (simp_all add: builder_ok_def)
  obtain h' where h': "init_query h = (qh_fresh h, h')"
      "builder_ok h' (Some (qh_fresh h)) (Some (QNode (qh_fresh h) null_data [], []))"
      "\<forall>b. b \<noteq> qh_fresh h \<longrightarrow> qh_mem h' b = qh_mem h b" "qh_fresh h' = Suc (qh_fresh h)"
    using builder_start [OF q(2)] by blast
  have "only_builder h None h' (Some (QNode (qh_fresh h) null_data [], []))"
    using h'(3,4) by (auto simp: only_builder_def zipper_addrs_def)
  then show ?thesis
    using None q(1) h'(1,2,4)
    by (auto simp: zmove_def move_query_def moved_def new_depth_def allocates_def new_node_def)
next
  case (Some p)
  obtain b d ts fs where z: "z = Some (QNode b d ts, fs)" using Some by (cases p, cases "fst p") auto
  have q: "q = Some b" using ok z by (simp add: builder_ok_def)
  then show ?thesis
    using zmove_push [of h b d ts fs MSG_TYPE_BLOCK_START ptype] ok z
    by (auto simp: zmove_def move_query_def moved_def new_depth_def allocates_def)
qed

lemma zipper_addrs_zup [simp]: "zipper_addrs (Some (zup t fs)) = zipper_addrs (Some (t, fs))"
  by (cases "(t, fs)" rule: zup.cases) (simp_all add: zipper_addrs_def)

lemma builder_zup:
  "builder_ok h q (Some (t, fs)) \<Longrightarrow>
   builder_ok h (if fs = [] then q else ctx_parent fs) (Some (zup t fs))"
  by (cases "(t, fs)" rule: zup.cases) (auto intro: builder_up)

lemma move_block_end:
  assumes ok: "builder_ok h q z"
  shows "case zmove (qh_fresh h) z ptype MSG_TYPE_BLOCK_END of
           Inl e \<Rightarrow> move_query h q depth ptype MSG_TYPE_BLOCK_END = Inl e
         | Inr z' \<Rightarrow> moved h z depth MSG_TYPE_BLOCK_END z'
                      (move_query h q depth ptype MSG_TYPE_BLOCK_END)"
proof (cases z)
  case None
  then show ?thesis
    using ok by (simp add: zmove_def move_query_def builder_ok_def has_query_parent_def)
next
  case (Some p)
  obtain t fs where z: "z = Some (t, fs)" using Some by (cases p) auto
  show ?thesis
    using parent_of_current [OF ok [unfolded z]] builder_zup [OF ok [unfolded z]] z
    by (auto simp: zmove_def move_query_def moved_def new_depth_def allocates_def only_builder_def)
qed

lemma move_query_refines:
  assumes ok: "builder_ok h q z"
  shows "case zmove (qh_fresh h) z ptype mtype of
           Inl e \<Rightarrow> move_query h q depth ptype mtype = Inl e
         | Inr z' \<Rightarrow> moved h z depth mtype z' (move_query h q depth ptype mtype)"
proof -
  consider "mtype = MSG_TYPE_ATTRIBUTE" | "mtype = MSG_TYPE_BLOCK_START" | "mtype = MSG_TYPE_BLOCK_END"
    | "mtype \<noteq> MSG_TYPE_ATTRIBUTE" "mtype \<noteq> MSG_TYPE_BLOCK_START" "mtype \<noteq> MSG_TYPE_BLOCK_END"
    by blast
  then show ?thesis
  proof cases
    case 1
    then show ?thesis using move_attribute [OF ok] by (simp only:)
  next
    case 2
    then show ?thesis using move_block_start [OF ok, of ptype depth] by auto
  next
    case 3
    then show ?thesis using move_block_end [OF ok] by (simp only:)
  next
    case 4
    then show ?thesis
      using ok by (simp add: zmove_def move_query_def moved_def new_depth_def allocates_def
          only_builder_refl)
  qed
qed

subsection \<open>Tokens\<close>

lemma chomp_len_le: "chomp_len s = Inr n \<Longrightarrow> n \<le> length s"
  by (auto simp: chomp_len_def split: if_splits)

definition tokened :: "qheap \<Rightarrow> addr option \<Rightarrow> addr \<Rightarrow> qdata \<Rightarrow> qtree list \<Rightarrow> frame list \<Rightarrow>
    qheap cres \<Rightarrow> bool" where
  "tokened h q a d ts fs r \<longleftrightarrow>
     (\<exists>h'. r = Inr h' \<and> builder_ok h' q (Some (QNode a d ts, fs)) \<and>
        (\<forall>b. b \<noteq> a \<longrightarrow> qh_mem h' b = qh_mem h b) \<and> qh_fresh h' = qh_fresh h)"

lemma tokened_trans:
  "tokened h q a d ts fs (Inr h') \<Longrightarrow> tokened h' q a d' ts fs r \<Longrightarrow> tokened h q a d' ts fs r"
  by (auto simp: tokened_def)

lemma tokened_update:
  assumes ok: "builder_ok h q (Some (QNode a d ts, fs))"
    and f: "\<And>n. data_of (f n) = g (data_of n)" "\<And>n. q_parent (f n) = q_parent n"
      "\<And>n. q_sub (f n) = q_sub n" "\<And>n. q_next (f n) = q_next n"
    and g: "data_ok d \<Longrightarrow> data_ok (g d)" "value_live d \<Longrightarrow> value_live (g d)"
  shows "tokened h q a (g d) ts fs (update_node h q f)"
proof -
  have "data_ok d" "value_live d" using ok by (auto simp: builder_ok_def tree_ok_def all_data_plug)
  then show ?thesis unfolding tokened_def using update_current [OF ok f g] by blast
qed

lemma token_name:
  assumes "builder_ok h q (Some (QNode a d ts, fs))" and "chomp_len s = Inr n"
  shows "tokened h q a (d\<lparr>q_name := Some (take n s), q_nlen := int n\<rparr>) ts fs (set_query_name h q s)"
  unfolding set_query_name_def assms(2) bindE.simps
  by (rule tokened_update [OF assms(1), where g = "\<lambda>d. d\<lparr>q_name := Some (take n s), q_nlen := int n\<rparr>"])
    (use chomp_len_le [OF assms(2)] in \<open>auto simp: qdata.defs data_ok_def split: option.splits cbuf.splits\<close>)

lemma token_value:
  assumes "builder_ok h q (Some (QNode a d ts, fs))" and "chomp_len s = Inr n"
  shows "tokened h q a (d\<lparr>q_value := CBuf (take n s), q_vlen := int n\<rparr>) ts fs (set_query_value h q s)"
  unfolding set_query_value_def assms(2) bindE.simps
  by (rule tokened_update [OF assms(1), where g = "\<lambda>d. d\<lparr>q_value := CBuf (take n s), q_vlen := int n\<rparr>"])
    (use chomp_len_le [OF assms(2)] in \<open>auto simp: qdata.defs data_ok_def split: option.splits cbuf.splits\<close>)

lemma token_operator:
  assumes "builder_ok h q (Some (QNode a d ts, fs))"
  shows "tokened h q a (d\<lparr>q_op := opr\<rparr>) ts fs (set_query_operator h q opr)"
  unfolding set_query_operator_def
  by (rule tokened_update [OF assms, where g = "\<lambda>d. d\<lparr>q_op := opr\<rparr>"])
    (auto simp: qdata.defs data_ok_def split: option.splits cbuf.splits)

lemma token_value_type:
  assumes "builder_ok h q (Some (QNode a d ts, fs))"
    and "char_to_int (s @ [NUL]) (int (length s)) 10 = Inr v"
  shows "tokened h q a (d\<lparr>q_vtype := sint v\<rparr>) ts fs (set_query_value_type h q s)"
  unfolding set_query_value_type_def assms(2) bindE.simps
  by (rule tokened_update [OF assms(1), where g = "\<lambda>d. d\<lparr>q_vtype := sint v\<rparr>"])
    (auto simp: qdata.defs data_ok_def split: option.splits cbuf.splits)

lemma tokened_refl: "builder_ok h q (Some (QNode a d ts, fs)) \<Longrightarrow> tokened h q a d ts fs (Inr h)"
  by (simp add: tokened_def)

lemma get_operator_current:
  "tokened h q a d ts fs r \<Longrightarrow>
   bindE r (\<lambda>h'. bindE (get_query_operator h' q) (\<lambda>_. Inr h')) = r"
proof -
  assume "tokened h q a d ts fs r"
  then obtain h' where h': "r = Inr h'" "builder_ok h' q (Some (QNode a d ts, fs))"
    by (auto simp: tokened_def)
  then obtain n where "qh_mem h' a = Some n" "q = Some a"
    using qrep_plug_node [of h' "QNode a d ts" fs] by (auto simp: builder_ok_def tree_ok_def)
  then show ?thesis using h'(1) by (simp add: get_query_operator_def)
qed

lemma apply_token_refines:
  assumes ok: "builder_ok h q (Some (QNode a d ts, fs))"
  shows "case data_token idx token d of
           Inl e \<Rightarrow> apply_token h q idx token = Inl e
         | Inr d' \<Rightarrow> tokened h q a d' ts fs (apply_token h q idx token)"
proof -
  consider "idx = 0" | "idx = 1" | "idx = 2" | "idx = 3" | "idx > 3" by linarith
  then show ?thesis
  proof cases
    case 1
    then show ?thesis using token_name [OF ok, of token]
      by (cases "chomp_len token") (simp_all add: data_token_def apply_token_def set_query_name_def)
  next
    case 2
    have "tokened h q a (if 6 \<le> length token \<and> strncmp_eq token ''update'' 6 then d\<lparr>q_op := OP_TYPE_UPDATE\<rparr>
             else if 4 \<le> length token \<and> strncmp_eq token ''drop'' 4 then d\<lparr>q_op := OP_TYPE_DROP\<rparr>
             else d) ts fs
          (if 6 \<le> length token \<and> strncmp_eq token ''update'' 6 then set_query_operator h q OP_TYPE_UPDATE
           else if 4 \<le> length token \<and> strncmp_eq token ''drop'' 4 then set_query_operator h q OP_TYPE_DROP
           else Inr h)"
      using token_operator [OF ok] tokened_refl [OF ok] by (simp only: split: if_split) blast
    from this get_operator_current [OF this] show ?thesis
      using 2 by (simp add: data_token_def apply_token_def)
  next
    case 3
    then show ?thesis using token_value_type [OF ok, of token]
      by (cases "char_to_int (token @ [NUL]) (int (length token)) 10")
        (simp_all add: data_token_def apply_token_def set_query_value_type_def)
  next
    case 4
    then show ?thesis using token_value [OF ok, of token]
      by (cases "chomp_len token") (simp_all add: data_token_def apply_token_def set_query_value_def)
  next
    case 5
    then show ?thesis using tokened_refl [OF ok] by (simp add: data_token_def apply_token_def)
  qed
qed

lemma apply_tokens_refines:
  assumes "builder_ok h q (Some (QNode a d ts, fs))"
  shows "case data_tokens toks idx d of
           Inl e \<Rightarrow> apply_tokens toks h q idx = Inl e
         | Inr d' \<Rightarrow> tokened h q a d' ts fs (apply_tokens toks h q idx)"
  using assms
proof (induction toks arbitrary: h d idx)
  case Nil
  then show ?case by (simp add: tokened_refl)
next
  case (Cons token toks)
  show ?case
  proof (cases "data_token idx token d")
    case (Inl e)
    then show ?thesis using apply_token_refines [OF Cons.prems, of idx token] by simp
  next
    case (Inr d1)
    then have t1: "tokened h q a d1 ts fs (apply_token h q idx token)"
      using apply_token_refines [OF Cons.prems, of idx token] by simp
    then obtain h1 where h1: "apply_token h q idx token = Inr h1"
        "builder_ok h1 q (Some (QNode a d1 ts, fs))" by (auto simp: tokened_def)
    show ?thesis
      using Cons.IH [OF h1(2), of "Suc idx"] Inr h1(1) t1
      by (auto split: sum.splits intro: tokened_trans)
  qed
qed

lemma line_tokens_nonempty: "token \<in> set (line_tokens line) \<Longrightarrow> token \<noteq> []"
  by (auto simp: line_tokens_def dest: strtok_all_tokens)

lemma tokens_refine:
  assumes ok: "builder_ok h q z" and ne: "\<And>token. token \<in> set toks \<Longrightarrow> token \<noteq> []"
  shows "case ztokens toks z of
           Inl e \<Rightarrow> apply_tokens toks h q 0 = Inl e
         | Inr z' \<Rightarrow> \<exists>h'. apply_tokens toks h q 0 = Inr h' \<and> builder_ok h' q z' \<and>
                     only_builder h z h' z' \<and> qh_fresh h' = qh_fresh h"
proof (cases z)
  case None
  have "toks \<noteq> [] \<Longrightarrow> apply_tokens toks h None 0 = Inl NullDeref"
    using ne by (cases toks)
      (auto simp: apply_token_def set_query_name_def chomp_len_def update_node_def)
  then show ?thesis using None ok by (auto simp: builder_ok_def only_builder_refl)
next
  case (Some p)
  obtain a d ts fs where z: "z = Some (QNode a d ts, fs)" using Some by (cases p, cases "fst p") auto
  show ?thesis
    using apply_tokens_refines [OF ok [unfolded z], of toks 0] z
    by (auto simp: tokened_def only_builder_def zipper_addrs_def set_addrs_plug split: sum.splits)
qed

subsection \<open>Lines\<close>

lemma builder_current_ok:
  assumes "builder_ok h q (Some (t, fs))"
  shows "q = Some (qt_addr t)" "query_ok h t" "all_data value_live t"
    "print_query h q = (if all_data printable t then Inr (tree_lines 0 t) else Inl OutOfBounds)"
proof -
  show q: "q = Some (qt_addr t)" and live: "all_data value_live t"
    using assms by (auto simp: builder_ok_def all_data_plug)
  show ok: "query_ok h t"
    using assms qrep_plug_node [of h t fs]
    by (auto simp: builder_ok_def query_ok_def tree_ok_def all_data_plug distinct_plug)
  show "print_query h q = (if all_data printable t then Inr (tree_lines 0 t) else Inl OutOfBounds)"
    using print_query_rep [OF ok live] q by simp
qed

text \<open>The part of \<^const>\<open>query_line\<close> after the tokens: the hand-over at depth 0.\<close>

definition hand_over :: "listener_t \<Rightarrow> int \<Rightarrow> qheap \<Rightarrow> addr option \<Rightarrow> int \<Rightarrow> listener_t cres" where
  "hand_over st mtype h' query depth =
     (if depth = 0 then
         bindE (print_query h' query) (\<lambda>_.
           Inr (st\<lparr>l_heap := h', l_inst := set_query (l_inst st) query, l_query := None,
                   l_depth := depth, l_ptype := mtype\<rparr>))
       else Inr (st\<lparr>l_heap := h', l_query := query, l_depth := depth, l_ptype := mtype\<rparr>))"

lemma hand_over_refines:
  assumes sim: "listener_sim st zs" and ok: "builder_ok h q z"
    and frame: "only_builder (l_heap st) (z_cur zs) h z"
  shows "case zinstall (zs\<lparr>z_fresh := qh_fresh h, z_cur := z, z_depth := depth, z_ptype := mtype\<rparr>) of
           Inl e \<Rightarrow> hand_over st mtype h q depth = Inl e
         | Inr zs' \<Rightarrow> \<exists>st'. hand_over st mtype h q depth = Inr st' \<and> listener_sim st' zs'"
proof -
  have inst: "installed_ok h z (z_inst zs)" and wf: "heap_wf h"
    using sim ok frame installed_ok_frame [of "l_heap st" "z_cur zs" "z_inst zs" h z]
    by (auto simp: listener_sim_def builder_ok_def)
  show ?thesis
  proof (cases "depth = 0")
    case False
    then show ?thesis using sim ok inst by (simp add: zinstall_def hand_over_def listener_sim_def)
  next
    case True
    show ?thesis
    proof (cases z)
      case None
      then have "q = None" using ok by (simp add: builder_ok_def)
      then show ?thesis using True None
        by (simp add: zinstall_def hand_over_def print_query_def)
    next
      case (Some p)
      obtain t fs where z: "z = Some (t, fs)" using Some by (cases p) auto
      show ?thesis
        using True z builder_current_ok [OF ok [unfolded z]] wf sim
        by (auto simp: zinstall_def hand_over_def listener_sim_def builder_ok_def installed_ok_def
            zipper_addrs_def set_query_def)
    qed
  qed
qed

lemma query_line_refines:
  assumes sim: "listener_sim st zs"
  shows "case zquery zs line of
           Inl e \<Rightarrow> query_line st line = Inl e
         | Inr zs' \<Rightarrow> \<exists>st'. query_line st line = Inr st' \<and> listener_sim st' zs'"
proof -
  let ?h = "l_heap st" and ?z = "z_cur zs"
  have ok: "builder_ok ?h (l_query st) ?z" and eqs: "z_fresh zs = qh_fresh ?h"
      "z_depth zs = l_depth st" "z_ptype zs = l_ptype st"
    using sim by (auto simp: listener_sim_def)
  show ?thesis
  proof (cases "line_type line")
    case (Inl e)
    then show ?thesis by (simp add: zquery_def query_line_def)
  next
    case type: (Inr mtype)
    show ?thesis
    proof (cases "zmove (qh_fresh ?h) ?z (l_ptype st) mtype")
      case (Inl e)
      then show ?thesis using type eqs move_query_refines [OF ok, of "l_depth st" "l_ptype st" mtype]
        by (simp add: zquery_def query_line_def)
    next
      case (Inr z)
      then obtain h q where mv: "move_query ?h (l_query st) (l_depth st) (l_ptype st) mtype
            = Inr (h, q, new_depth (l_depth st) mtype)" "builder_ok h q z" "only_builder ?h ?z h z"
          "qh_fresh h = (if allocates mtype then Suc (qh_fresh ?h) else qh_fresh ?h)"
        using move_query_refines [OF ok, of "l_depth st" "l_ptype st" mtype]
        unfolding moved_def by auto
      let ?toks = "if 34 < length line then
              (if length line < MAX_MESSAGE_LEN then apply_tokens (line_tokens line) h q 0
               else Inl OutOfBounds) else Inr h"
      let ?ztoks = "if 34 < length line then
              (if length line < MAX_MESSAGE_LEN then ztokens (line_tokens line) z
               else Inl OutOfBounds) else Inr z"
      let ?depth = "new_depth (l_depth st) mtype"
      have q: "query_line st line = bindE ?toks (\<lambda>h'. hand_over st mtype h' q ?depth)"
        using type mv(1) by (simp add: query_line_def hand_over_def line_tokens_def)
      have zq: "zquery zs line = bindE ?ztoks (\<lambda>z'. zinstall (zs\<lparr>z_fresh := qh_fresh h, z_cur := z',
                  z_depth := ?depth, z_ptype := mtype\<rparr>))"
        using type Inr eqs mv(4) by (simp add: zquery_def)
      have tok: "case ?ztoks of Inl e \<Rightarrow> ?toks = Inl e
         | Inr z' \<Rightarrow> \<exists>h'. ?toks = Inr h' \<and> builder_ok h' q z' \<and> only_builder h z h' z' \<and> qh_fresh h' = qh_fresh h"
        using tokens_refine [OF mv(2) line_tokens_nonempty [of _ line]] mv(2) only_builder_refl by auto
      show ?thesis
      proof (cases ?ztoks)
        case (Inl e)
        then show ?thesis using tok q zq by simp
      next
        case (Inr z')
        then obtain h' where h': "?toks = Inr h'" "builder_ok h' q z'" "only_builder h z h' z'"
            "qh_fresh h' = qh_fresh h" using tok by auto
        show ?thesis
          using hand_over_refines [OF sim h'(2) only_builder_trans [OF mv(3) h'(3)], of mtype ?depth]
          unfolding q zq h'(1) Inr h'(4) bindE.simps .
      qed
    qed
  qed
qed

lemma heap_wf_release: "heap_wf h \<Longrightarrow> heap_wf (release h A)"
  by (simp add: heap_wf_def release_def)

lemma release_installed:
  assumes "listener_sim st zs"
  shows "\<exists>h'. release_query (l_heap st) (l_inst st) = Inr h' \<and>
           builder_ok h' (l_query st) (z_cur zs) \<and> qh_fresh h' = qh_fresh (l_heap st)"
proof (cases "z_inst zs")
  case None
  then show ?thesis using assms by (simp add: listener_sim_def release_query_def)
next
  case (Some t)
  let ?h = "l_heap st" and ?h' = "release (l_heap st) (set (addrs t))"
  have t: "query_ok ?h t" "all_data value_live t" "i_query (l_inst st) = Some (qt_addr t)"
      "set (addrs t) \<inter> zipper_addrs (z_cur zs) = {}"
    using assms Some by (auto simp: listener_sim_def installed_ok_def)
  have "builder_ok ?h' (l_query st) (z_cur zs)"
    using assms t(4) qrep_release [of ?h None _ "set (addrs t)"]
    by (auto simp: listener_sim_def builder_ok_def tree_ok_def heap_wf_release zipper_addrs_def
        split: option.splits)
  moreover have "release_query ?h (l_inst st) = Inr ?h'"
    using free_query_rep [OF t(1,2)] t(3) by (simp add: release_query_def)
  ultimately show ?thesis by (simp add: release_def)
qed

lemma listener_line_refines:
  assumes "listener_sim st zs"
  shows "case zline zs line of
           Inl e \<Rightarrow> listener_line st line = Inl e
         | Inr zs' \<Rightarrow> \<exists>st'. listener_line st line = Inr st' \<and> listener_sim st' zs'"
proof -
  obtain h' where h': "release_query (l_heap st) (l_inst st) = Inr h'"
      "builder_ok h' (l_query st) (z_cur zs)" "qh_fresh h' = qh_fresh (l_heap st)"
    using release_installed [OF assms] by blast
  have req: "HELLO_REQUEST \<noteq> RESET_REQUEST" "HELLO_REQUEST \<noteq> FIN_REQUEST" "RESET_REQUEST \<noteq> FIN_REQUEST"
    "HELLO_REQUEST \<noteq> []" "RESET_REQUEST \<noteq> []" "FIN_REQUEST \<noteq> []"
    by (simp_all add: HELLO_REQUEST_def RESET_REQUEST_def FIN_REQUEST_def)
  consider "line = HELLO_REQUEST" | "line = RESET_REQUEST" | "line = FIN_REQUEST" | "line = []"
    | "line \<notin> {HELLO_REQUEST, RESET_REQUEST, FIN_REQUEST, []}" by blast
  then show ?thesis
  proof cases
    case 5
    then have "zline zs line = zquery zs line" "listener_line st line = query_line st line"
      by (simp_all add: zline_def listener_line_def)
    then show ?thesis using query_line_refines [OF assms, of line] by (simp only:)
  qed (use assms h' req in \<open>simp_all add: zline_def listener_line_def listener_sim_def
        reset_instance_def finish_instance_def\<close>)
qed

end
