(* ===== verification/Controller_Wire.thy ===== *)
theory Controller_Wire
  imports Listener_Build
begin

text \<open>
  The other end of the wire: the testcases of the main controller (\<^verbatim>\<open>Testcases.java\<close>) and the lines
  that \<^verbatim>\<open>sendMessage\<close> of \<^verbatim>\<open>Controller.java\<close> writes for one. The listener thread rebuilds a testcase
  exactly when every payload of it is the only sub-testcase of its parent.
\<close>

section \<open>Testcases\<close>

datatype value_type =
    VT_NONE | VT_INTEGER | VT_UINT8 | VT_UINT8H | VT_UINT16 | VT_UINT16H | VT_UINT32 | VT_UINT32H
  | VT_UINT64 | VT_UINT64H | VT_STRING

fun value_type_code :: "value_type \<Rightarrow> nat" where
  "value_type_code VT_NONE = 1"
| "value_type_code VT_INTEGER = 2"
| "value_type_code VT_UINT8 = 3"
| "value_type_code VT_UINT8H = 4"
| "value_type_code VT_UINT16 = 5"
| "value_type_code VT_UINT16H = 6"
| "value_type_code VT_UINT32 = 7"
| "value_type_code VT_UINT32H = 8"
| "value_type_code VT_UINT64 = 9"
| "value_type_code VT_UINT64H = 10"
| "value_type_code VT_STRING = 11"

definition getValueTypeAsInteger :: "value_type \<Rightarrow> string" where
  "getValueTypeAsInteger vt = map int_to_char_digit (digits 10 (value_type_code vt))"

text \<open>
  Name, operator, value with its type, and the sub-testcases (\<open>None\<close> is the null reference). The
  outermost testcase is a message; below it a testcase without sub-testcases is an attribute and any
  other one a payload.
\<close>

datatype testcase =
  Testcase (tc_name: string) (tc_op: "string option") (tc_value: "(value_type \<times> string) option")
    (tc_sub: "testcase list option")

definition tc_text :: "testcase \<Rightarrow> string" where
  "tc_text tc =
     tc_name tc
     @ (case tc_op tc of
          None \<Rightarrow> []
        | Some opr \<Rightarrow>
            CHR '':'' # opr
            @ (case tc_value tc of
                 None \<Rightarrow> []
               | Some (vt, v) \<Rightarrow> CHR '':'' # getValueTypeAsInteger vt @ CHR '':'' # v))"

fun sendMessage :: "string \<Rightarrow> string \<Rightarrow> bool \<Rightarrow> testcase \<Rightarrow> string list" where
  "sendMessage ispi rspi message (Testcase n opr v sub) =
     ((if message \<or> sub \<noteq> None then CHR ''2'' else CHR ''1'')
        # ispi @ rspi @ tc_text (Testcase n opr v sub) @ [NL])
     # (case sub of None \<Rightarrow> [] | Some ts \<Rightarrow> concat (map (sendMessage ispi rspi False) ts))
     @ (if message \<or> sub \<noteq> None then [CHR ''3'' # ispi @ rspi @ [NL]] else [])"

section \<open>What a testcase means\<close>

datatype qspec = QSpec qdata "qspec list"

fun erase :: "qtree \<Rightarrow> qspec" where
  "erase (QNode a d ts) = QSpec d (map erase ts)"

fun all_spec :: "(qdata \<Rightarrow> bool) \<Rightarrow> qspec \<Rightarrow> bool" where
  "all_spec P (QSpec d ss) = (P d \<and> (\<forall>s\<in>set ss. all_spec P s))"

definition op_code :: "string \<Rightarrow> int" where
  "op_code opr =
     (if take 6 opr = ''update'' then OP_TYPE_UPDATE
      else if take 4 opr = ''drop'' then OP_TYPE_DROP else 0)"

definition tc_data :: "testcase \<Rightarrow> qdata" where
  "tc_data tc =
     (let d = null_data\<lparr>q_name := Some (tc_name tc), q_nlen := int (length (tc_name tc))\<rparr>
      in case tc_op tc of
           None \<Rightarrow> d
         | Some opr \<Rightarrow>
             (let d' = d\<lparr>q_op := op_code opr\<rparr>
              in case tc_value tc of
                   None \<Rightarrow> d'
                 | Some (vt, v) \<Rightarrow> d'\<lparr>q_vtype := int (value_type_code vt), q_value := CBuf v,
                                     q_vlen := int (length v)\<rparr>))"

text \<open>Sub-queries are inserted in front, so they come in reverse order.\<close>

fun tc_spec :: "testcase \<Rightarrow> qspec" where
  "tc_spec (Testcase n opr v sub) =
     QSpec (tc_data (Testcase n opr v sub))
       (case sub of None \<Rightarrow> [] | Some ts \<Rightarrow> rev (map tc_spec ts))"

text \<open>The sub-testcases are attributes, or one payload of the same shape.\<close>

fun chain_shaped :: "testcase \<Rightarrow> bool" where
  "chain_shaped (Testcase n opr v None) = True"
| "chain_shaped (Testcase n opr v (Some [])) = False"
| "chain_shaped (Testcase n opr v (Some [t])) = chain_shaped t"
| "chain_shaped (Testcase n opr v (Some (t # t' # ts))) =
     ((tc_sub t = None) \<and> tc_sub t' = None \<and> (\<forall>s\<in>set ts. tc_sub s = None))"

text \<open>Texts that survive the wire: no delimiter in them, not empty, and a line that fits the buffer.\<close>

definition plain :: "string \<Rightarrow> bool" where
  "plain s \<longleftrightarrow> s \<noteq> [] \<and> CHR '':'' \<notin> set s \<and> NL \<notin> set s \<and> NUL \<notin> set s"

fun wire_ok :: "testcase \<Rightarrow> bool" where
  "wire_ok (Testcase n opr v sub) =
     (plain n \<and> (case opr of None \<Rightarrow> True | Some w \<Rightarrow> plain w) \<and>
      (case v of None \<Rightarrow> True | Some (vt, w) \<Rightarrow> plain w) \<and>
      length (tc_text (Testcase n opr v sub)) + 34 < MAX_MESSAGE_LEN \<and>
      (case sub of None \<Rightarrow> True | Some ts \<Rightarrow> \<forall>t\<in>set ts. wire_ok t))"

definition spi_ok :: "string \<Rightarrow> bool" where
  "spi_ok s \<longleftrightarrow> length s = 16 \<and> NL \<notin> set s"

section \<open>Lemmas\<close>

subsection \<open>One line\<close>

lemma line_type_digit: "is_digit c \<Longrightarrow> line_type (c # m) = Inr (int (digit_val c))"
proof -
  assume c: "is_digit c"
  have "char_to_int (c # m) 1 10 = Inr (word_of_nat (digit_val c))"
    using char_to_int_decimal [of "[c]" 10 m] c by (simp add: number_of_digits_def)
  moreover have "digit_val c < 10" using c by (auto simp: is_digit_def digit_val_def)
  ultimately show ?thesis by (simp add: line_type_def unsigned_ucast_eq unsigned_of_nat take_bit_nat_eq_self take_bit_of_nat)
qed

lemma value_type_text:
  "plain (getValueTypeAsInteger vt)"
  "char_to_int (getValueTypeAsInteger vt @ [NUL]) (int (length (getValueTypeAsInteger vt))) 10
   = Inr (word_of_nat (value_type_code vt))"
proof -
  have d: "\<forall>d\<in>set (digits 10 (value_type_code vt)). d < 10" using digits_less [of 10] by auto
  have dig: "is_digit c" if "c \<in> set (getValueTypeAsInteger vt)" for c
    using that d by (auto simp: getValueTypeAsInteger_def int_to_char_digit_is_digit)
  have ne: "getValueTypeAsInteger vt \<noteq> []"
    by (cases vt) (simp_all add: getValueTypeAsInteger_def digits_pos)
  then show "plain (getValueTypeAsInteger vt)"
    using dig by (force simp: plain_def is_digit_def)
  have "map digit_val (getValueTypeAsInteger vt) = digits 10 (value_type_code vt)"
    using d by (auto simp: getValueTypeAsInteger_def digit_val_int_to_char_digit intro: map_idI)
  then show "char_to_int (getValueTypeAsInteger vt @ [NUL]) (int (length (getValueTypeAsInteger vt))) 10
   = Inr (word_of_nat (value_type_code vt))"
    using char_to_int_decimal [of "getValueTypeAsInteger vt" 10 "[NUL]"] dig
    by (simp add: number_of_digits_digits)
qed

lemma plain_tokens:
  assumes "plain s"
  shows "strtok_all (\<lambda>c. c = CHR '':'') (s @ [NL]) = [s @ [NL]]"
    "strtok_all (\<lambda>c. c = CHR '':'') (s @ CHR '':'' # r) = s # strtok_all (\<lambda>c. c = CHR '':'') r"
  using assms by (auto simp: plain_def intro!: strtok_all_single strtok_all_Cons)

lemma chomp_plain:
  "plain s \<Longrightarrow> chomp_len s = Inr (length s)" "plain s \<Longrightarrow> chomp_len (s @ [NL]) = Inr (length s)"
  by (auto simp: plain_def chomp_len_def dest: last_in_set)

lemma take_snoc_NL: "length w = k \<Longrightarrow> NL \<notin> set w \<Longrightarrow> take k (s @ [NL]) = w \<longleftrightarrow> take k s = w"
proof (cases "k \<le> length s")
  case False
  assume "length w = k" "NL \<notin> set w"
  moreover have "take k (s @ [NL]) = s @ [NL]" using False by simp
  ultimately show ?thesis using False by auto
qed simp

lemma op_code_NL: "op_code (opr @ [NL]) = op_code opr"
  using take_snoc_NL [of "''update''" 6 opr] take_snoc_NL [of "''drop''" 4 opr]
  by (simp add: op_code_def)

lemma op_token: "data_token 1 opr d = Inr (if op_code opr = 0 then d else d\<lparr>q_op := op_code opr\<rparr>)"
proof -
  have *: "k \<le> length opr \<and> take k opr = w \<longleftrightarrow> take k opr = w" if "length w = k" for k w
    using that by (metis length_take min.cobounded1)
  have "6 \<le> length opr \<and> strncmp_eq opr ''update'' 6 \<longleftrightarrow> take 6 opr = ''update''"
    and "4 \<le> length opr \<and> strncmp_eq opr ''drop'' 4 \<longleftrightarrow> take 4 opr = ''drop''"
    using * [of "''update''" 6] * [of "''drop''" 4] by (auto simp: strncmp_eq_take)
  then show ?thesis unfolding data_token_def by (simp add: op_code_def)
qed

lemma name_token:
  "plain s \<Longrightarrow> data_token 0 s d = Inr (d\<lparr>q_name := Some s, q_nlen := int (length s)\<rparr>)"
  "plain s \<Longrightarrow> data_token 0 (s @ [NL]) d = Inr (d\<lparr>q_name := Some s, q_nlen := int (length s)\<rparr>)"
  by (simp_all add: data_token_def chomp_plain)

lemma value_tokens:
  "data_token 2 (getValueTypeAsInteger vt) d = Inr (d\<lparr>q_vtype := int (value_type_code vt)\<rparr>)"
  "plain s \<Longrightarrow> data_token 3 (s @ [NL]) d = Inr (d\<lparr>q_value := CBuf s, q_vlen := int (length s)\<rparr>)"
proof -
  have "sint (word_of_nat (value_type_code vt) :: 32 word) = int (value_type_code vt)"
    by (cases vt) simp_all
  then show "data_token 2 (getValueTypeAsInteger vt) d = Inr (d\<lparr>q_vtype := int (value_type_code vt)\<rparr>)"
    using value_type_text(2) [of vt] by (simp add: data_token_def)
qed (simp add: data_token_def chomp_plain)

lemma cstr_text: "wire_ok tc \<Longrightarrow> cstr (tc_text tc @ [NL]) = tc_text tc @ [NL]"
  using value_type_text(1)
  by (cases tc) (auto simp: tc_text_def plain_def split: option.splits intro!: cstr_id)

lemma text_tokens:
  assumes "wire_ok tc"
  shows "data_tokens (strtok_all (\<lambda>c. c = CHR '':'') (tc_text tc @ [NL])) 0 null_data = Inr (tc_data tc)"
proof -
  obtain n opr v sub where tc: "tc = Testcase n opr v sub" by (cases tc)
  have n: "plain n" using assms tc by simp
  have op0: "null_data\<lparr>q_name := m, q_nlen := l, q_op := 0\<rparr> = null_data\<lparr>q_name := m, q_nlen := l\<rparr>" for m l
    by (simp add: null_query_def qdata.defs)
  have op0': "null_data\<lparr>q_name := m, q_nlen := l, q_op := 0, q_vtype := t, q_value := c, q_vlen := k\<rparr>
      = null_data\<lparr>q_name := m, q_nlen := l, q_vtype := t, q_value := c, q_vlen := k\<rparr>" for m l t c k
    by (simp add: null_query_def qdata.defs)
  show ?thesis
  proof (cases opr)
    case None
    then show ?thesis using tc n by (simp add: tc_text_def plain_tokens name_token tc_data_def)
  next
    case op: (Some w)
    then have w: "plain w" "w \<noteq> []" using assms tc by (auto simp: plain_def)
    show ?thesis
    proof (cases v)
      case None
      then show ?thesis using tc n op w op0
        by (simp add: tc_text_def plain_tokens name_token op_token [unfolded One_nat_def] op_code_NL tc_data_def)
    next
      case (Some p)
      obtain vt u where p: "p = (vt, u)" by (cases p)
      have "plain u" using assms tc Some p by simp
      then show ?thesis using tc n op w op0' Some p value_type_text(1) [of vt]
        by (simp add: tc_text_def plain_tokens name_token op_token [unfolded One_nat_def]
            value_tokens [unfolded numeral_2_eq_2 numeral_3_eq_3] tc_data_def)
    qed
  qed
qed

text \<open>The three kinds of lines and what the machine does on them.\<close>

definition tc_line :: "char \<Rightarrow> string \<Rightarrow> string \<Rightarrow> testcase \<Rightarrow> string" where
  "tc_line c ispi rspi tc = c # ispi @ rspi @ tc_text tc @ [NL]"

definition end_line :: "string \<Rightarrow> string \<Rightarrow> string" where
  "end_line ispi rspi = CHR ''3'' # ispi @ rspi @ [NL]"

lemma not_request: "is_digit c \<Longrightarrow> zline zs (c # s) = zquery zs (c # s)"
  by (auto simp: zline_def HELLO_REQUEST_def RESET_REQUEST_def FIN_REQUEST_def is_digit_def)

lemma tc_text_nonempty: "wire_ok tc \<Longrightarrow> tc_text tc \<noteq> []"
  by (cases tc) (auto simp: tc_text_def plain_def)

lemma zline_tc:
  assumes "wire_ok tc" and "spi_ok ispi" and "spi_ok rspi" and "is_digit c"
    and "zmove (z_fresh zs) (z_cur zs) (z_ptype zs) (int (digit_val c))
         = Inr (Some (new_node (z_fresh zs), fs))"
    and "allocates (int (digit_val c))" and "new_depth (z_depth zs) (int (digit_val c)) \<noteq> 0"
  shows "zline zs (tc_line c ispi rspi tc) =
           Inr (zs\<lparr>z_fresh := Suc (z_fresh zs), z_cur := Some (QNode (z_fresh zs) (tc_data tc) [], fs),
                   z_depth := new_depth (z_depth zs) (int (digit_val c)), z_ptype := int (digit_val c)\<rparr>)"
proof -
  have toks: "line_tokens (tc_line c ispi rspi tc)
      = strtok_all (\<lambda>c. c = CHR '':'') (tc_text tc @ [NL])"
    using assms(2,3) cstr_text [OF assms(1)] by (simp add: line_tokens_def tc_line_def spi_ok_def)
  have len: "34 < length (tc_line c ispi rspi tc)" "length (tc_line c ispi rspi tc) < MAX_MESSAGE_LEN"
    using assms(1-3) tc_text_nonempty [OF assms(1)]
    by (cases tc; simp add: tc_line_def spi_ok_def)+
  have type: "line_type (tc_line c ispi rspi tc) = Inr (int (digit_val c))"
    using line_type_digit [OF assms(4)] by (simp add: tc_line_def)
  have "zline zs (tc_line c ispi rspi tc) = zquery zs (tc_line c ispi rspi tc)"
    using not_request [OF assms(4)] by (simp add: tc_line_def)
  then show ?thesis
    using assms(5-7) text_tokens [OF assms(1)]
    by (simp add: zquery_def type len toks new_node_def zinstall_def)
qed

lemma zline_start:
  assumes "wire_ok tc" and "spi_ok ispi" and "spi_ok rspi" and "0 \<le> z_depth zs"
  shows "z_cur zs = Some (QNode b d ts, fs) \<Longrightarrow>
         zline zs (tc_line CHR ''2'' ispi rspi tc) =
           Inr (zs\<lparr>z_fresh := Suc (z_fresh zs),
                   z_cur := Some (QNode (z_fresh zs) (tc_data tc) [], (b, d, ts) # fs),
                   z_depth := z_depth zs + 1, z_ptype := MSG_TYPE_BLOCK_START\<rparr>)"
    "z_cur zs = None \<Longrightarrow>
         zline zs (tc_line CHR ''2'' ispi rspi tc) =
           Inr (zs\<lparr>z_fresh := Suc (z_fresh zs), z_cur := Some (QNode (z_fresh zs) (tc_data tc) [], []),
                   z_depth := z_depth zs + 1, z_ptype := MSG_TYPE_BLOCK_START\<rparr>)"
  using zline_tc [OF assms(1-3), of "CHR ''2''" zs] assms(4)
  by (simp_all add: is_digit_def digit_val_def zmove_def allocates_def new_depth_def)

lemma zline_end:
  assumes "spi_ok ispi" and "spi_ok rspi" and "z_cur zs = Some (t, fs)"
  shows "zline zs (end_line ispi rspi) =
           zinstall (zs\<lparr>z_cur := Some (zup t fs), z_depth := z_depth zs - 1,
                        z_ptype := MSG_TYPE_BLOCK_END\<rparr>)"
proof -
  have "length (end_line ispi rspi) = 34" using assms(1,2) by (simp add: end_line_def spi_ok_def)
  moreover have "line_type (end_line ispi rspi) = Inr MSG_TYPE_BLOCK_END"
    using line_type_digit [of "CHR ''3''"] by (simp add: end_line_def is_digit_def digit_val_def)
  moreover have "zline zs (end_line ispi rspi) = zquery zs (end_line ispi rspi)"
    using not_request [of "CHR ''3''"] by (simp add: end_line_def is_digit_def)
  ultimately show ?thesis
    using assms(3) by (simp add: zquery_def zmove_def allocates_def new_depth_def)
qed

subsection \<open>Testcases on the machine\<close>

primrec zlines :: "string list \<Rightarrow> zstate \<Rightarrow> zstate cres" where
  "zlines [] zs = Inr zs"
| "zlines (l # ls) zs = bindE (zline zs l) (zlines ls)"

lemma zlines_append: "zlines (ls @ ls') zs = bindE (zlines ls zs) (zlines ls')"
proof (induction ls arbitrary: zs)
  case (Cons l ls)
  then show ?case by (cases "zline zs l") simp_all
qed simp

text \<open>The position is at or below a node, where the next attribute becomes its first sub-query.\<close>

definition under :: "zstate \<Rightarrow> addr \<Rightarrow> qdata \<Rightarrow> qtree list \<Rightarrow> frame list \<Rightarrow> bool" where
  "under zs b d us fs \<longleftrightarrow>
     z_cur zs = Some (QNode b d us, fs) \<and> z_ptype zs = MSG_TYPE_BLOCK_START \<or>
     (\<exists>t ts. us = t # ts \<and> z_cur zs = Some (t, (b, d, ts) # fs) \<and> z_ptype zs = MSG_TYPE_ATTRIBUTE)"

lemma zline_attribute:
  assumes "wire_ok tc" and "spi_ok ispi" and "spi_ok rspi" and "0 < z_depth zs"
    and "under zs b d us fs"
  shows "zline zs (tc_line CHR ''1'' ispi rspi tc) =
           Inr (zs\<lparr>z_fresh := Suc (z_fresh zs),
                   z_cur := Some (QNode (z_fresh zs) (tc_data tc) [], (b, d, us) # fs),
                   z_ptype := MSG_TYPE_ATTRIBUTE\<rparr>)"
proof -
  have "zmove (z_fresh zs) (z_cur zs) (z_ptype zs) MSG_TYPE_ATTRIBUTE
        = Inr (Some (new_node (z_fresh zs), (b, d, us) # fs))"
    using assms(5) by (auto simp: under_def zmove_def)
  then show ?thesis
    using zline_tc [OF assms(1-3), of "CHR ''1''" zs] assms(4)
    by (simp add: is_digit_def digit_val_def allocates_def new_depth_def)
qed

text \<open>What the sub-testcases of a node leave: the position is on its last sub-query.\<close>

definition subs_built :: "zstate \<Rightarrow> zstate \<Rightarrow> addr \<Rightarrow> qdata \<Rightarrow> frame list \<Rightarrow> qspec list \<Rightarrow> bool" where
  "subs_built zs zs' b d fs specs \<longleftrightarrow>
     (\<exists>t us. z_cur zs' = Some (t, (b, d, us) # fs) \<and> map erase (t # us) = specs) \<and>
     z_depth zs' = z_depth zs \<and> z_inst zs' = z_inst zs"

lemma send_attribute: "tc_sub tc = None \<Longrightarrow> sendMessage ispi rspi False tc = [tc_line CHR ''1'' ispi rspi tc]"
  by (cases tc) (simp add: tc_line_def)

lemma send_block:
  "tc_sub tc = Some ts \<Longrightarrow> sendMessage ispi rspi m tc =
     tc_line CHR ''2'' ispi rspi tc # concat (map (sendMessage ispi rspi False) ts) @ [end_line ispi rspi]"
  by (cases tc) (simp add: tc_line_def end_line_def)

lemma tc_spec_attribute: "tc_sub tc = None \<Longrightarrow> tc_spec tc = QSpec (tc_data tc) []"
  by (cases tc) simp

lemma tc_spec_block: "tc_sub tc = Some ts \<Longrightarrow> tc_spec tc = QSpec (tc_data tc) (rev (map tc_spec ts))"
  by (cases tc) simp

lemma attributes_built:
  assumes "spi_ok ispi" and "spi_ok rspi"
    and "ts \<noteq> []" and "\<forall>t\<in>set ts. tc_sub t = None \<and> wire_ok t"
    and "0 < z_depth zs" and "under zs b d us fs"
  shows "\<exists>zs'. zlines (concat (map (sendMessage ispi rspi False) ts)) zs = Inr zs' \<and>
           subs_built zs zs' b d fs (rev (map tc_spec ts) @ map erase us)"
  using assms(3-)
proof (induction ts arbitrary: zs us)
  case Nil
  then show ?case by simp
next
  case (Cons t ts)
  let ?n = "QNode (z_fresh zs) (tc_data t) []"
  let ?zs = "zs\<lparr>z_fresh := Suc (z_fresh zs), z_cur := Some (?n, (b, d, us) # fs),
                z_ptype := MSG_TYPE_ATTRIBUTE\<rparr>"
  have step: "zlines (concat (map (sendMessage ispi rspi False) (t # ts))) zs
       = zlines (concat (map (sendMessage ispi rspi False) ts)) ?zs"
    using zline_attribute [OF _ assms(1,2) Cons.prems(3,4), of t] Cons.prems(2)
    by (simp add: send_attribute)
  show ?case
  proof (cases "ts = []")
    case True
    then show ?thesis using step Cons.prems(2)
      by (simp add: subs_built_def tc_spec_attribute)
  next
    case False
    have "under ?zs b d (?n # us) fs" by (simp add: under_def)
    from Cons.IH [OF False _ _ this] Cons.prems step show ?thesis
      by (auto simp: subs_built_def tc_spec_attribute)
  qed
qed

lemma payload_built:
  assumes spi: "spi_ok ispi" "spi_ok rspi"
    and tc: "tc_sub tc = Some ts" "wire_ok tc"
    and cur: "z_cur zs = Some (QNode b d us, fs)" and depth: "0 < z_depth zs"
    and sub: "\<And>zs b d fs. z_cur zs = Some (QNode b d [], fs) \<Longrightarrow> z_ptype zs = MSG_TYPE_BLOCK_START \<Longrightarrow>
         0 < z_depth zs \<Longrightarrow>
         \<exists>zs'. zlines (concat (map (sendMessage ispi rspi False) ts)) zs = Inr zs' \<and>
               subs_built zs zs' b d fs (rev (map tc_spec ts))"
  shows "\<exists>zs'. zlines (sendMessage ispi rspi False tc) zs = Inr zs' \<and>
           subs_built zs zs' b d fs (tc_spec tc # map erase us)"
proof -
  let ?f = "z_fresh zs"
  let ?zs = "zs\<lparr>z_fresh := Suc ?f, z_cur := Some (QNode ?f (tc_data tc) [], (b, d, us) # fs),
                z_depth := z_depth zs + 1, z_ptype := MSG_TYPE_BLOCK_START\<rparr>"
  obtain zs' where zs': "zlines (concat (map (sendMessage ispi rspi False) ts)) ?zs = Inr zs'"
      "subs_built ?zs zs' ?f (tc_data tc) ((b, d, us) # fs) (rev (map tc_spec ts))"
    using sub [of ?zs] depth by fastforce
  then obtain t us' where t: "z_cur zs' = Some (t, (?f, tc_data tc, us') # (b, d, us) # fs)"
      "map erase (t # us') = rev (map tc_spec ts)" "z_depth zs' = z_depth zs + 1" "z_inst zs' = z_inst zs"
    by (auto simp: subs_built_def)
  have start: "zline zs (tc_line CHR ''2'' ispi rspi tc) = Inr ?zs"
    using zline_start(1) [OF tc(2) spi _ cur] depth by simp
  have "zlines (sendMessage ispi rspi False tc) zs =
        Inr (zs'\<lparr>z_cur := Some (QNode ?f (tc_data tc) (t # us'), (b, d, us) # fs),
                 z_depth := z_depth zs, z_ptype := MSG_TYPE_BLOCK_END\<rparr>)"
    using send_block [OF tc(1)] start zs'(1) zline_end [OF spi t(1)] t(3) depth
    by (simp add: zlines_append zinstall_def)
  then show ?thesis
    using t tc_spec_block [OF tc(1)] by (simp add: subs_built_def)
qed

lemma chain_built:
  assumes spi: "spi_ok ispi" "spi_ok rspi"
  shows "chain_shaped tc \<Longrightarrow> wire_ok tc \<Longrightarrow> tc_sub tc = Some ts \<Longrightarrow>
         z_cur zs = Some (QNode b d [], fs) \<Longrightarrow> z_ptype zs = MSG_TYPE_BLOCK_START \<Longrightarrow> 0 < z_depth zs \<Longrightarrow>
         \<exists>zs'. zlines (concat (map (sendMessage ispi rspi False) ts)) zs = Inr zs' \<and>
               subs_built zs zs' b d fs (rev (map tc_spec ts))"
proof (induction tc arbitrary: ts zs b d fs rule: chain_shaped.induct)
  case (3 n opr v t)
  then have ts: "ts = [t]" and t: "wire_ok t" "chain_shaped t" by simp_all
  show ?case
  proof (cases "tc_sub t")
    case None
    have "under zs b d [] fs" using 3 by (simp add: under_def)
    then show ?thesis using attributes_built [OF spi, of "[t]" zs b d "[]" fs] None t 3 ts by simp
  next
    case (Some ts')
    have "\<exists>zs'. zlines (sendMessage ispi rspi False t) zs = Inr zs' \<and>
           subs_built zs zs' b d fs (tc_spec t # map erase [])"
      using "3.prems" t Some by (intro payload_built [OF spi Some t(1)]) (auto intro: "3.IH")
    then show ?thesis using ts by simp
  qed
next
  case (4 n opr v t t' ts0)
  have "under zs b d [] fs" using 4 by (simp add: under_def)
  then show ?case using attributes_built [OF spi, of ts zs b d "[]" fs] 4 by auto
qed simp_all

lemma all_spec_erase: "all_spec P (erase t) = all_data P t"
  by (induction t) auto

lemma printable_tc: "wire_ok tc \<Longrightarrow> all_spec printable (tc_spec tc)"
proof (induction tc)
  case (Testcase n opr v sub)
  have "length (tc_text (Testcase n opr v sub)) + 34 < MAX_MESSAGE_LEN" using Testcase.prems by simp
  then have "printable (tc_data (Testcase n opr v sub))"
    by (auto simp: tc_text_def printable_def tc_data_def null_query_def qdata.defs
        split: option.splits)
  moreover have "all_spec printable (tc_spec t)" if "sub = Some ts" "t \<in> set ts" for t ts
    using that Testcase.IH [of ts t] Testcase.prems by simp
  ultimately show ?case by (auto split: option.splits)
qed

lemma message_built:
  assumes spi: "spi_ok ispi" "spi_ok rspi" and tc: "chain_shaped tc" "wire_ok tc"
    and zs: "z_cur zs = None" "z_depth zs = 0"
  shows "\<exists>zs' t. zlines (sendMessage ispi rspi True tc) zs = Inr zs' \<and> z_cur zs' = None \<and>
           z_depth zs' = 0 \<and> z_inst zs' = Some t \<and> erase t = tc_spec tc"
proof -
  let ?f = "z_fresh zs"
  let ?zs = "zs\<lparr>z_fresh := Suc ?f, z_cur := Some (QNode ?f (tc_data tc) [], []),
                z_depth := 1, z_ptype := MSG_TYPE_BLOCK_START\<rparr>"
  have start: "zline zs (tc_line CHR ''2'' ispi rspi tc) = Inr ?zs"
    using zline_start(2) [OF tc(2) spi _ zs(1)] zs(2) by simp
  have print: "all_data printable t" if "erase t = tc_spec tc" for t
    using printable_tc [OF tc(2)] that all_spec_erase [of printable t] by simp
  show ?thesis
  proof (cases "tc_sub tc")
    case None
    let ?t = "QNode ?f (tc_data tc) []"
    have t: "erase ?t = tc_spec tc" by (simp add: tc_spec_attribute [OF None])
    have "sendMessage ispi rspi True tc = [tc_line CHR ''2'' ispi rspi tc, end_line ispi rspi]"
      using None by (cases tc) (simp add: tc_line_def end_line_def)
    then show ?thesis
      using start zline_end [OF spi, of ?zs ?t "[]"] t print [OF t] by (simp add: zinstall_def)
  next
    case (Some ts)
    obtain zs' where zs': "zlines (concat (map (sendMessage ispi rspi False) ts)) ?zs = Inr zs'"
        "subs_built ?zs zs' ?f (tc_data tc) [] (rev (map tc_spec ts))"
      using chain_built [OF spi tc Some, of ?zs] by auto
    then obtain t us where t: "z_cur zs' = Some (t, [(?f, tc_data tc, us)])"
        "map erase (t # us) = rev (map tc_spec ts)" "z_depth zs' = 1"
      by (auto simp: subs_built_def)
    let ?t = "QNode ?f (tc_data tc) (t # us)"
    have e: "erase ?t = tc_spec tc" using t(2) tc_spec_block [OF Some] by simp
    show ?thesis
      using send_block [OF Some] start zs'(1) zline_end [OF spi t(1)] t(3) e print [OF e]
      by (simp add: zlines_append zinstall_def)
  qed
qed

text \<open>
  Two payloads in one message: after the end of the first one the position stays on it, so that the
  second one becomes a part of the first, and the first one is installed instead of the message.
\<close>

fun add_first :: "qspec \<Rightarrow> qspec \<Rightarrow> qspec" where
  "add_first s (QSpec d ss) = QSpec d (s # ss)"

lemma two_payloads_built:
  assumes spi: "spi_ok ispi" "spi_ok rspi" and tc: "wire_ok tc" "tc_sub tc = Some [p1, p2]"
    and p: "chain_shaped p1" "chain_shaped p2" "tc_sub p1 = Some ts1" "tc_sub p2 = Some ts2"
    and zs: "z_cur zs = None" "z_depth zs = 0"
  shows "\<exists>zs' t. zlines (sendMessage ispi rspi True tc) zs = Inr zs' \<and> z_cur zs' = None \<and>
           z_depth zs' = 0 \<and> z_inst zs' = Some t \<and> erase t = add_first (tc_spec p2) (tc_spec p1)"
proof -
  have w: "wire_ok p1" "wire_ok p2" using tc by (cases tc; simp)+
  let ?f = "z_fresh zs"
  let ?zs = "zs\<lparr>z_fresh := Suc ?f, z_cur := Some (QNode ?f (tc_data tc) [], []),
                z_depth := 1, z_ptype := MSG_TYPE_BLOCK_START\<rparr>"
  have start: "zline zs (tc_line CHR ''2'' ispi rspi tc) = Inr ?zs"
    using zline_start(2) [OF tc(1) spi _ zs(1)] zs(2) by simp
  obtain zs1 where zs1: "zlines (sendMessage ispi rspi False p1) ?zs = Inr zs1"
      "subs_built ?zs zs1 ?f (tc_data tc) [] [tc_spec p1]"
    using payload_built [OF spi p(3) w(1), of ?zs ?f "tc_data tc" "[]" "[]"] chain_built [OF spi p(1) w(1) p(3)]
    by auto
  then obtain t1 where t1: "z_cur zs1 = Some (t1, [(?f, tc_data tc, [])])" "erase t1 = tc_spec p1"
      "z_depth zs1 = 1" by (auto simp: subs_built_def)
  obtain b1 d1 us1 where t1': "t1 = QNode b1 d1 us1" by (cases t1)
  obtain zs2 where zs2: "zlines (sendMessage ispi rspi False p2) zs1 = Inr zs2"
      "subs_built zs1 zs2 b1 d1 [(?f, tc_data tc, [])] (tc_spec p2 # map erase us1)"
    using payload_built [OF spi p(4) w(2), of zs1 b1 d1 us1 "[(?f, tc_data tc, [])]"]
      chain_built [OF spi p(2) w(2) p(4)] t1 t1' by auto
  then obtain t2 us2 where t2: "z_cur zs2 = Some (t2, [(b1, d1, us2), (?f, tc_data tc, [])])"
      "map erase (t2 # us2) = tc_spec p2 # map erase us1" "z_depth zs2 = 1"
    using t1(3) by (auto simp: subs_built_def)
  let ?t = "QNode b1 d1 (t2 # us2)"
  have e: "erase ?t = add_first (tc_spec p2) (tc_spec p1)"
    using t2(2) t1(2) t1' by (metis add_first.simps erase.simps)
  have "all_spec printable (erase ?t)"
    using e printable_tc [OF w(1)] printable_tc [OF w(2)] by (cases "tc_spec p1") auto
  then have pr: "all_data printable ?t" by (simp only: all_spec_erase)
  show ?thesis
    using send_block [OF tc(2), of ispi rspi True] start zs1(1) zs2(1) zline_end [OF spi t2(1)] t2(3) e pr
    by (simp add: zlines_append zinstall_def)
qed

end
