(* ===== verification/Controller_Testcase.thy ===== *)
theory Controller_Testcase
  imports Controller_Wire
begin

text \<open>
  How the main controller gets its testcases and how it hands them out (\<^verbatim>\<open>Testcases.java\<close>): the
  constructors that read a testcase from JSON objects and give it its type, and the iterators that
  \<^verbatim>\<open>sendMessage\<close> of \<^verbatim>\<open>Controller.java\<close> advances while it writes the lines of a testcase.
\<close>

section \<open>Exceptions\<close>

text \<open>
  The exceptions the controller can meet, with the two ways in which it stops for good: \<^verbatim>\<open>System.exit\<close>
  and a loop or recursion that never ends.
\<close>

datatype jexn =
    NullPointer
  | ClassCast
  | IndexOutOfBounds
  | NumberFormat
  | EmptyStack
  | SocketTimeout
  | IOException
  | Exit int
  | Forever

fun bindX :: "jexn + 'a \<Rightarrow> ('a \<Rightarrow> jexn + 'b) \<Rightarrow> jexn + 'b" where
  "bindX (Inl e) f = Inl e"
| "bindX (Inr x) f = f x"

lemma bindX_Inr_iff: "bindX m f = Inr y \<longleftrightarrow> (\<exists>x. m = Inr x \<and> f x = Inr y)"
  by (cases m) simp_all

lemma bindX_cong [fundef_cong]: "m = m' \<Longrightarrow> (\<And>x. m' = Inr x \<Longrightarrow> f x = g x) \<Longrightarrow> bindX m f = bindX m' g"
  by (cases m') simp_all

section \<open>Reading testcases\<close>

text \<open>
  A JSON value; a number comes with its text. The text of an array or an object is what their
  \<^verbatim>\<open>toString\<close> of the JSON library gives, a parameter below.
\<close>

datatype json = JStr string | JNum string | JBool bool | JNull | JArr "json list" | JObj "(string \<times> json) list"

text \<open>\<^verbatim>\<open>get\<close> of an object: null when the key is missing.\<close>

definition json_get :: "(string \<times> json) list \<Rightarrow> string \<Rightarrow> json" where
  "json_get obj key = (case map_of obj key of None \<Rightarrow> JNull | Some v \<Rightarrow> v)"

definition cast_string :: "json \<Rightarrow> jexn + string option" where
  "cast_string v = (case v of JNull \<Rightarrow> Inr None | JStr s \<Rightarrow> Inr (Some s) | _ \<Rightarrow> Inl ClassCast)"

definition cast_array :: "json \<Rightarrow> jexn + json list option" where
  "cast_array v = (case v of JNull \<Rightarrow> Inr None | JArr vs \<Rightarrow> Inr (Some vs) | _ \<Rightarrow> Inl ClassCast)"

definition json_toString :: "(json \<Rightarrow> string) \<Rightarrow> json \<Rightarrow> string" where
  "json_toString show_json v =
     (case v of
        JStr s \<Rightarrow> s | JNum s \<Rightarrow> s | JBool b \<Rightarrow> (if b then ''true'' else ''false'') | _ \<Rightarrow> show_json v)"

datatype testcase_type = TC_MESSAGE | TC_PAYLOAD | TC_ATTRIBUTE

text \<open>The fields of the class; a null reference is \<open>None\<close>.\<close>

datatype jtestcase =
  JTestcase (jt_type: testcase_type) (jt_name: "string option") (jt_receiver: "string option")
    (jt_reporter: "string option") (jt_id: "string option") (jt_op: "string option")
    (jt_vtype: "value_type option") (jt_value: "string option") (jt_sub: "jtestcase list option")

definition vtype_names :: "(string \<times> value_type) list" where
  "vtype_names =
     [(''integer'', VT_INTEGER), (''uint8'', VT_UINT8), (''uint8h'', VT_UINT8H), (''uint16'', VT_UINT16),
      (''uint16h'', VT_UINT16H), (''uint32'', VT_UINT32), (''uint32h'', VT_UINT32H), (''uint64'', VT_UINT64),
      (''uint64h'', VT_UINT64H), (''string'', VT_STRING)]"

definition parse_vtype :: "json \<Rightarrow> jexn + value_type" where
  "parse_vtype v =
     bindX (cast_string v) (\<lambda>vt.
       Inr (case vt of
              None \<Rightarrow> VT_STRING
            | Some s \<Rightarrow> (case map_of vtype_names s of None \<Rightarrow> VT_STRING | Some t \<Rightarrow> t)))"

text \<open>The value with its type; both stay null when the key is missing.\<close>

definition parse_value ::
  "(json \<Rightarrow> string) \<Rightarrow> (string \<times> json) list \<Rightarrow> jexn + (value_type option \<times> string option)" where
  "parse_value show_json obj =
     (case json_get obj ''value'' of
        JNull \<Rightarrow> Inr (None, None)
      | v \<Rightarrow> bindX (parse_vtype (json_get obj ''type'')) (\<lambda>vt. Inr (Some vt, Some (json_toString show_json v))))"

fun mapX :: "('a \<Rightarrow> jexn + 'b) \<Rightarrow> 'a list \<Rightarrow> jexn + 'b list" where
  "mapX f [] = Inr []"
| "mapX f (x # xs) = bindX (f x) (\<lambda>y. bindX (mapX f xs) (\<lambda>ys. Inr (y # ys)))"

lemma mapX_cong [fundef_cong]: "xs = ys \<Longrightarrow> (\<And>x. x \<in> set ys \<Longrightarrow> f x = g x) \<Longrightarrow> mapX f xs = mapX g ys"
  by (induction xs arbitrary: ys) (auto intro!: bindX_cong)

lemma mapX_Inr: "mapX f xs = Inr ys \<Longrightarrow> list_all2 (\<lambda>x y. f x = Inr y) xs ys"
  by (induction xs arbitrary: ys) (auto simp: bindX_Inr_iff)

lemma json_get_size: "json_get obj key = v \<Longrightarrow> v \<noteq> JNull \<Longrightarrow> size v \<le> size_list (size_prod (\<lambda>_. 0) size) obj"
proof -
  assume v: "json_get obj key = v" "v \<noteq> JNull"
  then have "(key, v) \<in> set obj" by (auto simp: json_get_def split: option.splits dest: map_of_SomeD)
  then have "size_prod (\<lambda>_. 0) size (key, v) \<le> size_list (size_prod (\<lambda>_. 0) size) obj"
    by (rule size_list_estimation' [OF _ order.refl])
  then show ?thesis by simp
qed

text \<open>
  The constructors. An outer object is a message; an inner one gets its type after its sub-testcases
  are known. An empty array leaves \<^verbatim>\<open>sub\<close> null, and its iterator is asked for all the same.
\<close>

function parse_testcase :: "(json \<Rightarrow> string) \<Rightarrow> bool \<Rightarrow> json \<Rightarrow> jexn + jtestcase" where
  "parse_testcase show_json message v =
     (case v of
        JObj obj \<Rightarrow>
          bindX (cast_string (json_get obj ''receiver'')) (\<lambda>receiver.
          bindX (cast_string (json_get obj ''reporter'')) (\<lambda>reporter.
          bindX (cast_string (json_get obj ''name'')) (\<lambda>name.
          bindX (cast_string (json_get obj ''id'')) (\<lambda>tid.
          bindX (parse_value show_json obj) (\<lambda>(vt, val).
          bindX (cast_string (json_get obj ''op'')) (\<lambda>opr.
          bindX (case json_get obj ''sub'' of
                   JNull \<Rightarrow> Inr None
                 | JArr vs \<Rightarrow> if vs = [] then Inl NullPointer
                             else bindX (mapX (parse_testcase show_json False) vs) (\<lambda>ts. Inr (Some ts))
                 | _ \<Rightarrow> Inl ClassCast) (\<lambda>sub.
            Inr (JTestcase (if message then TC_MESSAGE else if sub = None then TC_ATTRIBUTE else TC_PAYLOAD)
                   name receiver reporter tid opr vt val sub))))))))
      | JNull \<Rightarrow> Inl NullPointer
      | _ \<Rightarrow> Inl ClassCast)"
  by pat_completeness auto
termination
proof (relation "measure (\<lambda>(sh, m, v). size v)", simp, clarsimp)
  fix obj :: "(string \<times> json) list" and vs z
  assume a: "json_get obj ''sub'' = JArr vs" and z: "z \<in> set vs"
  have "size z < size (JArr vs)" using size_list_estimation' [OF z order.refl, of size] by simp
  also have "\<dots> \<le> size_list (size_prod (\<lambda>_. 0) size) obj" using json_get_size [OF a] by simp
  finally show "size z < Suc (size_list (size_prod (\<lambda>_. 0) size) obj)" by simp
qed

declare parse_testcase.simps [simp del]

text \<open>
  \<^verbatim>\<open>Testcases\<close>: the messages of one test, and the identifier of the first of them.
\<close>

definition parse_testcases :: "(json \<Rightarrow> string) \<Rightarrow> (string \<times> json) list \<Rightarrow> jexn + (jtestcase list \<times> string option)" where
  "parse_testcases show_json obj =
     bindX (cast_array (json_get obj ''testcase'')) (\<lambda>arr.
       case arr of
         None \<Rightarrow> Inl NullPointer
       | Some vs \<Rightarrow>
           bindX (mapX (parse_testcase show_json True) vs) (\<lambda>messages.
             case messages of
               [] \<Rightarrow> Inl IndexOutOfBounds
             | m # _ \<Rightarrow> Inr (messages, jt_id m)))"

section \<open>Iterators\<close>

text \<open>
  A testcase with the position of its iterator over the sub-testcases.
\<close>

datatype itestcase =
  ITestcase (it_name: string) (it_op: "string option") (it_value: "(value_type \<times> string) option")
    (it_sub: "itestcase list option") (it_pos: nat)

text \<open>
  \<^verbatim>\<open>sendMessage\<close> with its calls of \<^verbatim>\<open>getNextSubTestcase\<close>: it sends the sub-testcases that the iterator
  still has, and leaves the iterator at the end.
\<close>

fun send_iter :: "string \<Rightarrow> string \<Rightarrow> bool \<Rightarrow> itestcase \<Rightarrow> string list \<times> itestcase" where
  "send_iter ispi rspi message (ITestcase n opr v sub pos) =
     (let start = (if message \<or> sub \<noteq> None then CHR ''2'' else CHR ''1'')
                    # ispi @ rspi @ tc_text (Testcase n opr v None) @ [NL];
          stop = (if message \<or> sub \<noteq> None then [CHR ''3'' # ispi @ rspi @ [NL]] else [])
      in case sub of
           None \<Rightarrow> (start # stop, ITestcase n opr v None pos)
         | Some ts \<Rightarrow>
             let rs = drop pos (map (send_iter ispi rspi False) ts)
             in (start # concat (map fst rs) @ stop,
                 ITestcase n opr v (Some (take pos ts @ map snd rs)) (max pos (length ts))))"

text \<open>\<^verbatim>\<open>resetIterator\<close> of a testcase goes down to all sub-testcases.\<close>

fun reset_iter :: "itestcase \<Rightarrow> itestcase" where
  "reset_iter (ITestcase n opr v sub pos) =
     (case sub of
        None \<Rightarrow> ITestcase n opr v None pos
      | Some ts \<Rightarrow> ITestcase n opr v (Some (map reset_iter ts)) 0)"

text \<open>A testcase as the constructor leaves it.\<close>

fun fresh_iter :: "testcase \<Rightarrow> itestcase" where
  "fresh_iter (Testcase n opr v sub) = ITestcase n opr v (map_option (map fresh_iter) sub) 0"

text \<open>What the constructor read, as the text that is sent: a missing name is printed as null.\<close>

fun testcase_of :: "jtestcase \<Rightarrow> testcase" where
  "testcase_of (JTestcase ty name receiver reporter tid opr vt val sub) =
     Testcase (case name of None \<Rightarrow> ''null'' | Some n \<Rightarrow> n) opr
       (case (vt, val) of (Some t, Some w) \<Rightarrow> Some (t, w) | _ \<Rightarrow> None)
       (map_option (map testcase_of) sub)"

section \<open>Lemmas\<close>

text \<open>
  The types that the constructors give: below a message everything is an attribute or a payload,
  a payload has sub-testcases and an attribute has none, and a value comes with its type.
\<close>

fun well_typed :: "bool \<Rightarrow> jtestcase \<Rightarrow> bool" where
  "well_typed message (JTestcase ty name receiver reporter tid opr vt val sub) =
     ((ty = TC_MESSAGE) = message \<and> (ty = TC_ATTRIBUTE \<longrightarrow> sub = None) \<and> (ty = TC_PAYLOAD \<longrightarrow> sub \<noteq> None) \<and>
      sub \<noteq> Some [] \<and> (vt = None) = (val = None) \<and>
      (case sub of None \<Rightarrow> True | Some ts \<Rightarrow> \<forall>t\<in>set ts. well_typed False t))"

lemma parse_value_both: "parse_value show_json obj = Inr (vt, val) \<Longrightarrow> (vt = None) = (val = None)"
  by (auto simp: parse_value_def bindX_Inr_iff split: json.splits)

lemma mapX_ball:
  assumes "mapX f xs = Inr ys" and "\<And>x y. x \<in> set xs \<Longrightarrow> f x = Inr y \<Longrightarrow> P y"
  shows "\<forall>y\<in>set ys. P y"
proof
  fix y assume "y \<in> set ys"
  then obtain i where i: "i < length ys" "y = ys ! i" by (auto simp: in_set_conv_nth)
  have l: "list_all2 (\<lambda>x y. f x = Inr y) xs ys" by (rule mapX_Inr [OF assms(1)])
  then have "i < length xs" using i(1) by (simp add: list_all2_lengthD)
  then show "P y" using assms(2) [of "xs ! i" y] list_all2_nthD [OF l, of i] i by simp
qed

lemma mapX_length: "mapX f xs = Inr ys \<Longrightarrow> length ys = length xs"
  by (induction xs arbitrary: ys) (auto simp: bindX_Inr_iff)

lemma parse_well_typed: "parse_testcase show_json message v = Inr t \<Longrightarrow> well_typed message t"
proof (induction show_json message v arbitrary: t rule: parse_testcase.induct)
  case (1 show_json message v)
  obtain obj where v: "v = JObj obj"
    using "1.prems" by (cases v) (simp_all add: parse_testcase.simps)
  from "1.prems" v obtain receiver reporter name tid vt val opr sub where
    p: "parse_value show_json obj = Inr (vt, val)"
    and s: "(case json_get obj ''sub'' of JNull \<Rightarrow> Inr None
        | JArr vs \<Rightarrow> if vs = [] then Inl NullPointer
                    else bindX (mapX (parse_testcase show_json False) vs) (\<lambda>ts. Inr (Some ts))
        | _ \<Rightarrow> Inl ClassCast) = Inr sub"
    and c: "cast_string (json_get obj ''receiver'') = Inr receiver" "cast_string (json_get obj ''reporter'') = Inr reporter"
      "cast_string (json_get obj ''name'') = Inr name" "cast_string (json_get obj ''id'') = Inr tid"
      "cast_string (json_get obj ''op'') = Inr opr"
    and t: "t = JTestcase (if message then TC_MESSAGE else if sub = None then TC_ATTRIBUTE else TC_PAYLOAD)
        name receiver reporter tid opr vt val sub"
    unfolding v parse_testcase.simps [of show_json message "JObj obj"] json.case bindX_Inr_iff
      split_paired_Ex prod.case by (elim exE conjE) (blast dest: sum.inject(2) [THEN iffD1])
  show ?case
  proof (cases "json_get obj ''sub''")
    case (JArr vs)
    then obtain ts where ts: "mapX (parse_testcase show_json False) vs = Inr ts" "vs \<noteq> []" "sub = Some ts"
      using s by (auto simp: bindX_Inr_iff split: if_splits)
    have "\<forall>u\<in>set ts. well_typed False u"
      using "1.IH" [OF v c(1-4) p refl c(5) JArr ts(2)] by (intro mapX_ball [OF ts(1)]) blast
    moreover have "ts \<noteq> []" using mapX_length [OF ts(1)] ts(2) by auto
    ultimately show ?thesis using t ts(3) parse_value_both [OF p] by simp
  qed (use s t parse_value_both [OF p] in simp_all)
qed

lemma tc_text_sub: "tc_text (Testcase n opr v sub) = tc_text (Testcase n opr v None)"
  by (simp add: tc_text_def split: option.split)

text \<open>The first pass over a testcase sends all of it.\<close>

lemma send_iter_fresh: "fst (send_iter ispi rspi message (fresh_iter tc)) = sendMessage ispi rspi message tc"
proof (induction ispi rspi message tc rule: sendMessage.induct)
  case (1 ispi rspi message n opr v sub)
  show ?case
  proof (cases sub)
    case None
    then show ?thesis by (simp add: Let_def)
  next
    case (Some ts)
    then have "map (\<lambda>x. fst (send_iter ispi rspi False (fresh_iter x))) ts = map (sendMessage ispi rspi False) ts"
      using "1.IH" by simp
    from arg_cong [OF this, of concat] show ?thesis
      using Some tc_text_sub [of n opr v "Some ts"] by (simp add: Let_def comp_def)
  qed
qed

text \<open>A testcase whose iterator is at the end.\<close>

definition spent :: "itestcase \<Rightarrow> bool" where
  "spent it \<longleftrightarrow> (case it_sub it of None \<Rightarrow> True | Some ts \<Rightarrow> length ts \<le> it_pos it)"

lemma send_iter_spends: "spent (snd (send_iter ispi rspi message it))"
  by (cases it) (auto simp: spent_def Let_def split: option.splits)

lemma send_iter_keeps:
  "it_name (snd (send_iter ispi rspi message it)) = it_name it" "it_op (snd (send_iter ispi rspi message it)) = it_op it"
  "it_value (snd (send_iter ispi rspi message it)) = it_value it"
  by (cases it; simp add: Let_def split: option.splits)+

lemma send_iter_spent:
  "spent it \<Longrightarrow> fst (send_iter ispi rspi True it) = sendMessage ispi rspi True (Testcase (it_name it) (it_op it) (it_value it) None)"
  by (cases it) (auto simp: spent_def Let_def split: option.splits)

lemma reset_send_iter: "reset_iter (snd (send_iter ispi rspi message it)) = reset_iter it"
proof (induction ispi rspi message it rule: send_iter.induct)
  case (1 ispi rspi message n opr v sub pos)
  show ?case
  proof (cases sub)
    case None
    then show ?thesis by simp
  next
    case (Some ts)
    have "\<forall>t\<in>set ts. reset_iter (snd (send_iter ispi rspi False t)) = reset_iter t"
      using "1.IH" [OF refl refl Some] by (simp add: Let_def)
    then have d: "map (\<lambda>t. reset_iter (snd (send_iter ispi rspi False t))) (drop pos ts) = map reset_iter (drop pos ts)"
      by (auto dest: in_set_dropD)
    have "map reset_iter (take pos ts @ map snd (drop pos (map (send_iter ispi rspi False) ts))) =
        map reset_iter (take pos ts) @ map (\<lambda>t. reset_iter (snd (send_iter ispi rspi False t))) (drop pos ts)"
      by (simp add: drop_map comp_def)
    also have "\<dots> = map reset_iter (take pos ts @ drop pos ts)" by (simp only: d map_append)
    finally have "map reset_iter (take pos ts @ map snd (drop pos (map (send_iter ispi rspi False) ts))) = map reset_iter ts"
      by (simp only: append_take_drop_id)
    then show ?thesis using Some by (simp add: Let_def)
  qed
qed

lemma reset_fresh: "reset_iter (fresh_iter tc) = fresh_iter tc"
proof (induction tc rule: fresh_iter.induct)
  case (1 n opr v sub)
  then show ?case by (cases sub) simp_all
qed

lemma fresh_iter_fields: "it_name (fresh_iter tc) = tc_name tc" "it_op (fresh_iter tc) = tc_op tc" "it_value (fresh_iter tc) = tc_value tc"
  by (cases tc; simp)+

end
