(* ===== verification/Controller_Log.thy ===== *)
theory Controller_Log
  imports Controller_Testcase
begin

text \<open>
  The replies that the main controller reads: the log of a message (\<^verbatim>\<open>MessageLog\<close> of
  \<^verbatim>\<open>QueryReplyLogger.java\<close>) and the reading loop of \<^verbatim>\<open>processResult\<close> of \<^verbatim>\<open>Controller.java\<close>, which turns
  the lines of a component into such a log.
\<close>

section \<open>Message logs\<close>

datatype mlog_type = ML_MESSAGE | ML_PAYLOAD | ML_ATTRIBUTE

datatype mlog =
  MLog (ml_type: mlog_type) (ml_ispi: "string option") (ml_rspi: "string option") (ml_name: "string option")
    (ml_vtype: value_type) (ml_value: "string option") (ml_sub: "mlog list")

definition new_mlog :: "mlog_type \<Rightarrow> mlog" where
  "new_mlog ty = MLog ty None None None VT_NONE None []"

text \<open>A log whose only content is its name.\<close>

definition named_mlog :: "string \<Rightarrow> mlog" where
  "named_mlog name = MLog ML_MESSAGE None None (Some name) VT_NONE None []"

fun set_mlog_ispi :: "string \<Rightarrow> mlog \<Rightarrow> mlog" where
  "set_mlog_ispi ispi (MLog ty i r n vt v sub) = MLog ty (Some ispi) r n vt v sub"

fun set_mlog_rspi :: "string \<Rightarrow> mlog \<Rightarrow> mlog" where
  "set_mlog_rspi rspi (MLog ty i r n vt v sub) = MLog ty i (Some rspi) n vt v sub"

fun set_mlog_name :: "string \<Rightarrow> mlog \<Rightarrow> mlog" where
  "set_mlog_name name (MLog ty i r n vt v sub) = MLog ty i r (Some name) vt v sub"

fun set_mlog_value :: "value_type \<Rightarrow> string \<Rightarrow> mlog \<Rightarrow> mlog" where
  "set_mlog_value vt val (MLog ty i r n vt' v sub) = MLog ty i r n vt (Some val) sub"

fun add_mlog :: "mlog \<Rightarrow> mlog \<Rightarrow> mlog" where
  "add_mlog child (MLog ty i r n vt v sub) = MLog ty i r n vt v (sub @ [child])"

text \<open>
  The reference \<^verbatim>\<open>mlog\<close> of the loop: the log it points to, and the chain of its parents. A log is put
  under its parent when the reference leaves it.
\<close>

type_synonym mref = "mlog \<times> mlog list"

definition addSubmessage :: "mlog_type \<Rightarrow> mref \<Rightarrow> mref" where
  "addSubmessage ty z = (new_mlog ty, fst z # snd z)"

definition to_parent :: "mref \<Rightarrow> mref" where
  "to_parent z = (case snd z of [] \<Rightarrow> z | p # ps \<Rightarrow> (add_mlog (fst z) p, ps))"

text \<open>The walk up to the message, which carries the SPIs.\<close>

fun message_of :: "mlog \<Rightarrow> mlog list \<Rightarrow> jexn + mlog" where
  "message_of m ps =
     (if ml_type m = ML_MESSAGE then Inr m
      else case ps of [] \<Rightarrow> Inl NullPointer | p # ps' \<Rightarrow> message_of p ps')"

fun on_message :: "(mlog \<Rightarrow> mlog) \<Rightarrow> mlog \<Rightarrow> mlog list \<Rightarrow> mref" where
  "on_message f m ps =
     (if ml_type m = ML_MESSAGE then (f m, ps)
      else case ps of [] \<Rightarrow> (m, ps) | p # ps' \<Rightarrow> (case on_message f p ps' of (p', ps'') \<Rightarrow> (m, p' # ps'')))"

declare message_of.simps [simp del] on_message.simps [simp del]

definition note_ispi :: "string \<Rightarrow> mref \<Rightarrow> jexn + mref" where
  "note_ispi ispi z =
     bindX (message_of (fst z) (snd z)) (\<lambda>m.
       Inr (if ml_ispi m = None then on_message (set_mlog_ispi ispi) (fst z) (snd z) else z))"

definition note_rspi :: "string \<Rightarrow> mref \<Rightarrow> jexn + mref" where
  "note_rspi rspi z =
     bindX (message_of (fst z) (snd z)) (\<lambda>m.
       Inr (if ml_rspi m = None then on_message (set_mlog_rspi rspi) (fst z) (snd z) else z))"

section \<open>Java strings\<close>

text \<open>\<^verbatim>\<open>s.split(":", 0)\<close>: the pieces between the colons, without the empty ones at the end.\<close>

fun pieces :: "string \<Rightarrow> string list" where
  "pieces [] = [[]]"
| "pieces (c # cs) =
     (if c = CHR '':'' then [] # pieces cs
      else case pieces cs of [] \<Rightarrow> [[c]] | p # ps \<Rightarrow> (c # p) # ps)"

definition java_split :: "string \<Rightarrow> string list" where
  "java_split s =
     (if CHR '':'' \<in> set s then rev (dropWhile (\<lambda>p. p = []) (rev (pieces s))) else [s])"

text \<open>\<^verbatim>\<open>Integer.parseInt\<close> on a text of decimal digits with an optional sign.\<close>

definition parse_nat :: "string \<Rightarrow> nat option" where
  "parse_nat s =
     (if s \<noteq> [] \<and> (\<forall>c\<in>set s. is_digit c) then Some (number_of_digits 10 (map digit_val s)) else None)"

definition parseInt :: "string \<Rightarrow> jexn + int" where
  "parseInt s =
     (let (sign, t) = (case s of
                         [] \<Rightarrow> (1, [])
                       | c # cs \<Rightarrow> if c = CHR ''-'' then (- 1, cs) else if c = CHR ''+'' then (1, cs) else (1, s))
      in case parse_nat t of
           None \<Rightarrow> Inl NumberFormat
         | Some n \<Rightarrow>
             if - (2 ^ 31) \<le> sign * int n \<and> sign * int n < 2 ^ 31 then Inr (sign * int n) else Inl NumberFormat)"

text \<open>\<^verbatim>\<open>setValueType\<close> of a log.\<close>

definition value_type_of :: "int \<Rightarrow> value_type" where
  "value_type_of n =
     (if n = 2 then VT_INTEGER else if n = 3 then VT_UINT8 else if n = 4 then VT_UINT8H
      else if n = 5 then VT_UINT16 else if n = 6 then VT_UINT16H else if n = 7 then VT_UINT32
      else if n = 8 then VT_UINT32H else if n = 9 then VT_UINT64 else if n = 10 then VT_UINT64H
      else if n = 11 then VT_STRING else VT_NONE)"

section \<open>One line\<close>

text \<open>The switch on the type of a line, with the size of the stack.\<close>

definition move_mlog :: "nat \<Rightarrow> mref option \<Rightarrow> nat \<Rightarrow> jexn + (mref option \<times> nat)" where
  "move_mlog type z d =
     (if type = 1 then Inr (map_option (addSubmessage ML_ATTRIBUTE) z, d)
      else if type = 2 then
        Inr (Some (case z of None \<Rightarrow> (new_mlog ML_MESSAGE, []) | Some z' \<Rightarrow> addSubmessage ML_PAYLOAD z'), d + 1)
      else if type = 3 then
        (case z of
           None \<Rightarrow> Inl NullPointer
         | Some z' \<Rightarrow> if d = 0 then Inl EmptyStack else Inr (Some (to_parent z'), d - 1))
      else Inr (z, d))"

text \<open>The text behind the SPIs: the name, and a value with its type when there are three parts.\<close>

definition note_text :: "string \<Rightarrow> mref \<Rightarrow> jexn + mref" where
  "note_text rstr z =
     (case java_split rstr of
        [] \<Rightarrow> Inl IndexOutOfBounds
      | name # parts \<Rightarrow>
          let z' = (set_mlog_name name (fst z), snd z)
          in (case parts of
                [vt, val] \<Rightarrow>
                  bindX (parseInt vt) (\<lambda>n. Inr (set_mlog_value (value_type_of n) val (fst z'), snd z'))
              | _ \<Rightarrow> Inr z'))"

text \<open>
  A line of more than sixteen characters. The first part of the result is the reference and the size
  of the stack; the second one is what the line adds to the text \<^verbatim>\<open>print\<close>.
\<close>

definition result_line :: "string \<Rightarrow> mref option \<Rightarrow> nat \<Rightarrow> (jexn + (mref \<times> nat)) \<times> string" where
  "result_line l z d =
     (let rstr = drop 33 l;
          moved = bindX (move_mlog (of_char (l ! 0)) z d) (\<lambda>(z1, d1).
            case z1 of
              None \<Rightarrow> Inl NullPointer
            | Some z2 \<Rightarrow>
                bindX (note_ispi (take 16 (drop 1 l)) z2) (\<lambda>z3.
                  if length l < 33 then Inl IndexOutOfBounds
                  else bindX (note_rspi (take 16 (drop 17 l)) z3) (\<lambda>z4. Inr (z4, d1))))
      in case moved of
           Inl e \<Rightarrow> (Inl e, [])
         | Inr (z4, d1) \<Rightarrow>
             (bindX (if rstr \<noteq> [] then note_text rstr z4 else Inr z4) (\<lambda>z5.
                Inr (if ml_type (fst z5) = ML_ATTRIBUTE then to_parent z5 else z5, d1)), rstr))"

section \<open>The loop\<close>

text \<open>
  What a call of \<^verbatim>\<open>readLine\<close> can meet: a line, no data before the timeout, the end of the connection (a
  null reference, also for every later call), or an error. A peer that says nothing more is a timeout.
\<close>

datatype read_event = Line string | Timeout | Eof | IOErr

text \<open>
  The loop over the lines: short lines are skipped, the loop ends when the stack is empty. The result
  is the log or the exception, the events that are left, and \<^verbatim>\<open>print\<close>.
\<close>

fun result_loop ::
  "read_event list \<Rightarrow> mref option \<Rightarrow> nat \<Rightarrow> (jexn + mlog) \<times> read_event list \<times> string" where
  "result_loop [] z d = (Inl SocketTimeout, [], replicate (2 * d) (CHR '' ''))"
| "result_loop (Timeout # es) z d = (Inl SocketTimeout, es, replicate (2 * d) (CHR '' ''))"
| "result_loop (IOErr # es) z d = (Inl IOException, es, replicate (2 * d) (CHR '' ''))"
| "result_loop (Eof # es) z d = (Inl NullPointer, Eof # es, replicate (2 * d) (CHR '' ''))"
| "result_loop (Line l # es) z d =
     (if length l \<le> 16 then result_loop es z d
      else
        (case result_line l z d of
           (Inl e, text) \<Rightarrow> (Inl e, es, replicate (2 * d) (CHR '' '') @ text)
         | (Inr (z', d'), text) \<Rightarrow>
             if d' \<noteq> 0 then result_loop es (Some z') d'
             else (Inr (fst z'), es, replicate (2 * d) (CHR '' '') @ text)))"

section \<open>Lemmas\<close>

lemma pieces_no_colon: "CHR '':'' \<notin> set s \<Longrightarrow> pieces s = [s]"
  by (induction s) auto

lemma java_split_plain: "CHR '':'' \<notin> set s \<Longrightarrow> java_split s = [s]"
  by (simp add: java_split_def)

text \<open>A message without parts: its first line names it, its last line closes it.\<close>

lemma result_line_start:
  assumes "length ispi = 16" and "length rspi = 16" and "name \<noteq> []" and "CHR '':'' \<notin> set name"
  shows "result_line (char_of (2 :: nat) # ispi @ rspi @ name) None 0 =
    (Inr ((MLog ML_MESSAGE (Some ispi) (Some rspi) (Some name) VT_NONE None [], []), 1), name)"
  using assms
  by (simp add: result_line_def move_mlog_def new_mlog_def note_ispi_def note_rspi_def message_of.simps
      on_message.simps note_text_def java_split_plain Let_def)

lemma pieces_two: "CHR '':'' \<notin> set (a @ b) \<Longrightarrow> pieces (a @ CHR '':'' # b) = [a, b]"
  by (induction a) (auto simp: pieces_no_colon)

lemma result_line_end:
  assumes "length ispi = 16" and "length rspi = 16"
  shows "result_line (char_of (3 :: nat) # ispi @ rspi)
      (Some (MLog ML_MESSAGE (Some i) (Some r) (Some name) VT_NONE None [], [])) 1 =
    (Inr ((MLog ML_MESSAGE (Some i) (Some r) (Some name) VT_NONE None [], []), 0), [])"
  using assms
  by (simp add: result_line_def move_mlog_def to_parent_def note_ispi_def note_rspi_def message_of.simps Let_def)

lemma result_line_end_text:
  assumes "length ispi = 16" and "length rspi = 16" and "b \<noteq> []" and "CHR '':'' \<notin> set (a @ b)"
  shows "result_line (char_of (3 :: nat) # ispi @ rspi @ a @ CHR '':'' # b)
      (Some (MLog ML_MESSAGE (Some i) (Some r) (Some name) VT_NONE None [], [])) 1 =
    (Inr ((MLog ML_MESSAGE (Some i) (Some r) (Some a) VT_NONE None [], []), 0), a @ CHR '':'' # b)"
proof -
  have "java_split (a @ CHR '':'' # b) = [a, b]" using assms(3) pieces_two [OF assms(4)] by (simp add: java_split_def)
  then show ?thesis
    using assms(1,2)
    by (simp add: result_line_def move_mlog_def to_parent_def note_ispi_def note_rspi_def message_of.simps
        note_text_def Let_def)
qed

end
