(* ===== verification/Controller_Run.thy ===== *)
theory Controller_Run
  imports Controller_Log
begin

text \<open>
  The main controller at work (\<^verbatim>\<open>Controller.java\<close>): its connections to the UE controller, the ePDG and
  the IMS server, the commands it sends, the execution of a testcase message by message, and the run of
  one test with both oracles. What the peers answer is a list of events per connection; writing to a
  connection succeeds. Sleeping and the console are left out.
\<close>

section \<open>The state\<close>

datatype peer = UE | EPDG | IMS

datatype process = Start_EPDG | Kill_EPDG | Kill_IMS

text \<open>
  What the current connections still deliver, whether a timeout was set on them, the lines written so
  far, the outcomes of the further attempts to connect (\<open>None\<close> is a refused one), the processes started,
  and the model of the UE.
\<close>

record ctrl_t =
  c_in :: "peer \<Rightarrow> read_event list"
  c_timed :: "peer \<Rightarrow> bool"
  c_out :: "peer \<Rightarrow> string list"
  c_conns :: "peer \<Rightarrow> read_event list option list"
  c_runs :: "process list"
  c_model :: "string option"

text \<open>A method: it returns or throws, and leaves the state it reached.\<close>

type_synonym 'a prog = "ctrl_t \<Rightarrow> (jexn + 'a) \<times> ctrl_t"

definition returnJ :: "'a \<Rightarrow> 'a prog" where
  "returnJ x s = (Inr x, s)"

definition throwJ :: "jexn \<Rightarrow> 'a prog" where
  "throwJ e s = (Inl e, s)"

definition bindJ :: "'a prog \<Rightarrow> ('a \<Rightarrow> 'b prog) \<Rightarrow> 'b prog" where
  "bindJ m f s = (case m s of (Inl e, s') \<Rightarrow> (Inl e, s') | (Inr x, s') \<Rightarrow> f x s')"

text \<open>\<^verbatim>\<open>try ... catch (Exception e)\<close>: neither the end of the program nor an endless loop is caught.\<close>

definition caught :: "jexn \<Rightarrow> bool" where
  "caught e \<longleftrightarrow> (case e of Exit _ \<Rightarrow> False | Forever \<Rightarrow> False | _ \<Rightarrow> True)"

definition tryJ :: "'a prog \<Rightarrow> (jexn \<Rightarrow> 'a prog) \<Rightarrow> 'a prog" where
  "tryJ m f s = (case m s of (Inl e, s') \<Rightarrow> if caught e then f e s' else (Inl e, s') | r \<Rightarrow> r)"

section \<open>Connections\<close>

definition writeLine :: "peer \<Rightarrow> string \<Rightarrow> unit prog" where
  "writeLine p l s = (Inr (), s\<lparr>c_out := (c_out s)(p := c_out s p @ [l @ [NL]])\<rparr>)"

definition runProcess :: "process \<Rightarrow> unit prog" where
  "runProcess x s = (Inr (), s\<lparr>c_runs := c_runs s @ [x]\<rparr>)"

text \<open>
  \<^verbatim>\<open>readLine\<close>: the end of the stream stays, and a peer that says nothing any more lets the reader wait,
  without end unless the socket has a timeout.
\<close>

fun read_next :: "bool \<Rightarrow> read_event list \<Rightarrow> (jexn + string option) \<times> read_event list" where
  "read_next timed [] = (Inl (if timed then SocketTimeout else Forever), [])"
| "read_next timed (Timeout # es) = (if timed then (Inl SocketTimeout, es) else read_next timed es)"
| "read_next timed (IOErr # es) = (Inl IOException, es)"
| "read_next timed (Eof # es) = (Inr None, Eof # es)"
| "read_next timed (Line l # es) = (Inr (Some l), es)"

definition readLine :: "peer \<Rightarrow> string option prog" where
  "readLine p s = (case read_next (c_timed s p) (c_in s p) of (r, es) \<Rightarrow> (r, s\<lparr>c_in := (c_in s)(p := es)\<rparr>))"

definition setSoTimeout :: "peer \<Rightarrow> unit prog" where
  "setSoTimeout p s = (Inr (), s\<lparr>c_timed := (c_timed s)(p := True)\<rparr>)"

text \<open>A new socket has no timeout.\<close>

definition new_socket :: "peer \<Rightarrow> read_event list \<Rightarrow> ctrl_t \<Rightarrow> ctrl_t" where
  "new_socket p es s = s\<lparr>c_in := (c_in s)(p := es), c_timed := (c_timed s)(p := False)\<rparr>"

text \<open>
  A command and its answer, inside a \<^verbatim>\<open>try\<close> that leaves the answer empty; \<open>None\<close> is the null reference.
\<close>

definition ask :: "peer \<Rightarrow> string \<Rightarrow> string option prog" where
  "ask p l = tryJ (bindJ (writeLine p l) (\<lambda>_. readLine p)) (\<lambda>_. returnJ (Some []))"

text \<open>\<^verbatim>\<open>result.contains("ACK")\<close>.\<close>

definition has_ack :: "string option \<Rightarrow> bool prog" where
  "has_ack r = (case r of None \<Rightarrow> throwJ NullPointer | Some l \<Rightarrow> returnJ (strstr l ''ACK''))"

subsection \<open>Connecting\<close>

text \<open>
  After a refused connection every command to the UE controller fails; the commands are still listed as
  written.
\<close>

definition initUEConnection :: "unit prog" where
  "initUEConnection s =
     (case c_conns s UE of
        [] \<Rightarrow> (Inr (), s)
      | None # cs \<Rightarrow> (Inr (), s\<lparr>c_conns := (c_conns s)(UE := cs)\<rparr>)
      | Some es # cs \<Rightarrow>
          tryJ (bindJ (writeLine UE ''device'') (\<lambda>_. bindJ (readLine UE) (\<lambda>r s'. (Inr (), s'\<lparr>c_model := r\<rparr>))))
            (\<lambda>_. returnJ ())
            (new_socket UE es (s\<lparr>c_conns := (c_conns s)(UE := cs)\<rparr>)))"

definition startEPDG :: "unit prog" where "startEPDG = runProcess Start_EPDG"

text \<open>The command that would start the server is commented out.\<close>

definition startIMS :: "unit prog" where "startIMS = returnJ ()"

definition killEPDG :: "unit prog" where "killEPDG = runProcess Kill_EPDG"
definition killIMS :: "unit prog" where "killIMS = runProcess Kill_IMS"

text \<open>
  \<^verbatim>\<open>initEPDGConnection\<close> calls itself after every failure: a refused connection, or anything but a line in
  answer to the greeting. A peer that accepts the connection and says nothing blocks it. The argument is the list of the attempts that are still to come; when it is
  exhausted the recursion goes on without end.
\<close>

primrec connect :: "peer \<Rightarrow> unit prog \<Rightarrow> read_event list option list \<Rightarrow> unit prog" where
  "connect p start [] s = (Inl Forever, s\<lparr>c_conns := (c_conns s)(p := [])\<rparr>)"
| "connect p start (c # cs) s =
     (case c of
        None \<Rightarrow> bindJ start (\<lambda>_. connect p start cs) s
      | Some es \<Rightarrow>
          (case bindJ (writeLine p ''Hello'') (\<lambda>_. readLine p) (new_socket p es s) of
             (Inr (Some _), s') \<Rightarrow> (Inr (), s'\<lparr>c_conns := (c_conns s')(p := cs)\<rparr>)
           | (Inl Forever, s') \<Rightarrow> (Inl Forever, s'\<lparr>c_conns := (c_conns s')(p := cs)\<rparr>)
           | (_, s') \<Rightarrow> bindJ start (\<lambda>_. connect p start cs) s'))"

definition initEPDGConnection :: "unit prog" where
  "initEPDGConnection s = connect EPDG startEPDG (c_conns s EPDG) s"

definition initIMSConnection :: "unit prog" where
  "initIMSConnection s = connect IMS startIMS (c_conns s IMS) s"

definition new_Controller :: "unit prog" where
  "new_Controller = bindJ initUEConnection (\<lambda>_. bindJ initEPDGConnection (\<lambda>_. initIMSConnection))"

definition restartEPDG :: "unit prog" where
  "restartEPDG = bindJ killEPDG (\<lambda>_. bindJ startEPDG (\<lambda>_. initEPDGConnection))"

definition restartIMS :: "unit prog" where
  "restartIMS = bindJ killIMS (\<lambda>_. bindJ startIMS (\<lambda>_. initIMSConnection))"

subsection \<open>Liveness of the servers\<close>

text \<open>The loop that waits for an acknowledgement: \<open>False\<close> is any exception.\<close>

fun await_ack :: "read_event list \<Rightarrow> bool \<times> read_event list" where
  "await_ack [] = (False, [])"
| "await_ack (Timeout # es) = (False, es)"
| "await_ack (IOErr # es) = (False, es)"
| "await_ack (Eof # es) = (False, Eof # es)"
| "await_ack (Line l # es) = (if strstr l ''ACK'' then (True, es) else await_ack es)"

definition greet :: "peer \<Rightarrow> bool prog" where
  "greet p =
     bindJ (setSoTimeout p) (\<lambda>_. bindJ (writeLine p ''Hello'') (\<lambda>_ s.
       case await_ack (c_in s p) of (b, es) \<Rightarrow> (Inr b, s\<lparr>c_in := (c_in s)(p := es)\<rparr>)))"

definition isEPDGAlive :: "bool prog" where
  "isEPDGAlive =
     bindJ (greet EPDG) (\<lambda>b. if b then returnJ True else bindJ initEPDGConnection (\<lambda>_. returnJ False))"

definition isIMSAlive :: "bool prog" where
  "isIMSAlive =
     bindJ (greet IMS) (\<lambda>b. if b then returnJ True else bindJ initIMSConnection (\<lambda>_. returnJ False))"

definition handleEPDGIMSFailure :: "unit prog" where
  "handleEPDGIMSFailure = tryJ (bindJ restartEPDG (\<lambda>_. restartIMS)) (\<lambda>_. returnJ ())"

definition handleTimeout :: "unit prog" where
  "handleTimeout =
     bindJ isEPDGAlive (\<lambda>e.
       if \<not> e then handleEPDGIMSFailure
       else bindJ isIMSAlive (\<lambda>i. if \<not> i then handleEPDGIMSFailure else returnJ ()))"

section \<open>Commands\<close>

definition initEPDG :: "bool prog" where
  "initEPDG = bindJ (ask EPDG ''init'') has_ack"

text \<open>The answer is looked at, but the method returns true whatever it is.\<close>

definition initIMS :: "bool prog" where
  "initIMS = bindJ (ask IMS ''init'') (\<lambda>r. bindJ (has_ack r) (\<lambda>_. returnJ True))"

text \<open>Switching the radio: an exception, a missing answer included, counts as a failure.\<close>

definition wifi :: "string \<Rightarrow> bool prog" where
  "wifi cmd =
     tryJ (bindJ (setSoTimeout UE) (\<lambda>_. bindJ (writeLine UE cmd) (\<lambda>_. bindJ (readLine UE) has_ack)))
       (\<lambda>_. returnJ False)"

definition sendDisableWiFi :: "bool prog" where "sendDisableWiFi = wifi ''wifi_off''"
definition sendEnableWiFi :: "bool prog" where "sendEnableWiFi = wifi ''wifi_on''"

definition finEPDG :: "bool prog" where
  "finEPDG = bindJ sendDisableWiFi (\<lambda>_. bindJ (writeLine EPDG ''fin'') (\<lambda>_. returnJ False))"

definition finIMS :: "bool prog" where
  "finIMS = bindJ (writeLine IMS ''fin'') (\<lambda>_. returnJ False)"

definition resetUE :: "bool prog" where
  "resetUE = bindJ (ask UE ''reset'') has_ack"

definition rebootUE :: "bool prog" where
  "rebootUE = bindJ sendDisableWiFi (\<lambda>_. bindJ (setSoTimeout UE) (\<lambda>_. bindJ (ask UE ''ue_reboot'') has_ack))"

definition restartUEAdbServer :: "string option prog" where
  "restartUEAdbServer = ask UE ''adb_server_restart''"

text \<open>
  \<^verbatim>\<open>sendEnableVoWiFi\<close>: three attempts to switch the radio off, reset both servers and switch it on, then
  one reboot. An exception in the last part ends the method as if it had succeeded.
\<close>

primrec enable_loop :: "nat \<Rightarrow> bool prog" where
  "enable_loop 0 = returnJ False"
| "enable_loop (Suc retry) =
     bindJ sendDisableWiFi (\<lambda>d.
     bindJ (if d then
              bindJ initEPDG (\<lambda>e.
                if e then bindJ initIMS (\<lambda>i. if i then sendEnableWiFi else returnJ False) else returnJ False)
            else returnJ False) (\<lambda>enabled.
       if enabled then returnJ True else enable_loop retry))"

definition sendEnableVoWiFi :: "unit prog" where
  "sendEnableVoWiFi =
     tryJ
       (bindJ (enable_loop 3) (\<lambda>enabled.
        bindJ (setSoTimeout UE) (\<lambda>_.
          if enabled then returnJ ()
          else
            bindJ (writeLine UE ''ue_reboot'') (\<lambda>_.
            bindJ (readLine UE) (\<lambda>r.
            bindJ (has_ack r) (\<lambda>b. if b then returnJ () else throwJ (Exit 1)))))))
       (\<lambda>_. returnJ ())"

section \<open>Messages\<close>

text \<open>A message of a testcase with the fields that change while the test runs. Its name is not null.\<close>

record message_t =
  tm_tc :: itestcase
  tm_receiver :: "string option"
  tm_reporter :: "string option"
  tm_ispi :: "string option"
  tm_rspi :: "string option"

definition spi_text :: "string option \<Rightarrow> string" where
  "spi_text spi = (case spi of None \<Rightarrow> ''0000000000000000'' | Some t \<Rightarrow> t)"

definition send_msg :: "peer \<Rightarrow> message_t \<Rightarrow> message_t prog" where
  "send_msg p m s =
     (case send_iter (spi_text (tm_ispi m)) (spi_text (tm_rspi m)) True (tm_tc m) of (ls, tc) \<Rightarrow>
        (Inr (m\<lparr>tm_tc := tc\<rparr>), s\<lparr>c_out := (c_out s)(p := c_out s p @ ls)\<rparr>))"

text \<open>
  \<^verbatim>\<open>processResult\<close>: reads the log of a message from the component that reports it. A timeout and any
  other exception give a log of their own, and so do the remarks of the ePDG on a failed exchange, which
  are looked for in the text of the last line.
\<close>

definition reporter_peer :: "string \<Rightarrow> peer option" where
  "reporter_peer reporter =
     (if strstr reporter ''epdg'' then Some EPDG else if strstr reporter ''ims'' then Some IMS else None)"

definition read_result :: "peer \<Rightarrow> (mlog \<times> string) prog" where
  "read_result p s =
     (case result_loop (c_in s p) None 0 of (r, es, text) \<Rightarrow>
        let s' = s\<lparr>c_in := (c_in s)(p := es), c_timed := (c_timed s)(p := True)\<rparr>
        in case r of
             Inr m \<Rightarrow> bindJ (setSoTimeout EPDG) (\<lambda>_. returnJ (m, text)) s'
           | Inl e \<Rightarrow>
               if e = SocketTimeout then bindJ handleTimeout (\<lambda>_. returnJ (named_mlog ''timeout'', text)) s'
               else bindJ rebootUE (\<lambda>_. returnJ (named_mlog ''null_action'', text)) s')"

definition remark :: "message_t \<Rightarrow> mlog \<Rightarrow> string \<Rightarrow> (mlog \<times> message_t) prog" where
  "remark m l text =
     (if strstr text ''retest_required:auth_failed'' then
        bindJ rebootUE (\<lambda>_. returnJ (named_mlog ''retest'', m))
      else if strstr text ''retransmission:no_proposal_chosen'' \<or> strstr text ''retransmission:invalid_ke_payload'' then
        returnJ (named_mlog ''retransmission'', m\<lparr>tm_tc := reset_iter (tm_tc m)\<rparr>)
      else returnJ (l, m))"

definition processResult :: "message_t \<Rightarrow> string option \<Rightarrow> (mlog \<times> message_t) prog" where
  "processResult m reporter =
     (case reporter of
        None \<Rightarrow> bindJ rebootUE (\<lambda>_. throwJ NullPointer)
      | Some rep \<Rightarrow>
          (case reporter_peer rep of
             Some p \<Rightarrow> bindJ (read_result p) (\<lambda>(l, text). remark m l text)
           | None \<Rightarrow> bindJ (setSoTimeout EPDG) (\<lambda>_.
                 if strstr rep ''none'' then returnJ (named_mlog ''done'', m) else throwJ NullPointer)))"

section \<open>Executing a testcase\<close>

subsection \<open>Before and after\<close>

abbreviation DEFAULT_NUMBER_OF_TRIALS :: nat where "DEFAULT_NUMBER_OF_TRIALS \<equiv> 3"

text \<open>The loop \<^verbatim>\<open>do { trial++; ret = ...; } while (ret == false && trial < 3)\<close>: the number of trials made.\<close>

primrec trial_loop :: "nat \<Rightarrow> nat \<Rightarrow> bool prog \<Rightarrow> nat prog" where
  "trial_loop 0 trial init = returnJ trial"
| "trial_loop (Suc k) trial init =
     bindJ init (\<lambda>ret.
       if \<not> ret \<and> trial + 1 < DEFAULT_NUMBER_OF_TRIALS then trial_loop k (trial + 1) init
       else returnJ (trial + 1))"

definition try_init :: "bool prog \<Rightarrow> unit prog" where
  "try_init init =
     bindJ (trial_loop DEFAULT_NUMBER_OF_TRIALS 0 init) (\<lambda>trial.
       if trial = DEFAULT_NUMBER_OF_TRIALS then throwJ (Exit 1) else returnJ ())"

definition reset_once :: "bool prog" where
  "reset_once =
     tryJ
       (bindJ (try_init initEPDG) (\<lambda>_. bindJ (try_init initIMS) (\<lambda>_.
          bindJ isEPDGAlive (\<lambda>e. if e then isIMSAlive else returnJ False))))
       (\<lambda>_. returnJ False)"

text \<open>
  The loop goes on until the reset is done, with a bound on the iterations. New readers are put on the
  connections afterwards; \<open>buffered p\<close> is the number of events the old reader of \<open>p\<close> had already taken.
\<close>

primrec reset_loop :: "nat \<Rightarrow> unit prog" where
  "reset_loop 0 = throwJ Forever"
| "reset_loop (Suc fuel) = bindJ reset_once (\<lambda>resetDone. if resetDone then returnJ () else reset_loop fuel)"

definition pre :: "nat \<Rightarrow> (peer \<Rightarrow> nat) \<Rightarrow> unit prog" where
  "pre fuel buffered =
     bindJ (reset_loop fuel) (\<lambda>_ s. (Inr (), s\<lparr>c_in := (\<lambda>p. drop (buffered p) (c_in s p))\<rparr>))"

definition post :: "unit prog" where
  "post = bindJ finEPDG (\<lambda>_. bindJ finIMS (\<lambda>_. returnJ ()))"

subsection \<open>One message\<close>

text \<open>A query with its reply; the reply is null when the query already asks for a retest.\<close>

type_synonym pair_t = "mlog \<times> mlog option"

definition getQueryName :: "pair_t \<Rightarrow> string option" where
  "getQueryName pair = ml_name (fst pair)"

definition getReplyName :: "pair_t \<Rightarrow> string option" where
  "getReplyName pair = (case snd pair of None \<Rightarrow> None | Some l \<Rightarrow> ml_name l)"

text \<open>\<^verbatim>\<open>name.equals(s)\<close> on a name that may be null.\<close>

definition name_is :: "mlog \<Rightarrow> string \<Rightarrow> bool prog" where
  "name_is l t = (case ml_name l of None \<Rightarrow> throwJ NullPointer | Some n \<Rightarrow> returnJ (n = t))"

definition send_query :: "message_t \<Rightarrow> (mlog \<times> message_t) prog" where
  "send_query m =
     (case tm_receiver m of
        None \<Rightarrow> throwJ NullPointer
      | Some receiver \<Rightarrow>
          if take 4 receiver = ''epdg'' then bindJ (send_msg EPDG m) (\<lambda>m'. processResult m' (Some receiver))
          else if take 3 receiver = ''ims'' then bindJ (send_msg IMS m) (\<lambda>m'. processResult m' (Some receiver))
          else bindJ sendEnableVoWiFi (\<lambda>_. returnJ (named_mlog ''enable_vowifi'', m)))"

text \<open>\<^verbatim>\<open>step\<close>: the pair, or null when the message has to be sent again.\<close>

definition step :: "message_t \<Rightarrow> (pair_t option \<times> message_t) prog" where
  "step m =
     bindJ (send_query m) (\<lambda>(query, m1).
     bindJ (name_is query ''retest'') (\<lambda>q.
       if q then returnJ (Some (query, None), m1)
       else
         bindJ (processResult m1 (tm_reporter m1)) (\<lambda>(reply, m2).
         bindJ (name_is reply ''retest'') (\<lambda>r.
           if r then returnJ (Some (query, Some reply), m2)
           else
             bindJ (name_is query ''retransmission'') (\<lambda>qr.
             bindJ (name_is reply ''retransmission'') (\<lambda>rr.
               if qr \<or> rr then returnJ (None, m2\<lparr>tm_ispi := ml_ispi reply, tm_rspi := ml_rspi reply\<rparr>)
               else returnJ (Some (query, Some reply), m2)))))))"

primrec step_loop :: "nat \<Rightarrow> message_t \<Rightarrow> (pair_t \<times> message_t) prog" where
  "step_loop 0 m = throwJ Forever"
| "step_loop (Suc fuel) m =
     bindJ (step m) (\<lambda>(pair, m'). case pair of None \<Rightarrow> step_loop fuel m' | Some pr \<Rightarrow> returnJ (pr, m'))"

subsection \<open>All messages\<close>

text \<open>The name of a message that stands for no message: it contains the letter epsilon, here in UTF-8.\<close>

definition is_epsilon :: "message_t \<Rightarrow> bool" where
  "is_epsilon m = strstr (it_name (tm_tc m)) [CHR 0xCE, CHR 0xB5]"

definition put_spis :: "string option \<Rightarrow> string option \<Rightarrow> message_t \<Rightarrow> message_t" where
  "put_spis ispi rspi m =
     m\<lparr>tm_ispi := (if ispi = None then tm_ispi m else ispi), tm_rspi := (if rspi = None then tm_rspi m else rspi)\<rparr>"

text \<open>
  How the loop over the messages ends: the test has to be repeated at once, a reply reported an
  exception, or all messages were handled.
\<close>

datatype run_end = Retest | Reported_Exception | Completed "pair_t list"

definition add_pair :: "pair_t \<Rightarrow> run_end \<Rightarrow> run_end" where
  "add_pair pair r = (case r of Completed ps \<Rightarrow> Completed (pair # ps) | _ \<Rightarrow> r)"

fun message_loop ::
  "nat \<Rightarrow> message_t list \<Rightarrow> string option \<Rightarrow> string option \<Rightarrow> bool \<Rightarrow> (run_end \<times> message_t list) prog" where
  "message_loop fuel [] ispi rspi timeout = returnJ (Completed [], [])"
| "message_loop fuel (m # ms) ispi rspi timeout =
     (let m1 = put_spis ispi rspi m
      in if is_epsilon m1 \<or> timeout then
           bindJ (message_loop fuel ms ispi rspi timeout) (\<lambda>(r, ms'). returnJ (r, m1 # ms'))
         else
           bindJ (step_loop fuel m1) (\<lambda>(pair, m2).
             if getQueryName pair = Some ''retest'' \<or> getReplyName pair = Some ''retest'' then returnJ (Retest, m2 # ms)
             else
               (case snd pair of
                  None \<Rightarrow> throwJ NullPointer
                | Some reply \<Rightarrow>
                    if ml_name reply = Some ''exception'' then returnJ (Reported_Exception, m2 # ms)
                    else
                      bindJ (message_loop fuel ms (if ispi = None then ml_ispi reply else ispi)
                               (if rspi = None then ml_rspi reply else rspi) (ml_name reply = Some ''timeout''))
                        (\<lambda>(r, ms'). returnJ (add_pair pair r, m2 # ms')))))"

text \<open>
  \<^verbatim>\<open>executeTestcase\<close>: the pairs, or null, and the messages as they are left. The iterator over the messages
  is at their beginning in every call.
\<close>

definition executeTestcase ::
  "nat \<Rightarrow> (peer \<Rightarrow> nat) \<Rightarrow> message_t list \<Rightarrow> (pair_t list option \<times> message_t list) prog" where
  "executeTestcase fuel buffered ms =
     bindJ (pre fuel buffered) (\<lambda>_.
     bindJ (message_loop fuel ms None None False) (\<lambda>(r, ms').
       case r of
         Retest \<Rightarrow> returnJ (None, ms')
       | Reported_Exception \<Rightarrow> bindJ post (\<lambda>_. returnJ (None, ms'))
       | Completed ps \<Rightarrow>
           bindJ post (\<lambda>_. if ps = [] then throwJ IndexOutOfBounds else returnJ (Some ps, ms'))))"

section \<open>The oracles\<close>

text \<open>The replies that belong to the queries of a normal run (\<^verbatim>\<open>Oracle.java\<close>).\<close>

definition normal_replies :: "(string \<times> string) list" where
  "normal_replies =
     [(''enable_vowifi'', ''ike_sa_init_request''), (''ike_sa_init_response'', ''ike_auth_1_request''),
      (''ike_auth_1_response'', ''ike_auth_2_request''), (''ike_auth_2_response'', ''ike_auth_3_request''),
      (''ike_auth_3_response'', ''register_1''), (''401_unauthorized'', ''register_2''), (''200_ok'', ''done'')]"

definition isNormalSequence :: "string \<Rightarrow> string \<Rightarrow> bool" where
  "isNormalSequence query reply = (\<forall>(q, r)\<in>set normal_replies. strstr query q \<longrightarrow> strstr reply r)"

definition names_of :: "pair_t \<Rightarrow> jexn + (string \<times> string)" where
  "names_of pair =
     (case (getQueryName pair, getReplyName pair) of
        (Some q, Some r) \<Rightarrow> Inr (q, r)
      | _ \<Rightarrow> Inl NullPointer)"

definition getFunctionalOracleResult :: "pair_t list \<Rightarrow> jexn + int" where
  "getFunctionalOracleResult pairs =
     (if pairs = [] then Inl IndexOutOfBounds
      else
        (case getReplyName (last pairs) of
           None \<Rightarrow> Inl NullPointer
         | Some reply \<Rightarrow>
             if strstr reply ''timeout'' then Inr 0
             else
               (case getQueryName (last pairs) of
                  None \<Rightarrow> Inl NullPointer
                | Some query \<Rightarrow> Inr (if isNormalSequence query reply then 2 else 1))))"

text \<open>One iteration of the liveness oracle: after the third protected response a timeout is accepted too.\<close>

definition live_pair :: "string \<Rightarrow> string \<Rightarrow> bool" where
  "live_pair query reply =
     (\<forall>(q, r)\<in>set normal_replies.
        strstr query q \<longrightarrow> strstr reply r \<or> q = ''ike_auth_3_response'' \<and> strstr reply ''timeout'')"

fun live_loop :: "int \<Rightarrow> pair_t list \<Rightarrow> jexn + int" where
  "live_loop ret [] = Inr ret"
| "live_loop ret (pair # pairs) =
     bindX (names_of pair) (\<lambda>(query, reply).
       if strstr reply ''client_error'' then Inr 2
       else live_loop (if live_pair query reply then ret else 1) pairs)"

definition getLivenessOracleResult :: "pair_t list option \<Rightarrow> jexn + int" where
  "getLivenessOracleResult pairs = (case pairs of None \<Rightarrow> Inl NullPointer | Some ps \<Rightarrow> live_loop 0 ps)"

section \<open>One test\<close>

definition liftX :: "jexn + 'a \<Rightarrow> 'a prog" where
  "liftX r s = (r, s)"

text \<open>
  The loop that repeats a test until it gives pairs; \<^verbatim>\<open>resetIterator\<close> of the test sets back the iterator
  over the messages, not those of the messages themselves.
\<close>

definition first_timed_out :: "pair_t list \<Rightarrow> jexn + bool" where
  "first_timed_out pairs =
     (case pairs of
        [] \<Rightarrow> Inr True
      | pair # _ \<Rightarrow>
          (case getQueryName pair of
             None \<Rightarrow> Inl NullPointer
           | Some query \<Rightarrow>
               if strstr query ''enable_vowifi'' then
                 (case getReplyName pair of
                    None \<Rightarrow> Inl NullPointer
                  | Some reply \<Rightarrow> Inr (strstr reply ''timeout''))
               else Inr False))"

primrec repeat_test ::
  "nat \<Rightarrow> nat \<Rightarrow> (peer \<Rightarrow> nat) \<Rightarrow> message_t list \<Rightarrow> (pair_t list \<times> message_t list) prog" where
  "repeat_test 0 fuel buffered ms = throwJ Forever"
| "repeat_test (Suc k) fuel buffered ms =
     bindJ (executeTestcase fuel buffered ms) (\<lambda>(pairs, ms').
       case pairs of
         None \<Rightarrow> repeat_test k fuel buffered ms'
       | Some ps \<Rightarrow>
           bindJ (liftX (first_timed_out ps)) (\<lambda>b.
             if b then bindJ rebootUE (\<lambda>_. repeat_test k fuel buffered ms') else returnJ (ps, ms')))"

text \<open>The loop that looks for a client error in the replies.\<close>

fun any_client_error :: "pair_t list \<Rightarrow> jexn + bool" where
  "any_client_error [] = Inr False"
| "any_client_error (pair # pairs) =
     (case getReplyName pair of
        None \<Rightarrow> Inl NullPointer
      | Some reply \<Rightarrow> if strstr reply ''client_error'' then Inr True else any_client_error pairs)"

text \<open>
  One iteration of the loop of \<^verbatim>\<open>main\<close>: the test, the functional oracle, the liveness test if there is
  one, and a reboot when it failed. The results are the pairs of the test and the verdicts.
\<close>

definition run_test ::
  "nat \<Rightarrow> (peer \<Rightarrow> nat) \<Rightarrow> message_t list \<Rightarrow> message_t list option \<Rightarrow>
   (pair_t list \<times> int \<times> int \<times> message_t list \<times> message_t list option) prog" where
  "run_test fuel buffered ms live =
     bindJ (repeat_test fuel fuel buffered ms) (\<lambda>(pairs, ms').
     bindJ (liftX (getFunctionalOracleResult pairs)) (\<lambda>r1.
     bindJ sendDisableWiFi (\<lambda>_.
     bindJ (case live of
              None \<Rightarrow> returnJ (Some pairs, None)
            | Some lms \<Rightarrow>
                bindJ (executeTestcase fuel buffered lms) (\<lambda>(lpairs, lms'). returnJ (lpairs, Some lms')))
       (\<lambda>(lpairs, live').
     bindJ (if live = None then returnJ 0 else liftX (getLivenessOracleResult lpairs)) (\<lambda>r2.
     bindJ (liftX (case lpairs of None \<Rightarrow> Inl NullPointer | Some ps \<Rightarrow> any_client_error ps)) (\<lambda>needReboot.
     bindJ (if 0 < r2 \<or> needReboot then rebootUE else returnJ False) (\<lambda>_.
       returnJ (pairs, r1, r2, ms', live'))))))))"

text \<open>The tests that \<^verbatim>\<open>main\<close> skips until the one given on the command line.\<close>

fun skip_tests :: "string option \<Rightarrow> int \<Rightarrow> int \<Rightarrow> bool \<Rightarrow> string option list \<Rightarrow> jexn + bool list" where
  "skip_tests startID startNum num matched [] = Inr []"
| "skip_tests startID startNum num matched (tid # tids) =
     bindX (if matched then Inr True
            else case tid of None \<Rightarrow> Inl NullPointer | Some t \<Rightarrow> Inr (Some t = startID \<or> num + 1 = startNum))
       (\<lambda>m. bindX (skip_tests startID startNum (num + 1) m tids) (\<lambda>ms. Inr (m # ms)))"

end
