(* ===== verification/Ue_Controller.thy ===== *)
theory Ue_Controller
  imports Controller_Run
begin

text \<open>
  The UE controller (\<^verbatim>\<open>ue_controller.py\<close>): it reads commands of the main controller byte by byte, drives the
  phone with commands of the tool adb and answers. The phone is a parameter: what a command prints,
  given the commands that were run before. Pauses and the console are left out.
\<close>

section \<open>The state\<close>

type_synonym command = "string list"

type_synonym phone_t = "command list \<Rightarrow> command \<Rightarrow> string"

text \<open>
  The commands run so far, what was sent to the client, whether the connection is open, and the readings
  of the clock that are still to come.
\<close>

record ue_t =
  u_cmds :: "command list"
  u_sent :: "string list"
  u_open :: bool
  u_clock :: "int list"

definition run_cmd :: "phone_t \<Rightarrow> command \<Rightarrow> ue_t \<Rightarrow> string \<times> ue_t" where
  "run_cmd phone cmd s = (phone (u_cmds s) cmd, s\<lparr>u_cmds := u_cmds s @ [cmd]\<rparr>)"

text \<open>Commands whose output is not looked at.\<close>

definition run_all :: "command list \<Rightarrow> ue_t \<Rightarrow> ue_t" where
  "run_all cmds s = s\<lparr>u_cmds := u_cmds s @ cmds\<rparr>"

definition client_send :: "string \<Rightarrow> ue_t \<Rightarrow> ue_t" where
  "client_send l s = s\<lparr>u_sent := u_sent s @ [l]\<rparr>"

abbreviation ACK :: string where "ACK \<equiv> ''ACK'' @ [NL]"
abbreviation FAIL :: string where "FAIL \<equiv> ''Fail'' @ [NL]"
abbreviation REBOOT_TIMEOUT :: int where "REBOOT_TIMEOUT \<equiv> 120"

section \<open>The phone\<close>

definition keyevent :: "string \<Rightarrow> command" where
  "keyevent key = [''adb'', ''shell'', ''input'', ''keyevent'', key]"

definition dumpsys_wifi :: command where
  "dumpsys_wifi = [''adb'', ''shell'', ''dumpsys'', ''wifi'', [CHR 0x7C], ''grep'', CHR 0x22 # ''Wi-Fi is'' @ [CHR 0x22]]"

definition start_activity :: "string \<Rightarrow> command" where
  "start_activity activity =
     [''adb'', ''shell'', ''am'', ''start'', ''-a'', ''android.intent.action.MAIN'', ''-n'', activity]"

definition ue_wakeup :: "ue_t \<Rightarrow> ue_t" where
  "ue_wakeup = run_all [keyevent ''224'', keyevent ''82'']"

definition toggled_devices :: "string list" where
  "toggled_devices = [''moto_e5_plus'', ''HTC_U11'', ''Blackview_A55'', ''OnePlus_Nord_N20'', ''T-mobile_Revvl4'']"

text \<open>
  Both ways of switching the radio: the phones of the list above have their switch in the settings
  pressed when the radio is in the state \<open>state\<close>, and once more if it is still in it.
\<close>

definition toggle_wifi :: "phone_t \<Rightarrow> string \<Rightarrow> ue_t \<Rightarrow> ue_t" where
  "toggle_wifi phone state s =
     (let (result, s1) = run_cmd phone dumpsys_wifi s
      in if strstr result state then
           let s2 = ue_wakeup s1;
               s3 = run_all [start_activity ''com.android.settings/.wifi.WifiSettings'', keyevent ''23''] s2;
               (output, s4) = run_cmd phone dumpsys_wifi s3
           in if strstr output state then run_all [keyevent ''23''] s4 else s4
         else s1)"

definition handle_turn_off_wifi_interface :: "phone_t \<Rightarrow> string \<Rightarrow> ue_t \<Rightarrow> ue_t" where
  "handle_turn_off_wifi_interface phone device s =
     (if device = ''SM_G920T'' then run_all [[''adb'', ''shell'', ''su'', ''-c'', ''svc'', ''wifi'', ''disable'']] s
      else if device \<in> set toggled_devices then toggle_wifi phone ''enabled'' s
      else run_all [[''adb'', ''shell'', ''svc'', ''wifi'', ''disable'']] s)"

definition handle_turn_on_wifi_interface :: "phone_t \<Rightarrow> string \<Rightarrow> ue_t \<Rightarrow> ue_t" where
  "handle_turn_on_wifi_interface phone device s =
     (if device = ''SM_G920T'' then run_all [[''adb'', ''shell'', ''su'', ''-c'', ''svc'', ''wifi'', ''enable'']] s
      else if device \<in> set toggled_devices then toggle_wifi phone ''disabled'' s
      else run_all [[''adb'', ''shell'', ''svc'', ''wifi'', ''enable'']] s)"

definition reboot_cmd :: command where
  "reboot_cmd = [''adb'', ''reboot'']"

definition ue_reboot :: "ue_t \<Rightarrow> ue_t" where
  "ue_reboot = run_all [reboot_cmd]"

definition adb_server_restart :: "ue_t \<Rightarrow> ue_t" where
  "adb_server_restart = run_all [[''adb'', ''kill-server''], [''adb'', ''start-server'']]"

definition init_config_cmds :: "string \<Rightarrow> command list" where
  "init_config_cmds device =
     (if device = ''Z8850K'' then
        [keyevent ''20'', keyevent ''23'', keyevent ''82'', start_activity ''com.telephony.service/.wfc.WfcAliasActivity'']
        @ replicate 2 (keyevent ''23'')
      else if device = ''A13_Pro'' then
        [keyevent ''82'', start_activity ''com.android.settings/.wifi.calling.WifiCallingSuggestionActivity'']
        @ replicate 3 (keyevent ''23'')
      else if device = ''T608M'' then
        [keyevent ''82'', [''adb'', ''shell'', ''input'', ''swipe'', ''200'', ''500'', ''200'', ''0'']]
      else [])"

definition handle_init_config :: "string \<Rightarrow> ue_t \<Rightarrow> ue_t" where
  "handle_init_config device =
     run_all ([''adb'', ''shell'', ''svc'', ''power'', ''stayon'', ''true''] # init_config_cmds device)"

section \<open>Commands of the main controller\<close>

text \<open>
  \<^verbatim>\<open>handle_reset\<close>: before the acknowledgement stands an expression over a name that is not defined, so the
  handler always raises; the result is the state it reaches.
\<close>

definition handle_reset :: "phone_t \<Rightarrow> string \<Rightarrow> ue_t \<Rightarrow> ue_t" where
  "handle_reset phone device s =
     ue_wakeup (handle_turn_on_wifi_interface phone device (handle_turn_off_wifi_interface phone device s))"

definition devices_cmd :: command where
  "devices_cmd = [''adb'', ''devices'', ''-l'']"

text \<open>
  The loop that waits for the phone after a reboot, on the readings of the clock: the device is back, the
  time is over for the fourth time, or (\<open>None\<close>) the loop still waits when the readings end.
\<close>

primrec reboot_loop ::
  "phone_t \<Rightarrow> string \<Rightarrow> int \<Rightarrow> int list \<Rightarrow> nat \<Rightarrow> ue_t \<Rightarrow> bool option \<times> int list \<times> ue_t" where
  "reboot_loop phone device start [] cnt s =
     (case run_cmd phone devices_cmd s of (output, s1) \<Rightarrow>
        if strstr output device then (Some True, [], s1) else (None, [], s1))"
| "reboot_loop phone device start (now # clock) cnt s =
     (case run_cmd phone devices_cmd s of (output, s1) \<Rightarrow>
        if strstr output device then (Some True, now # clock, s1)
        else if REBOOT_TIMEOUT \<le> now - start then
          if cnt < 3 then reboot_loop phone device start clock (cnt + 1) (ue_reboot s1)
          else (Some False, clock, s1)
        else reboot_loop phone device start clock cnt s1)"

text \<open>\<open>None\<close> is a handler that does not return.\<close>

definition handle_ue_reboot :: "phone_t \<Rightarrow> string \<Rightarrow> ue_t \<Rightarrow> ue_t option" where
  "handle_ue_reboot phone device s =
     (case u_clock s of
        [] \<Rightarrow> None
      | start # clock \<Rightarrow>
          (case reboot_loop phone device start clock 0 (ue_reboot s) of
             (None, _, _) \<Rightarrow> None
           | (Some success, clock', s1) \<Rightarrow>
               let s2 = s1\<lparr>u_clock := clock'\<rparr>
               in Some (if success then client_send ACK (handle_init_config device s2)
                        else client_send FAIL s2)))"

definition handle_adb_server_restart :: "ue_t \<Rightarrow> ue_t" where
  "handle_adb_server_restart s = client_send ACK (adb_server_restart s)"

text \<open>The name of a device that is sent to the main controller.\<close>

definition sent_names :: "(string \<times> string) list" where
  "sent_names =
     [(''B15 model'', ''NUU_B15''), (''LM_Q730'', ''LG_Stylo_6''), (''Note_14'', ''Ulefone_Note_14''),
      (''Z8850K'', ''ZTE_Stage_5G''), (''T608M'', ''TCL_40XL''), (''CPH2459'', ''OnePlus_Nord_N20''),
      (''A55'', ''Blackview_A55'')]"

definition sent_name :: "string \<Rightarrow> string" where
  "sent_name device = (case map_of sent_names device of None \<Rightarrow> device | Some name \<Rightarrow> name)"

text \<open>How the handling of a command ends.\<close>

datatype ue_result = Returned ue_t | Raised ue_t | Not_Returned

definition handle_opcode :: "phone_t \<Rightarrow> string \<Rightarrow> string \<Rightarrow> ue_t \<Rightarrow> ue_result" where
  "handle_opcode phone device opcode s0 =
     (let s = ue_wakeup s0
      in if opcode = ''reset'' then Raised (handle_reset phone device s)
         else if opcode = ''device'' then Returned (client_send (sent_name device @ [NL]) s)
         else if opcode = ''ue_reboot'' then
           (case handle_ue_reboot phone device s of None \<Rightarrow> Not_Returned | Some s' \<Rightarrow> Returned s')
         else if opcode = ''adb_server_restart'' then Returned (handle_adb_server_restart s)
         else if opcode = ''wifi_off'' then
           Returned (client_send ACK (handle_turn_off_wifi_interface phone device s))
         else if opcode = ''wifi_on'' then
           Returned (client_send ACK (handle_turn_on_wifi_interface phone device s))
         else Returned s)"

text \<open>\<^verbatim>\<open>str.strip\<close> on ASCII characters.\<close>

definition py_space :: "char \<Rightarrow> bool" where
  "py_space c \<longleftrightarrow> of_char c \<in> {9, 10, 11, 12, 13, 28, 29, 30, 31, 32 :: nat}"

definition py_strip :: "string \<Rightarrow> string" where
  "py_strip l = rev (dropWhile py_space (rev (dropWhile py_space l)))"

text \<open>
  The loop over the commands. A byte that is not ASCII cannot be decoded, which raises. At the end of
  the received bytes the loop waits; when the client has closed the connection it never ends, since the
  empty chunks that \<^verbatim>\<open>recv\<close> then returns never complete a line.
\<close>

datatype ue_end = Waiting_For_Client ue_t | Closed ue_t | Rebooting

definition close_client :: "phone_t \<Rightarrow> string \<Rightarrow> ue_t \<Rightarrow> ue_t" where
  "close_client phone device s = handle_turn_off_wifi_interface phone device (s\<lparr>u_open := False\<rparr>)"

primrec handle_client_connection :: "phone_t \<Rightarrow> string \<Rightarrow> string \<Rightarrow> string \<Rightarrow> ue_t \<Rightarrow> ue_end" where
  "handle_client_connection phone device [] opcode s = Waiting_For_Client s"
| "handle_client_connection phone device (c # cs) opcode s =
     (if 128 \<le> (of_char c :: nat) then Closed (close_client phone device s)
      else if c = NL then
        (case handle_opcode phone device (py_strip (opcode @ [c])) s of
           Returned s' \<Rightarrow> handle_client_connection phone device cs [] s'
         | Raised s' \<Rightarrow> Closed (close_client phone device s')
         | Not_Returned \<Rightarrow> Rebooting)
      else handle_client_connection phone device cs (opcode @ [c]) s)"

section \<open>Start\<close>

definition device_models :: "(string \<times> string) list" where
  "device_models =
     [(''G920T'', ''SM_G920T''), (''SM_A21'', ''SM_A21''), (''5062W'', ''T-mobile_Revvl4''),
      (''moto_e5_plus'', ''moto_e5_plus''), (''moto_g_power'', ''moto_g_power''), (''LM_G900TM'', ''LM_G900TM''),
      (''LM_Q730'', ''LM_Q730''), (''OnePlus7T'', ''OnePlus7T''), (''OnePlus9R'', ''OnePlus9R''),
      (''HTC_U11_life'', ''HTC_U11''), (''Blackview_A55'', ''Blackview_A55''), (''Z8850K'', ''Z8850K''),
      (''A55'', ''A55''), (''A13_Pro'', ''A13_Pro''), (''Pixel_4a'', ''Pixel_4a''), (''Pixel_6a'', ''Pixel_6a''),
      (''SOV41'', ''SOV41''), (''2201117TG'', ''Redmi_Note2''), (''LG_Q730'', ''LG_Q730''), (''T608M'', ''T608M''),
      (''I14_Pro_max'', ''I14_Pro_max''), (''I15_Pro_Max'', ''I15_Pro_Max''), (''Note_14'', ''Note_14''),
      (''B15 model'', ''B15 model''), (''Nokia_G100'', ''Nokia_G100''), (''CPH2459'', ''CPH2459''),
      (''OP5159L1'', ''OP5159L1''), (''motorola_edge_30_pro'', ''Motorola_Edge_30_Pro'')]"

definition model_of :: "string \<Rightarrow> string" where
  "model_of output =
     (case find (\<lambda>(pat, device). strstr output pat) device_models of
        None \<Rightarrow> ''others''
      | Some (pat, device) \<Rightarrow> device)"

definition check_device_model :: "phone_t \<Rightarrow> ue_t \<Rightarrow> string \<times> ue_t" where
  "check_device_model phone s = (case run_cmd phone devices_cmd s of (output, s1) \<Rightarrow> (model_of output, s1))"

text \<open>\<^verbatim>\<open>main\<close> once the client is connected, on the bytes that the client sends.\<close>

definition ue_main :: "phone_t \<Rightarrow> string \<Rightarrow> ue_t \<Rightarrow> ue_end" where
  "ue_main phone bytes s =
     (case check_device_model phone (adb_server_restart s) of (device, s1) \<Rightarrow>
        handle_client_connection phone device bytes []
          (handle_init_config device (handle_turn_off_wifi_interface phone device s1)))"

end
