(* ===== verification/Controller_Main.thy ===== *)
theory Controller_Main
  imports Controller_Run
begin

text \<open>
  The results of the tests (\<^verbatim>\<open>QueryReplyLogger\<close> of \<^verbatim>\<open>QueryReplyLogger.java\<close>) and the loop of \<^verbatim>\<open>main\<close> over all
  tests. A file is the identifier and the number in its name with its text; the timestamp in the name is
  left out, and the text of a duration is a parameter.
\<close>

section \<open>The logger\<close>

record qr_logger =
  ql_testcases :: "string list"
  ql_pairs :: "pair_t list list"
  ql_functional :: "int list"
  ql_liveness :: "int list"

definition new_QueryReplyLogger :: qr_logger where
  "new_QueryReplyLogger = \<lparr>ql_testcases = [], ql_pairs = [], ql_functional = [], ql_liveness = []\<rparr>"

definition addLog :: "string \<Rightarrow> pair_t list \<Rightarrow> qr_logger \<Rightarrow> qr_logger" where
  "addLog ts pair ql = ql\<lparr>ql_testcases := ql_testcases ql @ [ts], ql_pairs := ql_pairs ql @ [pair]\<rparr>"

definition addFunctionalOracleResult :: "int \<Rightarrow> qr_logger \<Rightarrow> qr_logger" where
  "addFunctionalOracleResult deviated ql = ql\<lparr>ql_functional := ql_functional ql @ [deviated]\<rparr>"

definition addLivenessOracleResult :: "int \<Rightarrow> qr_logger \<Rightarrow> qr_logger" where
  "addLivenessOracleResult unreliable ql = ql\<lparr>ql_liveness := ql_liveness ql @ [unreliable]\<rparr>"

text \<open>A null reference is printed as null.\<close>

definition shown_name :: "string option \<Rightarrow> string" where
  "shown_name name = (case name of None \<Rightarrow> ''null'' | Some n \<Rightarrow> n)"

definition pair_lines :: "pair_t \<Rightarrow> string" where
  "pair_lines pair =
     ''  Query: '' @ shown_name (getQueryName pair) @ [NL] @ ''  Reply: '' @ shown_name (getReplyName pair) @ [NL]"

definition functional_line :: "int \<Rightarrow> string" where
  "functional_line r1 =
     ''  Functional Oracle: '' @
     (if r1 = 0 then ''negative'' else if r1 = 1 then ''maybe'' else if r1 = 2 then ''positive'' else ''error'') @ [NL]"

definition liveness_line :: "int \<Rightarrow> string" where
  "liveness_line r2 =
     (if r2 = 0 then ''  Liveness Oracle: negative'' @ [NL]
      else if r2 = 1 then ''  Liveness Oracle: positive (not sending IKE_SA_INIT)'' @ [NL]
      else if r2 = 2 then ''  Liveness Oracle: positive (eap-aka client error)'' @ [NL]
      else [])"

text \<open>The last entry of a list, as \<^verbatim>\<open>get(size() - 1)\<close> reads it.\<close>

definition get_last :: "'a list \<Rightarrow> jexn + 'a" where
  "get_last xs = (if xs = [] then Inl IndexOutOfBounds else Inr (last xs))"

definition storeLog :: "string \<Rightarrow> qr_logger \<Rightarrow> jexn + string" where
  "storeLog duration ql =
     bindX (get_last (ql_testcases ql)) (\<lambda>tcs.
     bindX (get_last (ql_pairs ql)) (\<lambda>plst.
     bindX (get_last (ql_functional ql)) (\<lambda>r1result.
     bindX (get_last (ql_liveness ql)) (\<lambda>r2result.
       if plst = [] then Inl IndexOutOfBounds
       else Inr (''Testcase: '' @ tcs @ [NL] @ ''Message:'' @ [NL] @ concat (map pair_lines plst) @
                 ''Result:'' @ [NL] @ functional_line r1result @ liveness_line r2result @
                 ''Elapsed Time: '' @ duration @ '' ms'')))))"

section \<open>All tests\<close>

text \<open>A test: its identifier, its original text and its messages.\<close>

type_synonym test_t = "string option \<times> string \<times> message_t list"

text \<open>Whether the loop has reached the test to start with.\<close>

definition reached :: "string option \<Rightarrow> int \<Rightarrow> int \<Rightarrow> bool \<Rightarrow> string option \<Rightarrow> jexn + bool" where
  "reached startID startNum num matched tid =
     (if matched then Inr True
      else case tid of None \<Rightarrow> Inl NullPointer | Some t \<Rightarrow> Inr (Some t = startID \<or> num = startNum))"

fun main_loop ::
  "nat \<Rightarrow> (peer \<Rightarrow> nat) \<Rightarrow> (int \<Rightarrow> string) \<Rightarrow> string option \<Rightarrow> int \<Rightarrow> message_t list option \<Rightarrow> int \<Rightarrow> bool \<Rightarrow>
   qr_logger \<Rightarrow> test_t list \<Rightarrow> ((string option \<times> int \<times> string) list) prog" where
  "main_loop fuel buffered duration startID startNum live num matched ql [] = returnJ []"
| "main_loop fuel buffered duration startID startNum live num matched ql ((tid, orig, ms) # tests) =
     bindJ (liftX (reached startID startNum (num + 1) matched tid)) (\<lambda>m.
       if \<not> m then main_loop fuel buffered duration startID startNum live (num + 1) False ql tests
       else
         bindJ (run_test fuel buffered ms live) (\<lambda>(pairs, r1, r2, _, live').
           let ql' = addLivenessOracleResult r2 (addFunctionalOracleResult r1 (addLog orig pairs ql))
           in bindJ (liftX (storeLog (duration (num + 1)) ql')) (\<lambda>text.
              bindJ (main_loop fuel buffered duration startID startNum live' (num + 1) True ql' tests) (\<lambda>files.
                returnJ ((tid, num + 1, text) # files)))))"

definition main_tests ::
  "nat \<Rightarrow> (peer \<Rightarrow> nat) \<Rightarrow> (int \<Rightarrow> string) \<Rightarrow> string option \<Rightarrow> int \<Rightarrow> message_t list option \<Rightarrow> test_t list \<Rightarrow>
   ((string option \<times> int \<times> string) list) prog" where
  "main_tests fuel buffered duration startID startNum live tests =
     main_loop fuel buffered duration startID startNum live 0 (startID = None \<and> startNum = 0)
       new_QueryReplyLogger tests"

section \<open>Lemmas\<close>

lemma storeLog_last:
  "storeLog duration (addLivenessOracleResult r2 (addFunctionalOracleResult r1 (addLog ts pairs ql))) =
     (if pairs = [] then Inl IndexOutOfBounds
      else Inr (''Testcase: '' @ ts @ [NL] @ ''Message:'' @ [NL] @ concat (map pair_lines pairs) @
                ''Result:'' @ [NL] @ functional_line r1 @ liveness_line r2 @ ''Elapsed Time: '' @ duration @ '' ms''))"
  by (simp add: storeLog_def addLivenessOracleResult_def addFunctionalOracleResult_def addLog_def get_last_def)

lemma numbers_Suc:
  "map (\<lambda>k. num + 1 + int k) [0..<Suc n] = (num + 1) # map (\<lambda>k. num + 1 + 1 + int k) [0..<n]"
  by (rule nth_equalityI) (auto simp: nth_Cons simp del: upt_Suc split: nat.split)

text \<open>The tests that are stored: all from the first one that was reached.\<close>

lemma main_loop_matched:
  "main_loop fuel buffered duration startID startNum live num True ql tests s = (Inr files, s') \<Longrightarrow>
   map (\<lambda>(i, n, _). (i, n)) files = zip (map fst tests) (map (\<lambda>k. num + 1 + int k) [0..<length tests])"
proof (induction tests arbitrary: num ql live s files s')
  case (Cons t tests)
  obtain tid orig ms where t: "t = (tid, orig, ms)" by (cases t)
  from Cons.prems obtain shown files1 live' ql' s1 s2 where
    f: "files = (tid, num + 1, shown) # files1"
    and m: "main_loop fuel buffered duration startID startNum live' (num + 1) True ql' tests s1 = (Inr files1, s2)"
    unfolding t by (auto simp: bindJ_def returnJ_def liftX_def reached_def Let_def split: prod.splits sum.splits)
  show ?case using Cons.IH [OF m] f t by (simp add: numbers_Suc del: upt_Suc)
qed (simp add: returnJ_def)

lemma main_loop_unmatched:
  "main_loop fuel buffered duration startID startNum live num False ql tests s = (Inr files, s') \<Longrightarrow>
   \<exists>k\<le>length tests.
     map (\<lambda>(i, n, _). (i, n)) files = drop k (zip (map fst tests) (map (\<lambda>k. num + 1 + int k) [0..<length tests])) \<and>
     (\<forall>j<k. fst (tests ! j) \<noteq> startID \<and> num + 1 + int j \<noteq> startNum) \<and>
     (k < length tests \<longrightarrow> fst (tests ! k) = startID \<or> num + 1 + int k = startNum)"
proof (induction tests arbitrary: num s)
  case (Cons t tests)
  obtain tid orig ms where t: "t = (tid, orig, ms)" by (cases t)
  obtain m where m: "reached startID startNum (num + 1) False tid = Inr m"
    using Cons.prems t by (auto simp: bindJ_def liftX_def split: sum.splits)
  show ?case
  proof (cases m)
    case True
    then have "main_loop fuel buffered duration startID startNum live num True ql (t # tests) s = (Inr files, s')"
      using Cons.prems m t by (simp add: bindJ_def liftX_def reached_def)
    from main_loop_matched [OF this] show ?thesis
      using m True t by (intro exI [of _ 0]) (auto simp: reached_def split: option.splits)
  next
    case False
    then have "main_loop fuel buffered duration startID startNum live (num + 1) False ql tests s = (Inr files, s')"
      using Cons.prems m t by (simp add: bindJ_def liftX_def)
    from Cons.IH [OF this] obtain k where k: "k \<le> length tests"
      "map (\<lambda>(i, n, _). (i, n)) files = drop k (zip (map fst tests) (map (\<lambda>k. num + 1 + 1 + int k) [0..<length tests]))"
      "\<forall>j<k. fst (tests ! j) \<noteq> startID \<and> num + 1 + 1 + int j \<noteq> startNum"
      "k < length tests \<longrightarrow> fst (tests ! k) = startID \<or> num + 1 + 1 + int k = startNum" by blast
    have "tid \<noteq> startID \<and> num + 1 \<noteq> startNum" using m False by (auto simp: reached_def split: option.splits)
    then show ?thesis using k t
      by (intro exI [of _ "Suc k"]) (auto simp: numbers_Suc nth_Cons simp del: upt_Suc split: nat.split)
  qed
qed (simp add: returnJ_def)

end
