(* ===== verification/Ike_Payloads.thy ===== *)
theory Ike_Payloads
  imports Epdg_Listener
begin

text \<open>
  The objects of the IKE daemon that a query can change: the array of \<^verbatim>\<open>array.c\<close> with its
  enumerator, proposals (\<^verbatim>\<open>proposal.c\<close>), the IKE header, the identifier of the IKE_SA and the
  payloads with the setters the query processing calls.
\<close>

section \<open>Arrays\<close>

text \<open>
  The used elements are \<open>a_count\<close> slots from \<open>a_head\<close> on; the slots after them are the unused tail.
\<close>

record 'e array_t =
  a_data :: "'e list"
  a_head :: nat
  a_count :: nat

abbreviation ARRAY_MAX_UNUSED :: nat where "ARRAY_MAX_UNUSED \<equiv> 32"

definition array_elems :: "('e, 'x) array_t_scheme \<Rightarrow> 'e list" where
  "array_elems a = take (a_count a) (drop (a_head a) (a_data a))"

definition array_wf :: "('e, 'x) array_t_scheme \<Rightarrow> bool" where
  "array_wf a \<longleftrightarrow> a_head a + a_count a \<le> length (a_data a)"

definition a_tail :: "'e array_t \<Rightarrow> nat" where
  "a_tail a = length (a_data a) - (a_head a + a_count a)"

definition remove_tail :: "'e array_t \<Rightarrow> nat \<Rightarrow> 'e array_t" where
  "remove_tail a idx =
     a\<lparr>a_data := take (a_head a + idx) (a_data a)
                  @ take (a_count a - 1 - idx) (drop (a_head a + idx + 1) (a_data a))
                  @ drop (a_head a + a_count a - 1) (a_data a),
       a_count := a_count a - 1\<rparr>"

definition remove_head :: "'e array_t \<Rightarrow> nat \<Rightarrow> 'e array_t" where
  "remove_head a idx =
     a\<lparr>a_data := take (a_head a + 1) (a_data a) @ take idx (drop (a_head a) (a_data a))
                  @ drop (a_head a + 1 + idx) (a_data a),
       a_count := a_count a - 1, a_head := a_head a + 1\<rparr>"

definition array_compress :: "'e array_t \<Rightarrow> 'e array_t" where
  "array_compress a = a\<lparr>a_data := array_elems a, a_head := 0\<rparr>"

text \<open>The second component of the result tells whether the elements were moved to a new block.\<close>

definition array_remove :: "'e array_t \<Rightarrow> nat \<Rightarrow> 'e array_t \<times> bool" where
  "array_remove a idx =
     (if a_count a \<le> idx then (a, False)
      else
        let a' = (if a_count a div 2 < idx then remove_tail a idx else remove_head a idx)
        in if ARRAY_MAX_UNUSED < a_head a' + a_tail a' then (array_compress a', True) else (a', False))"

text \<open>An enumerator is its index; \<^verbatim>\<open>enumerate\<close> returns the slot of the element.\<close>

definition array_enumerate :: "'e array_t \<Rightarrow> nat \<Rightarrow> (nat \<times> nat) option" where
  "array_enumerate a idx = (if a_count a \<le> idx then None else Some (idx + a_head a, Suc idx))"

definition array_remove_at :: "'e array_t \<Rightarrow> nat \<Rightarrow> 'e array_t \<times> nat \<times> bool" where
  "array_remove_at a idx =
     (if idx \<noteq> 0 then (case array_remove a (idx - 1) of (a', moved) \<Rightarrow> (a', idx - 1, moved))
      else (a, idx, False))"

section \<open>Proposals\<close>

abbreviation ENCRYPTION_ALGORITHM :: int where "ENCRYPTION_ALGORITHM \<equiv> 1"
abbreviation PSEUDO_RANDOM_FUNCTION :: int where "PSEUDO_RANDOM_FUNCTION \<equiv> 2"
abbreviation INTEGRITY_ALGORITHM :: int where "INTEGRITY_ALGORITHM \<equiv> 3"
abbreviation DIFFIE_HELLMAN_GROUP :: int where "DIFFIE_HELLMAN_GROUP \<equiv> 4"

record entry_t =
  e_type :: int
  e_alg :: "16 word"
  e_key_size :: "16 word"

record proposal_t =
  p_transforms :: "entry_t array_t"
  p_spi :: "64 word"
  p_number :: "8 word"

text \<open>The first entry of a type, found by the filter of the enumerator.\<close>

fun alg_filter :: "int \<Rightarrow> entry_t list \<Rightarrow> (16 word \<times> 16 word) option" where
  "alg_filter type [] = None"
| "alg_filter type (e # es) =
     (if e_type e \<noteq> type then alg_filter type es else Some (e_alg e, e_key_size e))"

definition get_algorithm :: "proposal_t \<Rightarrow> int \<Rightarrow> (16 word \<times> 16 word) option" where
  "get_algorithm p type = alg_filter type (array_elems (p_transforms p))"

text \<open>The setter assigns through the pointer to the first entry of the type.\<close>

fun alg_setter :: "int \<Rightarrow> 16 word \<Rightarrow> 16 word \<Rightarrow> entry_t list \<Rightarrow> entry_t list" where
  "alg_setter type alg key_size [] = []"
| "alg_setter type alg key_size (e # es) =
     (if e_type e \<noteq> type then e # alg_setter type alg key_size es
      else e\<lparr>e_alg := alg, e_key_size := key_size\<rparr> # es)"

definition set_algorithm :: "proposal_t \<Rightarrow> int \<Rightarrow> 16 word \<Rightarrow> 16 word \<Rightarrow> proposal_t" where
  "set_algorithm p type alg key_size =
     (let a = p_transforms p in
      p\<lparr>p_transforms := a\<lparr>a_data := take (a_head a) (a_data a)
                                   @ alg_setter type alg key_size (array_elems a)
                                   @ drop (a_head a + a_count a) (a_data a)\<rparr>\<rparr>)"

definition set_number :: "proposal_t \<Rightarrow> 8 word \<Rightarrow> proposal_t" where
  "set_number p number = p\<lparr>p_number := number\<rparr>"

definition set_spi :: "proposal_t \<Rightarrow> 64 word \<Rightarrow> proposal_t" where
  "set_spi p spi = p\<lparr>p_spi := spi\<rparr>"

section \<open>Header, identifier and payloads\<close>

record ike_header_t =
  h_initiator_spi :: "64 word"
  h_responder_spi :: "64 word"
  h_maj_version :: "8 word"
  h_min_version :: "8 word"
  h_exchange_type :: "8 word"
  h_initiator :: bool
  h_version :: bool
  h_response :: bool
  h_encryption :: bool
  h_commit :: bool
  h_authonly :: bool
  h_message_id :: "32 word"

record ike_sa_id_t =
  id_initiator_spi :: "64 word"
  id_responder_spi :: "64 word"

text \<open>
  A chunk held by a payload: bytes of its own, or the value buffer of a query node that was passed
  without a copy.
\<close>

datatype chunk_ref = Owned string | QueryValue addr int

record notify_payload_t =
  n_type :: int
  n_header_length :: nat
  n_data :: string
  n_payload_length :: nat

definition set_notification_data :: "notify_payload_t \<Rightarrow> string \<Rightarrow> notify_payload_t" where
  "set_notification_data n data =
     n\<lparr>n_data := data, n_payload_length := n_header_length n + length data\<rparr>"

record nonce_payload_t =
  np_nonce :: string
  np_payload_length :: nat

definition set_nonce :: "nonce_payload_t \<Rightarrow> string \<Rightarrow> nonce_payload_t" where
  "set_nonce np nonce = np\<lparr>np_nonce := nonce, np_payload_length := 4 + length nonce\<rparr>"

record ke_payload_t =
  ke_dh_group_number :: "16 word"
  ke_key_exchange_data :: string
  ke_payload_length :: nat

definition set_dh_group_number :: "ke_payload_t \<Rightarrow> 16 word \<Rightarrow> ke_payload_t" where
  "set_dh_group_number ke number = ke\<lparr>ke_dh_group_number := number\<rparr>"

definition set_key_exchange_data :: "ke_payload_t \<Rightarrow> string \<Rightarrow> ke_payload_t" where
  "set_key_exchange_data ke data = ke\<lparr>ke_key_exchange_data := data\<rparr>"

record id_payload_t =
  idp_id_type :: "8 word"
  idp_id_data :: chunk_ref

definition set_id_type :: "id_payload_t \<Rightarrow> 8 word \<Rightarrow> id_payload_t" where
  "set_id_type p type = p\<lparr>idp_id_type := type\<rparr>"

definition set_id_data :: "id_payload_t \<Rightarrow> chunk_ref \<Rightarrow> id_payload_t" where
  "set_id_data p data = p\<lparr>idp_id_data := data\<rparr>"

record eap_payload_t =
  eap_data :: string

section \<open>Lemmas\<close>

text \<open>Removal from the array is removal from the list of its elements.\<close>

lemma length_array_elems: "array_wf a \<Longrightarrow> length (array_elems a) = a_count a"
  by (simp add: array_wf_def array_elems_def)

lemma remove_tail_elems:
  assumes "array_wf a" and "idx < a_count a"
  shows "array_elems (remove_tail a idx) = take idx (array_elems a) @ drop (Suc idx) (array_elems a)"
    "array_wf (remove_tail a idx)"
proof -
  let ?d = "drop (a_head a) (a_data a)"
  obtain pre post where d: "a_data a = pre @ array_elems a @ post" and p: "length pre = a_head a"
    using assms(1) unfolding array_wf_def array_elems_def
    by (metis append_take_drop_id drop_drop length_take min.absorb2 add_leD1)
  have len: "length (array_elems a) = a_count a" using assms(1) by (rule length_array_elems)
  have new: "a_data (remove_tail a idx) =
      pre @ take idx (array_elems a) @ drop (Suc idx) (array_elems a) @
      drop (a_head a + a_count a - 1) (a_data a)"
    using assms(2) p len unfolding remove_tail_def d by (simp add: add.commute)
  show "array_elems (remove_tail a idx) = take idx (array_elems a) @ drop (Suc idx) (array_elems a)"
    using assms(2) p len unfolding array_elems_def [of "remove_tail a idx"] new
    by (simp add: remove_tail_def)
  show "array_wf (remove_tail a idx)"
    using assms by (auto simp: array_wf_def remove_tail_def)
qed

lemma remove_head_elems:
  assumes "array_wf a" and "idx < a_count a"
  shows "array_elems (remove_head a idx) = take idx (array_elems a) @ drop (Suc idx) (array_elems a)"
    "array_wf (remove_head a idx)"
proof -
  obtain pre post where d: "a_data a = pre @ array_elems a @ post" and p: "length pre = a_head a"
    using assms(1) unfolding array_wf_def array_elems_def
    by (metis append_take_drop_id drop_drop length_take min.absorb2 add_leD1)
  have len: "length (array_elems a) = a_count a" using assms(1) by (rule length_array_elems)
  have new: "a_data (remove_head a idx) =
      (pre @ take 1 (array_elems a)) @ take idx (array_elems a) @ drop (Suc idx) (array_elems a) @ post"
    using assms(2) p len unfolding remove_head_def d by simp
  have one: "length (pre @ take 1 (array_elems a)) = Suc (a_head a)" using assms(2) p len by simp
  have head: "a_head (remove_head a idx) = Suc (a_head a)" "a_count (remove_head a idx) = a_count a - 1"
    by (simp_all add: remove_head_def)
  have dr: "drop (Suc (a_head a)) (a_data (remove_head a idx)) =
      take idx (array_elems a) @ drop (Suc idx) (array_elems a) @ post"
    unfolding new using one by (metis append_eq_conv_conj)
  show "array_elems (remove_head a idx) = take idx (array_elems a) @ drop (Suc idx) (array_elems a)"
    using assms(2) len unfolding array_elems_def [of "remove_head a idx"] head dr by simp
  show "array_wf (remove_head a idx)"
    using assms by (auto simp: array_wf_def remove_head_def)
qed

lemma array_compress_elems:
  "array_wf a \<Longrightarrow> array_elems (array_compress a) = array_elems a \<and> array_wf (array_compress a)"
  by (simp add: array_compress_def array_elems_def array_wf_def)

lemma array_remove_elems:
  assumes "array_wf a" and "idx < a_count a" and "array_remove a idx = (a', moved)"
  shows "array_elems a' = take idx (array_elems a) @ drop (Suc idx) (array_elems a)"
    "array_wf a'" "a_count a' = a_count a - 1"
proof -
  define b where "b = (if a_count a div 2 < idx then remove_tail a idx else remove_head a idx)"
  have b: "array_elems b = take idx (array_elems a) @ drop (Suc idx) (array_elems a)" "array_wf b"
    using remove_tail_elems [OF assms(1,2)] remove_head_elems [OF assms(1,2)] by (auto simp: b_def)
  have a': "a' = (if ARRAY_MAX_UNUSED < a_head b + a_tail b then array_compress b else b)"
    using assms(2,3) by (simp add: array_remove_def Let_def b_def [symmetric] split: if_splits)
  show e: "array_elems a' = take idx (array_elems a) @ drop (Suc idx) (array_elems a)"
    and wf: "array_wf a'" using a' b by (auto simp: array_compress_elems)
  show "a_count a' = a_count a - 1"
    using arg_cong [OF e, of length] length_array_elems [OF wf] length_array_elems [OF assms(1)] assms(2)
    by simp
qed

lemma alg_setter_length [simp]: "length (alg_setter type alg ks es) = length es"
  by (induction es) simp_all

lemma set_algorithm_elems:
  assumes "array_wf (p_transforms p)"
  shows "array_elems (p_transforms (set_algorithm p type alg ks)) =
           alg_setter type alg ks (array_elems (p_transforms p))"
    "array_wf (p_transforms (set_algorithm p type alg ks))"
  using assms length_array_elems [OF assms]
  by (auto simp: set_algorithm_def Let_def array_elems_def array_wf_def)

text \<open>Reading back what was set; a proposal without the type stays as it is.\<close>

lemma alg_filter_setter:
  "alg_filter type (alg_setter type alg ks es) =
     (if alg_filter type es = None then None else Some (alg, ks))"
  by (induction es) auto

lemma alg_setter_absent: "alg_filter type es = None \<Longrightarrow> alg_setter type alg ks es = es"
  by (induction es) (auto split: if_splits)

lemma alg_filter_setter_other:
  "t \<noteq> type \<Longrightarrow> alg_filter t (alg_setter type alg ks es) = alg_filter t es"
  by (induction es) auto

end
