(* ===== verification/Epdg_Process.thy ===== *)
theory Epdg_Process
  imports Ike_Payloads
begin

text \<open>
  The application of a query to the messages of the ePDG (\<^verbatim>\<open>check_drop_next\<close>, \<^verbatim>\<open>process_ike_header\<close>,
  \<^verbatim>\<open>process_transforms\<close>, \<^verbatim>\<open>process_proposal\<close>, \<^verbatim>\<open>process_notify\<close>, \<^verbatim>\<open>process_key_exchange\<close>,
  \<^verbatim>\<open>process_nonce\<close>, \<^verbatim>\<open>process_identification_responder\<close> and \<^verbatim>\<open>check_exceptional_case\<close> of
  \<^verbatim>\<open>ike_sa_instance.c\<close>).
\<close>

section \<open>Values of queries\<close>

abbreviation COMPLETED :: int where "COMPLETED \<equiv> 0"
abbreviation NEED_DROP_NEXT :: int where "NEED_DROP_NEXT \<equiv> 1"

text \<open>\<^verbatim>\<open>char_to_int(tmp, tlen, base)\<close> on the value buffer of a node, which ends with a NUL.\<close>

definition value_int :: "cbuf \<Rightarrow> int \<Rightarrow> 32 word \<Rightarrow> 32 word cres" where
  "value_int tmp tlen base =
     (case tmp of
        CNull \<Rightarrow> if tlen = 0 then Inr 0 else Inl NullDeref
      | CFreed \<Rightarrow> if tlen = 0 then Inr 0 else Inl UseAfterFree
      | CBuf v \<Rightarrow> char_to_int (v @ [NUL]) tlen base)"

text \<open>\<^verbatim>\<open>!strncmp(tmp, s, n)\<close> on a value buffer.\<close>

definition value_is :: "cbuf \<Rightarrow> string \<Rightarrow> nat \<Rightarrow> bool cres" where
  "value_is tmp s n =
     (case tmp of
        CNull \<Rightarrow> if n = 0 then Inr True else Inl NullDeref
      | CFreed \<Rightarrow> if n = 0 then Inr True else Inl UseAfterFree
      | CBuf v \<Rightarrow> Inr (strncmp_eq v s n))"

text \<open>The first \<open>n\<close> bytes of a value buffer.\<close>

definition value_bytes :: "cbuf \<Rightarrow> nat \<Rightarrow> string cres" where
  "value_bytes tmp n =
     (if n = 0 then Inr []
      else case tmp of
        CNull \<Rightarrow> Inl NullDeref
      | CFreed \<Rightarrow> Inl UseAfterFree
      | CBuf v \<Rightarrow> if n \<le> length v + 1 then Inr (take n (v @ [NUL])) else Inl OutOfBounds)"

text \<open>\<^verbatim>\<open>if (tmp) free(tmp)\<close> where \<^verbatim>\<open>tmp\<close> is the value of a node, or NULL.\<close>

definition free_value :: "qheap \<Rightarrow> addr option \<Rightarrow> qheap cres" where
  "free_value h tmp =
     (case tmp of
        None \<Rightarrow> Inr h
      | Some a \<Rightarrow>
          bindE (deref h (Some a)) (\<lambda>n.
            case q_value n of
              CNull \<Rightarrow> Inr h
            | CFreed \<Rightarrow> Inl DoubleFree
            | CBuf v \<Rightarrow> Inr (store h a (n\<lparr>q_value := CFreed\<rparr>))))"

text \<open>
  The blocks of the query processing: if the query has a node at the path, with one of the value
  types and the operator update, its value is used; otherwise the state stays as it is.
\<close>

definition when_update ::
  "qheap \<Rightarrow> instance_t \<Rightarrow> string \<Rightarrow> string list \<Rightarrow> int list \<Rightarrow>
   (addr \<Rightarrow> int \<Rightarrow> cbuf \<Rightarrow> int \<Rightarrow> 's cres) \<Rightarrow> 's \<Rightarrow> 's cres" where
  "when_update h inst mname path vtypes f st =
     bindE (query_at h inst mname path) (\<lambda>query.
       case query of
         None \<Rightarrow> Inr st
       | Some a \<Rightarrow>
           bindE (get_query_value_type h query) (\<lambda>vtype.
           bindE (get_query_operator h query) (\<lambda>opr.
             if vtype \<in> set vtypes \<and> opr = OP_TYPE_UPDATE then
               bindE (get_query_value h query) (\<lambda>(tmp, tlen). f a vtype tmp tlen)
             else Inr st)))"

section \<open>Dropping the next payload\<close>

abbreviation PL_HEADER :: int where "PL_HEADER \<equiv> 256"
abbreviation PLV2_SECURITY_ASSOCIATION :: int where "PLV2_SECURITY_ASSOCIATION \<equiv> 33"
abbreviation PLV2_KEY_EXCHANGE :: int where "PLV2_KEY_EXCHANGE \<equiv> 34"
abbreviation PLV2_ID_RESPONDER :: int where "PLV2_ID_RESPONDER \<equiv> 36"
abbreviation PLV2_AUTH :: int where "PLV2_AUTH \<equiv> 39"
abbreviation PLV2_NONCE :: int where "PLV2_NONCE \<equiv> 40"
abbreviation PLV2_NOTIFY :: int where "PLV2_NOTIFY \<equiv> 41"
abbreviation PLV2_TS_INITIATOR :: int where "PLV2_TS_INITIATOR \<equiv> 44"
abbreviation PLV2_TS_RESPONDER :: int where "PLV2_TS_RESPONDER \<equiv> 45"
abbreviation PLV2_CONFIGURATION :: int where "PLV2_CONFIGURATION \<equiv> 47"
abbreviation PLV2_EAP :: int where "PLV2_EAP \<equiv> 48"

abbreviation AUTHENTICATION_FAILED :: int where "AUTHENTICATION_FAILED \<equiv> 24"
abbreviation NAT_DETECTION_SOURCE_IP :: int where "NAT_DETECTION_SOURCE_IP \<equiv> 16388"
abbreviation NAT_DETECTION_DESTINATION_IP :: int where "NAT_DETECTION_DESTINATION_IP \<equiv> 16389"
abbreviation CHILDLESS_IKEV2_SUPPORTED :: int where "CHILDLESS_IKEV2_SUPPORTED \<equiv> 16418"
abbreviation SIGNATURE_HASH_ALGORITHMS :: int where "SIGNATURE_HASH_ALGORITHMS \<equiv> 16431"

definition IKE_SA_INIT_RESPONSE :: string where "IKE_SA_INIT_RESPONSE = ''ike_sa_init_response''"
definition IKE_AUTH_1_RESPONSE :: string where "IKE_AUTH_1_RESPONSE = ''ike_auth_1_response''"
definition IKE_AUTH_2_RESPONSE :: string where "IKE_AUTH_2_RESPONSE = ''ike_auth_2_response''"
definition IKE_AUTH_3_RESPONSE :: string where "IKE_AUTH_3_RESPONSE = ''ike_auth_3_response''"
definition IKE_AUTH_4_RESPONSE :: string where "IKE_AUTH_4_RESPONSE = ''ike_auth_4_response''"

lemmas message_names =
  IKE_SA_INIT_RESPONSE_def IKE_AUTH_1_RESPONSE_def IKE_AUTH_2_RESPONSE_def IKE_AUTH_3_RESPONSE_def
  IKE_AUTH_4_RESPONSE_def

text \<open>
  The blocks of \<^verbatim>\<open>check_drop_next\<close>, in order: message, path, payload type, and for a notify
  payload its notify type.
\<close>

definition drop_blocks :: "(string \<times> string list \<times> int \<times> int option) list" where
  "drop_blocks =
     [(IKE_SA_INIT_RESPONSE, [''security_association''], PLV2_SECURITY_ASSOCIATION, None),
      (IKE_SA_INIT_RESPONSE, [''key_exchange''], PLV2_KEY_EXCHANGE, None),
      (IKE_SA_INIT_RESPONSE, [''nonce''], PLV2_NONCE, None),
      (IKE_SA_INIT_RESPONSE, [''notify'', ''nat_detection_source_ip''], PLV2_NOTIFY,
        Some NAT_DETECTION_SOURCE_IP),
      (IKE_SA_INIT_RESPONSE, [''notify'', ''nat_detection_destination_ip''], PLV2_NOTIFY,
        Some NAT_DETECTION_DESTINATION_IP),
      (IKE_AUTH_1_RESPONSE, [''id_responder''], PLV2_ID_RESPONDER, None),
      (IKE_AUTH_1_RESPONSE, [''extensible_authentication''], PLV2_EAP, None),
      (IKE_AUTH_2_RESPONSE, [''extensible_authentication''], PLV2_EAP, None),
      (IKE_AUTH_3_RESPONSE, [''authentication''], PLV2_AUTH, None),
      (IKE_AUTH_3_RESPONSE, [''ts_initiator''], PLV2_TS_INITIATOR, None),
      (IKE_AUTH_3_RESPONSE, [''ts_responder''], PLV2_TS_RESPONDER, None),
      (IKE_AUTH_3_RESPONSE, [''configuration''], PLV2_CONFIGURATION, None)]"

definition drop_block ::
  "qheap \<Rightarrow> instance_t \<Rightarrow> int \<Rightarrow> int option \<Rightarrow> (string \<times> string list \<times> int \<times> int option) \<Rightarrow>
   int \<Rightarrow> int cres" where
  "drop_block h inst type ntype b ret =
     (case b of (mname, path, ptype, pntype) \<Rightarrow>
        bindE (query_at h inst mname path) (\<lambda>query.
          if query \<noteq> None \<and> type = ptype \<and> (pntype = None \<or> ntype = pntype) then
            bindE (get_query_operator h query) (\<lambda>opr.
              Inr (if opr = OP_TYPE_DROP then NEED_DROP_NEXT else ret))
          else Inr ret))"

text \<open>The next payload is given by its type, and its notify type when it is a notify payload.\<close>

definition check_drop_next :: "qheap \<Rightarrow> instance_t \<Rightarrow> (int \<times> int option) option \<Rightarrow> int cres" where
  "check_drop_next h inst nxt =
     (case nxt of
        None \<Rightarrow> Inr COMPLETED
      | Some (type, ntype) \<Rightarrow> seqE (map (drop_block h inst type ntype) drop_blocks) COMPLETED)"

section \<open>The IKE header\<close>

definition check_flag :: "string \<Rightarrow> cbuf \<Rightarrow> int \<Rightarrow> bool cres" where
  "check_flag flag tmp tlen = value_is tmp flag (if int (length flag) < tlen then length flag else nat tlen)"

text \<open>
  What \<^verbatim>\<open>process_ike_header\<close> can change: the header, the identifier of the IKE_SA, the table of
  the hashes of IKE_SA_INIT requests (rows of hashes with our SPI), and the local \<^verbatim>\<open>tmp\<close>.
\<close>

record hdr_state =
  hs_header :: ike_header_t
  hs_said :: ike_sa_id_t
  hs_table :: "nat \<Rightarrow> (string \<times> 64 word) list"
  hs_tmp :: "addr option"

definition hdr_int_block ::
  "qheap \<Rightarrow> instance_t \<Rightarrow> string \<Rightarrow> string \<Rightarrow> int \<Rightarrow> int \<Rightarrow>
   (32 word \<Rightarrow> hdr_state \<Rightarrow> hdr_state cres) \<Rightarrow> hdr_state \<Rightarrow> hdr_state cres" where
  "hdr_int_block h inst mname attr dec hex set_field st =
     when_update h inst mname [attr] [dec, hex]
       (\<lambda>a vtype tmp tlen.
          bindE (value_int tmp tlen (if vtype = dec then 10 else 16)) (\<lambda>v.
            set_field v (st\<lparr>hs_tmp := Some a\<rparr>))) st"

definition hdr_initiator_spi :: "qheap \<Rightarrow> instance_t \<Rightarrow> string \<Rightarrow> hdr_state \<Rightarrow> hdr_state cres" where
  "hdr_initiator_spi h inst mname =
     hdr_int_block h inst mname ''initiator_spi'' VAL_TYPE_UINT64 VAL_TYPE_UINT64H
       (\<lambda>v st. Inr (st\<lparr>hs_header := (hs_header st)\<lparr>h_initiator_spi := scast v\<rparr>,
                       hs_said := (hs_said st)\<lparr>id_initiator_spi := scast v\<rparr>\<rparr>))"

text \<open>
  The loop over the row of the table compares the same item again and again: it ends at once when
  the first item matches, and never when it does not.
\<close>

definition set_our_spi ::
  "(string \<Rightarrow> nat) \<Rightarrow> instance_t \<Rightarrow> 64 word \<Rightarrow> (nat \<Rightarrow> (string \<times> 64 word) list) \<Rightarrow>
   (nat \<Rightarrow> (string \<times> 64 word) list) cres" where
  "set_our_spi chunk_hash inst v64 table =
     (let row = and (chunk_hash (i_init_hash inst)) (unat (i_table_mask inst))
      in case table row of
           [] \<Rightarrow> Inl NullDeref
         | (hash, spi) # items \<Rightarrow>
             if hash = i_init_hash inst then Inr (table(row := (hash, v64) # items))
             else Inl Diverges)"

definition hdr_responder_spi ::
  "(string \<Rightarrow> nat) \<Rightarrow> qheap \<Rightarrow> instance_t \<Rightarrow> string \<Rightarrow> hdr_state \<Rightarrow> hdr_state cres" where
  "hdr_responder_spi chunk_hash h inst mname =
     hdr_int_block h inst mname ''responder_spi'' VAL_TYPE_UINT64 VAL_TYPE_UINT64H
       (\<lambda>v st. bindE (set_our_spi chunk_hash inst (scast v) (hs_table st)) (\<lambda>table.
          Inr (st\<lparr>hs_header := (hs_header st)\<lparr>h_responder_spi := scast v\<rparr>,
                  hs_said := (hs_said st)\<lparr>id_responder_spi := scast v\<rparr>,
                  hs_table := table\<rparr>)))"

definition hdr_major_version :: "qheap \<Rightarrow> instance_t \<Rightarrow> string \<Rightarrow> hdr_state \<Rightarrow> hdr_state cres" where
  "hdr_major_version h inst mname =
     hdr_int_block h inst mname ''ike_major_version'' VAL_TYPE_UINT8 VAL_TYPE_UINT8H
       (\<lambda>v st. Inr (st\<lparr>hs_header := (hs_header st)\<lparr>h_maj_version := ucast v\<rparr>\<rparr>))"

definition hdr_minor_version :: "qheap \<Rightarrow> instance_t \<Rightarrow> string \<Rightarrow> hdr_state \<Rightarrow> hdr_state cres" where
  "hdr_minor_version h inst mname =
     hdr_int_block h inst mname ''ike_minor_version'' VAL_TYPE_UINT8 VAL_TYPE_UINT8H
       (\<lambda>v st. Inr (st\<lparr>hs_header := (hs_header st)\<lparr>h_min_version := ucast v\<rparr>\<rparr>))"

definition hdr_exchange_type :: "qheap \<Rightarrow> instance_t \<Rightarrow> string \<Rightarrow> hdr_state \<Rightarrow> hdr_state cres" where
  "hdr_exchange_type h inst mname =
     hdr_int_block h inst mname ''exchange_type'' VAL_TYPE_UINT8 VAL_TYPE_UINT8H
       (\<lambda>v st. Inr (st\<lparr>hs_header := (hs_header st)\<lparr>h_exchange_type := ucast v\<rparr>\<rparr>))"

definition hdr_message_id :: "qheap \<Rightarrow> instance_t \<Rightarrow> string \<Rightarrow> hdr_state \<Rightarrow> hdr_state cres" where
  "hdr_message_id h inst mname =
     hdr_int_block h inst mname ''message_id'' VAL_TYPE_UINT32 VAL_TYPE_UINT32H
       (\<lambda>v st. Inr (st\<lparr>hs_header := (hs_header st)\<lparr>h_message_id := v\<rparr>\<rparr>))"

text \<open>The flag names in the order of the comparisons, with what each of them sets.\<close>

definition flag_names :: "(string \<times> (ike_header_t \<Rightarrow> ike_header_t)) list" where
  "flag_names =
     [(''responder'', (\<lambda>hd. hd\<lparr>h_response := True\<rparr>)),
      (''no_responder'', (\<lambda>hd. hd\<lparr>h_response := False\<rparr>)),
      (''version'', (\<lambda>hd. hd\<lparr>h_version := True\<rparr>)),
      (''no_version'', (\<lambda>hd. hd\<lparr>h_version := False\<rparr>)),
      (''initiator'', (\<lambda>hd. hd\<lparr>h_initiator := True\<rparr>)),
      (''no_initiator'', (\<lambda>hd. hd\<lparr>h_initiator := False\<rparr>)),
      (''encryption'', (\<lambda>hd. hd\<lparr>h_encryption := True\<rparr>)),
      (''no_encryption'', (\<lambda>hd. hd\<lparr>h_encryption := False\<rparr>)),
      (''commit'', (\<lambda>hd. hd\<lparr>h_commit := True\<rparr>)),
      (''no_commit'', (\<lambda>hd. hd\<lparr>h_commit := False\<rparr>)),
      (''authonly'', (\<lambda>hd. hd\<lparr>h_authonly := True\<rparr>)),
      (''no_authonly'', (\<lambda>hd. hd\<lparr>h_authonly := False\<rparr>))]"

definition hdr_flags :: "qheap \<Rightarrow> instance_t \<Rightarrow> string \<Rightarrow> hdr_state \<Rightarrow> hdr_state cres" where
  "hdr_flags h inst mname st =
     when_update h inst mname [''flags''] [VAL_TYPE_STRING]
       (\<lambda>a vtype tmp tlen.
          bindE (seqE (map (\<lambda>(flag, f) hd.
                   bindE (check_flag flag tmp tlen) (\<lambda>b. Inr (if b then f hd else hd))) flag_names)
                 (hs_header st))
            (\<lambda>hd. Inr (st\<lparr>hs_header := hd, hs_tmp := Some a\<rparr>))) st"

definition hdr_messages :: "string list" where
  "hdr_messages =
     [IKE_SA_INIT_RESPONSE, IKE_AUTH_1_RESPONSE, IKE_AUTH_2_RESPONSE, IKE_AUTH_3_RESPONSE,
      IKE_AUTH_4_RESPONSE]"

definition hdr_blocks ::
  "(string \<Rightarrow> nat) \<Rightarrow> qheap \<Rightarrow> instance_t \<Rightarrow> string \<Rightarrow> (hdr_state \<Rightarrow> hdr_state cres) list" where
  "hdr_blocks chunk_hash h inst mname =
     [hdr_initiator_spi h inst mname, hdr_responder_spi chunk_hash h inst mname,
      hdr_major_version h inst mname, hdr_minor_version h inst mname, hdr_exchange_type h inst mname,
      hdr_flags h inst mname, hdr_message_id h inst mname]"

definition process_ike_header ::
  "(string \<Rightarrow> nat) \<Rightarrow> qheap \<Rightarrow> instance_t \<Rightarrow> hdr_state \<Rightarrow> (int \<times> hdr_state \<times> qheap) cres" where
  "process_ike_header chunk_hash h inst st =
     bindE (seqE (concat (map (hdr_blocks chunk_hash h inst) hdr_messages)) (st\<lparr>hs_tmp := None\<rparr>)) (\<lambda>st'.
       bindE (free_value h (hs_tmp st')) (\<lambda>h'. Inr (COMPLETED, st', h')))"

section \<open>Proposals\<close>

definition transform_path :: "string \<Rightarrow> string list" where
  "transform_path name = [''security_association'', ''proposal'', ''transform'', name]"

text \<open>
  The array, the index of the enumerator, and the slot \<^verbatim>\<open>entry\<close> points to (\<open>None\<close> once the elements were
  moved to another block).
\<close>

type_synonym trans_state = "entry_t array_t \<times> nat \<times> nat option"

definition transform_check ::
  "qheap \<Rightarrow> instance_t \<Rightarrow> int \<Rightarrow> string \<Rightarrow> trans_state \<Rightarrow> trans_state cres" where
  "transform_check h inst type name st =
     (case st of (a, idx, entry) \<Rightarrow>
        case entry of
          None \<Rightarrow> Inl UseAfterFree
        | Some slot \<Rightarrow>
            if length (a_data a) \<le> slot then Inl OutOfBounds
            else if e_type (a_data a ! slot) = type then
              bindE (query_at h inst IKE_SA_INIT_RESPONSE (transform_path name)) (\<lambda>query.
                if query = None then Inr st
                else bindE (get_query_operator h query) (\<lambda>opr.
                  if opr = OP_TYPE_DROP then
                    (case array_remove_at a idx of (a', idx', moved) \<Rightarrow>
                       Inr (a', idx', if moved then None else entry))
                  else Inr st))
            else Inr st)"

definition transform_checks :: "qheap \<Rightarrow> instance_t \<Rightarrow> trans_state \<Rightarrow> trans_state cres" where
  "transform_checks h inst =
     seqE [transform_check h inst ENCRYPTION_ALGORITHM ''encryption_algorithm'',
           transform_check h inst DIFFIE_HELLMAN_GROUP ''diffie_hellman_group'',
           transform_check h inst PSEUDO_RANDOM_FUNCTION ''pseudo_random_function'',
           transform_check h inst INTEGRITY_ALGORITHM ''integrity_algorithm'']"

text \<open>The enumeration visits at most as many elements as the array has at the start.\<close>

primrec transforms_loop ::
  "nat \<Rightarrow> qheap \<Rightarrow> instance_t \<Rightarrow> entry_t array_t \<Rightarrow> nat \<Rightarrow> entry_t array_t cres" where
  "transforms_loop 0 h inst a idx = Inl Diverges"
| "transforms_loop (Suc k) h inst a idx =
     (case array_enumerate a idx of
        None \<Rightarrow> Inr a
      | Some (slot, idx') \<Rightarrow>
          bindE (transform_checks h inst (a, idx', Some slot)) (\<lambda>st.
            transforms_loop k h inst (fst st) (fst (snd st))))"

definition process_transforms :: "qheap \<Rightarrow> instance_t \<Rightarrow> proposal_t \<Rightarrow> (int \<times> proposal_t) cres" where
  "process_transforms h inst p =
     bindE (transforms_loop (Suc (a_count (p_transforms p))) h inst (p_transforms p) 0) (\<lambda>a.
       Inr (COMPLETED, p\<lparr>p_transforms := a\<rparr>))"

record prop_state =
  ps_prop :: proposal_t
  ps_algo :: "16 word"
  ps_klen :: "16 word"

definition alg_block ::
  "qheap \<Rightarrow> instance_t \<Rightarrow> int \<Rightarrow> string \<Rightarrow> (prop_state \<Rightarrow> prop_state cres) \<Rightarrow> prop_state \<Rightarrow> prop_state cres" where
  "alg_block h inst type name nested st =
     bindE (query_at h inst IKE_SA_INIT_RESPONSE (transform_path name)) (\<lambda>query.
       if query = None then Inr st
       else
         let st1 = (case get_algorithm (ps_prop st) type of
                      None \<Rightarrow> st
                    | Some (alg, ks) \<Rightarrow> st\<lparr>ps_algo := alg, ps_klen := ks\<rparr>)
         in bindE (when_update h inst IKE_SA_INIT_RESPONSE (transform_path name) [VAL_TYPE_UINT16]
                     (\<lambda>a vtype tmp tlen. bindE (value_int tmp tlen 10) (\<lambda>v. Inr (st1\<lparr>ps_algo := ucast v\<rparr>)))
                     st1) (\<lambda>st2.
            bindE (nested st2) (\<lambda>st3.
              Inr (st3\<lparr>ps_prop := set_algorithm (ps_prop st3) type (ps_algo st3) (ps_klen st3)\<rparr>))))"

definition encryption_key_length :: "qheap \<Rightarrow> instance_t \<Rightarrow> prop_state \<Rightarrow> prop_state cres" where
  "encryption_key_length h inst st =
     when_update h inst IKE_SA_INIT_RESPONSE (transform_path ''encryption_key_length'') [VAL_TYPE_UINT16]
       (\<lambda>a vtype tmp tlen. bindE (value_int tmp tlen 10) (\<lambda>v. Inr (st\<lparr>ps_klen := ucast v\<rparr>))) st"

definition proposal_number :: "qheap \<Rightarrow> instance_t \<Rightarrow> prop_state \<Rightarrow> prop_state cres" where
  "proposal_number h inst st =
     when_update h inst IKE_SA_INIT_RESPONSE [''security_association'', ''proposal'', ''proposal_number'']
       [VAL_TYPE_UINT8]
       (\<lambda>a vtype tmp tlen. bindE (value_int tmp tlen 10) (\<lambda>v.
          Inr (st\<lparr>ps_prop := set_number (ps_prop st) (ucast v)\<rparr>))) st"

definition proposal_spi :: "qheap \<Rightarrow> instance_t \<Rightarrow> prop_state \<Rightarrow> prop_state cres" where
  "proposal_spi h inst st =
     when_update h inst IKE_SA_INIT_RESPONSE [''security_association'', ''proposal'', ''spi'']
       [VAL_TYPE_UINT64H]
       (\<lambda>a vtype tmp tlen. bindE (value_int tmp tlen 16) (\<lambda>v.
          Inr (st\<lparr>ps_prop := set_spi (ps_prop st) (scast v)\<rparr>))) st"

definition process_proposal :: "qheap \<Rightarrow> instance_t \<Rightarrow> proposal_t \<Rightarrow> (int \<times> proposal_t) cres" where
  "process_proposal h inst p =
     bindE (process_transforms h inst p) (\<lambda>(ret, p').
       bindE (seqE
         [alg_block h inst ENCRYPTION_ALGORITHM ''encryption_algorithm'' (encryption_key_length h inst),
          alg_block h inst DIFFIE_HELLMAN_GROUP ''diffie_hellman_group'' Inr,
          alg_block h inst PSEUDO_RANDOM_FUNCTION ''pseudo_random_function'' Inr,
          alg_block h inst INTEGRITY_ALGORITHM ''integrity_algorithm'' Inr,
          proposal_number h inst, proposal_spi h inst]
         \<lparr>ps_prop = p', ps_algo = 0, ps_klen = 0\<rparr>)
       (\<lambda>st. Inr (ret, ps_prop st)))"

section \<open>Notify, key exchange, nonce and identification payloads\<close>

definition zeros :: "nat \<Rightarrow> string" where
  "zeros n = replicate n NUL"

text \<open>The 20 bytes of a NAT detection hash: the one received, or the value cut or filled with zeros.\<close>

definition nat_hash :: "string \<Rightarrow> cbuf \<Rightarrow> int \<Rightarrow> string cres" where
  "nat_hash received tmp tlen =
     bindE (if 8 \<le> tlen then value_is tmp ''received'' 8 else Inr False) (\<lambda>r.
       if r then Inr received
       else if 20 \<le> tlen then value_bytes tmp 20
       else bindE (value_bytes tmp (nat tlen)) (\<lambda>v. Inr (v @ zeros (20 - length v))))"

definition notify_block ::
  "qheap \<Rightarrow> instance_t \<Rightarrow> string \<Rightarrow> (cbuf \<Rightarrow> int \<Rightarrow> string cres) \<Rightarrow>
   notify_payload_t \<times> addr option \<Rightarrow> (notify_payload_t \<times> addr option) cres" where
  "notify_block h inst name data st =
     when_update h inst IKE_SA_INIT_RESPONSE [name] [VAL_TYPE_STRING]
       (\<lambda>a vtype tmp tlen. bindE (data tmp tlen) (\<lambda>d.
          Inr (set_notification_data (fst st) d, Some a))) st"

definition process_notify ::
  "qheap \<Rightarrow> instance_t \<Rightarrow> notify_payload_t \<Rightarrow> (int \<times> notify_payload_t \<times> qheap) cres" where
  "process_notify h inst notify =
     bindE
       (if n_type notify = NAT_DETECTION_DESTINATION_IP then
          notify_block h inst ''nat_detection_destination_ip'' (nat_hash (i_rcvd_dst_hash inst)) (notify, None)
        else if n_type notify = NAT_DETECTION_SOURCE_IP then
          notify_block h inst ''nat_detection_source_ip'' (nat_hash (i_rcvd_src_hash inst)) (notify, None)
        else if n_type notify = SIGNATURE_HASH_ALGORITHMS then
          notify_block h inst ''signature_hash_algorithms'' (\<lambda>tmp tlen. value_bytes tmp (nat tlen))
            (notify, None)
        else if n_type notify = CHILDLESS_IKEV2_SUPPORTED then
          notify_block h inst ''childless_ikev2_supported'' (\<lambda>tmp tlen. value_bytes tmp (nat tlen))
            (notify, None)
        else Inr (notify, None))
       (\<lambda>(notify', tmp). bindE (free_value h tmp) (\<lambda>h'. Inr (COMPLETED, notify', h')))"

text \<open>The length of the public value of a Diffie-Hellman group, as the switch has it.\<close>

definition dh_data_length :: "16 word \<Rightarrow> nat" where
  "dh_data_length g =
     (if g = 0 then 0
      else if g = 1 then 96
      else if g = 2 then 128
      else if g = 5 then 192
      else if g = 14 then 256
      else if g = 15 then 384
      else if g = 16 then 512
      else if g = 17 then 768
      else if g = 18 then 1024
      else if g \<in> {19, 28, 24, 31, 1033} then 32
      else if g \<in> {20, 29} then 48
      else if g \<in> {21, 30} then 64
      else if g = 22 then 20
      else if g = 23 then 28
      else if g \<in> {25, 1032} then 24
      else if g \<in> {26, 27, 32} then 28
      else if g = 1030 then 14
      else 256)"

text \<open>The local \<^verbatim>\<open>data\<close> is assigned for the values max and min only.\<close>

definition extreme_data :: "nat \<Rightarrow> cbuf \<Rightarrow> int \<Rightarrow> string cres" where
  "extreme_data dlen tmp tlen =
     bindE (if tlen = 3 then value_is tmp ''max'' 3 else Inr False) (\<lambda>mx.
       if mx then Inr (replicate dlen (CHR 0xFF))
       else bindE (if tlen = 3 then value_is tmp ''min'' 3 else Inr False) (\<lambda>mn.
         if mn then Inr (replicate dlen NUL) else Inl UninitRead))"

definition process_key_exchange :: "qheap \<Rightarrow> instance_t \<Rightarrow> ke_payload_t \<Rightarrow> (int \<times> ke_payload_t) cres" where
  "process_key_exchange h inst ke =
     bindE (when_update h inst IKE_SA_INIT_RESPONSE [''key_exchange'', ''diffie_hellman_group'']
              [VAL_TYPE_UINT16]
              (\<lambda>a vtype tmp tlen. bindE (value_int tmp tlen 10) (\<lambda>v.
                 Inr (set_dh_group_number ke (ucast v)))) ke) (\<lambda>ke1.
     bindE (when_update h inst IKE_SA_INIT_RESPONSE [''key_exchange'', ''key_exchange_data'']
              [VAL_TYPE_STRING]
              (\<lambda>a vtype tmp tlen.
                 bindE (extreme_data (dh_data_length (ke_dh_group_number ke1)) tmp tlen) (\<lambda>data.
                   Inr (set_key_exchange_data ke1 data))) ke1) (\<lambda>ke2.
       Inr (COMPLETED, ke2)))"

abbreviation NONCE_SIZE :: nat where "NONCE_SIZE \<equiv> 32"

definition process_nonce :: "qheap \<Rightarrow> instance_t \<Rightarrow> nonce_payload_t \<Rightarrow> (int \<times> nonce_payload_t) cres" where
  "process_nonce h inst np =
     bindE (when_update h inst IKE_SA_INIT_RESPONSE [''nonce''] [VAL_TYPE_STRING]
              (\<lambda>a vtype tmp tlen. bindE (extreme_data NONCE_SIZE tmp tlen) (\<lambda>data.
                 Inr (set_nonce np data))) np) (\<lambda>np'. Inr (COMPLETED, np'))"

definition process_identification_responder ::
  "qheap \<Rightarrow> instance_t \<Rightarrow> id_payload_t \<Rightarrow> (int \<times> id_payload_t) cres" where
  "process_identification_responder h inst idp =
     bindE (when_update h inst IKE_AUTH_1_RESPONSE [''identification_responder'', ''id_type'']
              [VAL_TYPE_UINT8]
              (\<lambda>a vtype tmp tlen. bindE (value_int tmp tlen 10) (\<lambda>v.
                 Inr (set_id_type idp (ucast v)))) idp) (\<lambda>id1.
     bindE (when_update h inst IKE_AUTH_1_RESPONSE [''identification_responder'', ''identification_data'']
              [VAL_TYPE_STRING]
              (\<lambda>a vtype tmp tlen. Inr (set_id_data id1 (QueryValue a tlen))) id1) (\<lambda>id2.
       Inr (COMPLETED, id2)))"

text \<open>The name that is compared is the local \<^verbatim>\<open>mname\<close>, which no statement assigns.\<close>

definition check_exceptional_case :: "instance_t \<Rightarrow> notify_payload_t \<Rightarrow> bool cres" where
  "check_exceptional_case inst notify =
     (if n_type notify = AUTHENTICATION_FAILED then
        (if get_query inst \<noteq> None then Inl UninitRead else Inr False)
      else Inr False)"

end
