(* ===== verification/Epdg_Eap.thy ===== *)
theory Epdg_Eap
  imports Epdg_Process
begin

text \<open>
  The application of a query to an EAP payload (\<^verbatim>\<open>process_extensible_authentication\<close>) and the
  dispatch on the payload type (\<^verbatim>\<open>process_query\<close>), both of \<^verbatim>\<open>ike_sa_instance.c\<close>.
\<close>

section \<open>EAP payloads\<close>

abbreviation AKA_TYPE_AT_RAND :: nat where "AKA_TYPE_AT_RAND \<equiv> 1"
abbreviation AKA_TYPE_AT_AUTN :: nat where "AKA_TYPE_AT_AUTN \<equiv> 2"
abbreviation AKA_TYPE_AT_MAC :: nat where "AKA_TYPE_AT_MAC \<equiv> 11"
abbreviation AKA_TYPE_AT_CHECKCODE :: nat where "AKA_TYPE_AT_CHECKCODE \<equiv> 134"

text \<open>The size of \<^verbatim>\<open>ehdr_t\<close>: code, identifier, length, subtype and a 16-bit reserved field.\<close>

abbreviation EHDR_SIZE :: nat where "EHDR_SIZE \<equiv> 7"

text \<open>
  The methods \<^verbatim>\<open>set_code\<close>, \<^verbatim>\<open>set_identifier\<close> and \<^verbatim>\<open>set_type\<close> of an EAP payload are never assigned by
  its constructor, so that a call goes through a NULL pointer.
\<close>

definition eap_byte_block :: "qheap \<Rightarrow> instance_t \<Rightarrow> string \<Rightarrow> string \<Rightarrow> eap_payload_t \<Rightarrow> eap_payload_t cres" where
  "eap_byte_block h inst mname name eap =
     when_update h inst mname [''extensible_authentication'', name] [VAL_TYPE_UINT8]
       (\<lambda>a vtype tmp tlen. bindE (value_int tmp tlen 10) (\<lambda>v. Inl NullDeref)) eap"

text \<open>
  The search for an attribute: position, remaining length, and when the loop left by \<^verbatim>\<open>break\<close> the
  length byte and the number of bytes of the attribute's body (both unsigned bytes).
\<close>

function eap_find :: "string \<Rightarrow> nat \<Rightarrow> nat \<Rightarrow> int \<Rightarrow> (nat \<times> int \<times> (nat \<times> nat) option) cres" where
  "eap_find data at p plen =
     (if 0 < plen then
        (if length data \<le> p + 1 then Inl OutOfBounds
         else
           let type = of_char (data ! p); alen = of_char (data ! (p + 1));
               abytes = nat ((4 * int alen - 2) mod 256)
           in if type \<noteq> at then eap_find data at (p + 2 + abytes) (plen - 2 - int abytes)
              else Inr (p + 2, plen - 2, Some (alen, abytes)))
      else Inr (p, plen, None))"
  by pat_completeness auto
termination
  by (relation "measure (\<lambda>(data, at, p, plen). nat plen)") auto

declare eap_find.simps [simp del]

text \<open>The loops \<^verbatim>\<open>for (i=2; i<abytes; i++) p[i] = c\<close>.\<close>

definition eap_fill :: "string \<Rightarrow> nat \<Rightarrow> nat \<Rightarrow> char \<Rightarrow> string cres" where
  "eap_fill data p abytes c =
     (if 2 < abytes then
        (if p + abytes \<le> length data then
           Inr (take (p + 2) data @ replicate (abytes - 2) c @ drop (p + abytes) data)
         else Inl OutOfBounds)
      else Inr data)"

text \<open>
  The fourth alternative converts the digits of the value: it passes a byte of the value where
  \<^verbatim>\<open>char_to_int\<close> expects a pointer, in its first iteration already if the value is not empty.
\<close>

definition eap_digits :: "string \<Rightarrow> nat \<Rightarrow> nat \<Rightarrow> int \<Rightarrow> string cres" where
  "eap_digits data p abytes tlen =
     (if 2 < abytes \<and> 0 < tlen then
        (if p + 2 < length data then Inl WildDeref else Inl OutOfBounds)
      else eap_fill data p abytes NUL)"

definition eap_update :: "string \<Rightarrow> nat \<Rightarrow> nat \<Rightarrow> cbuf \<Rightarrow> int \<Rightarrow> string cres" where
  "eap_update data p abytes tmp tlen =
     bindE (if 3 \<le> tlen then value_is tmp ''min'' 3 else Inr False) (\<lambda>mn.
       if mn then eap_fill data p abytes NUL
       else bindE (if 3 \<le> tlen then value_is tmp ''max'' 3 else Inr False) (\<lambda>mx.
         if mx then eap_fill data p abytes (CHR 0xFF)
         else bindE (if 3 \<le> tlen then value_is tmp ''median'' 6 else Inr False) (\<lambda>md.
           if md then eap_fill data p abytes (CHR 0x88)
           else eap_digits data p abytes tlen)))"

text \<open>
  Dropping writes the shortened length into the EAP header; \<^verbatim>\<open>clen\<close> is an unsigned byte, and the
  length of the chunk changes in a local copy only.
\<close>

definition eap_drop :: "string \<Rightarrow> nat \<Rightarrow> string cres" where
  "eap_drop data alen =
     (let clen = nat ((int (length data) - int alen * 4) mod 256)
      in if 4 \<le> length data then Inr (data[2 := NUL, 3 := char_of clen]) else Inl OutOfBounds)"

definition eap_attribute_block ::
  "qheap \<Rightarrow> instance_t \<Rightarrow> string \<Rightarrow> string \<Rightarrow> nat \<Rightarrow> eap_payload_t \<Rightarrow> eap_payload_t cres" where
  "eap_attribute_block h inst mname name at eap =
     bindE (query_at h inst mname [''extensible_authentication'', ''eap_aka_attribute'', name]) (\<lambda>query.
       if query = None then Inr eap
       else
         bindE (get_query_value_type h query) (\<lambda>vtype.
         bindE (get_query_operator h query) (\<lambda>opr.
         bindE (get_query_value h query) (\<lambda>(tmp, tlen).
         bindE (eap_find (eap_data eap) at EHDR_SIZE (int (length (eap_data eap)) - int EHDR_SIZE))
           (\<lambda>(p, plen, found).
              case found of
                None \<Rightarrow> Inr eap
              | Some (alen, abytes) \<Rightarrow>
                  if 0 < plen then
                    (if vtype = VAL_TYPE_STRING \<and> opr = OP_TYPE_UPDATE then
                       bindE (eap_update (eap_data eap) p abytes tmp tlen) (\<lambda>d. Inr (eap\<lparr>eap_data := d\<rparr>))
                     else if opr = OP_TYPE_DROP then
                       bindE (eap_drop (eap_data eap) alen) (\<lambda>d. Inr (eap\<lparr>eap_data := d\<rparr>))
                     else Inr eap)
                  else Inr eap)))))"

definition eap_blocks :: "qheap \<Rightarrow> instance_t \<Rightarrow> string \<Rightarrow> (eap_payload_t \<Rightarrow> eap_payload_t cres) list" where
  "eap_blocks h inst mname =
     [eap_byte_block h inst mname ''code'', eap_byte_block h inst mname ''id'',
      eap_byte_block h inst mname ''type'',
      eap_attribute_block h inst mname ''at_rand'' AKA_TYPE_AT_RAND,
      eap_attribute_block h inst mname ''at_autn'' AKA_TYPE_AT_AUTN,
      eap_attribute_block h inst mname ''at_mac'' AKA_TYPE_AT_MAC,
      eap_attribute_block h inst mname ''at_checkcode'' AKA_TYPE_AT_CHECKCODE]"

definition process_extensible_authentication ::
  "qheap \<Rightarrow> instance_t \<Rightarrow> eap_payload_t \<Rightarrow> (int \<times> eap_payload_t) cres" where
  "process_extensible_authentication h inst eap =
     bindE (seqE (concat (map (eap_blocks h inst) [IKE_AUTH_1_RESPONSE, IKE_AUTH_2_RESPONSE])) eap)
       (\<lambda>eap'. Inr (COMPLETED, eap'))"

section \<open>Dispatch\<close>

text \<open>
  A payload handed to \<^verbatim>\<open>process_query\<close>; the header comes with the identifier of the IKE_SA and the
  table of hashes it may change. Any other payload is given by its type.
\<close>

datatype payload_t =
    P_Header hdr_state
  | P_KE ke_payload_t
  | P_Nonce nonce_payload_t
  | P_Notify notify_payload_t
  | P_Id_Responder id_payload_t
  | P_EAP eap_payload_t
  | P_Other int

fun payload_get_type :: "payload_t \<Rightarrow> int" where
  "payload_get_type (P_Header _) = PL_HEADER"
| "payload_get_type (P_KE _) = PLV2_KEY_EXCHANGE"
| "payload_get_type (P_Nonce _) = PLV2_NONCE"
| "payload_get_type (P_Notify _) = PLV2_NOTIFY"
| "payload_get_type (P_Id_Responder _) = PLV2_ID_RESPONDER"
| "payload_get_type (P_EAP _) = PLV2_EAP"
| "payload_get_type (P_Other t) = t"

fun payload_notify_type :: "payload_t \<Rightarrow> int option" where
  "payload_notify_type (P_Notify n) = Some (n_type n)"
| "payload_notify_type _ = None"

fun process_payload ::
  "(string \<Rightarrow> nat) \<Rightarrow> qheap \<Rightarrow> instance_t \<Rightarrow> int \<Rightarrow> payload_t \<Rightarrow> (int \<times> payload_t \<times> qheap) cres" where
  "process_payload chunk_hash h inst ret (P_Header st) =
     bindE (process_ike_header chunk_hash h inst st) (\<lambda>(ret, st', h'). Inr (ret, P_Header st', h'))"
| "process_payload chunk_hash h inst ret (P_KE ke) =
     bindE (process_key_exchange h inst ke) (\<lambda>(ret, ke'). Inr (ret, P_KE ke', h))"
| "process_payload chunk_hash h inst ret (P_Nonce np) =
     bindE (process_nonce h inst np) (\<lambda>(ret, np'). Inr (ret, P_Nonce np', h))"
| "process_payload chunk_hash h inst ret (P_Notify n) =
     bindE (check_exceptional_case inst n) (\<lambda>ex.
       if \<not> ex then
         bindE (process_notify h inst n) (\<lambda>(ret, n', h'). Inr (ret, P_Notify n', h'))
       else Inr (COMPLETED, P_Notify n, h))"
| "process_payload chunk_hash h inst ret (P_Id_Responder p) =
     bindE (process_identification_responder h inst p) (\<lambda>(ret, p'). Inr (ret, P_Id_Responder p', h))"
| "process_payload chunk_hash h inst ret (P_EAP eap) =
     bindE (process_extensible_authentication h inst eap) (\<lambda>(ret, eap'). Inr (ret, P_EAP eap', h))"
| "process_payload chunk_hash h inst ret (P_Other t) = Inr (ret, P_Other t, h)"

definition process_query ::
  "(string \<Rightarrow> nat) \<Rightarrow> qheap \<Rightarrow> instance_t \<Rightarrow> payload_t \<Rightarrow> payload_t option \<Rightarrow>
   (int \<times> payload_t \<times> qheap) cres" where
  "process_query chunk_hash h inst payload nxt =
     bindE (check_drop_next h inst
              (map_option (\<lambda>n. (payload_get_type n, payload_notify_type n)) nxt)) (\<lambda>ret.
       if ret \<noteq> 0 then Inr (ret, payload, h)
       else process_payload chunk_hash h inst ret payload)"

end
