(* ===== verification/Process_Proofs.thy ===== *)
theory Process_Proofs
  imports Epdg_Eap
begin

text \<open>
  What the query processing does, in terms of the tree that the instance points to: without a query
  it changes nothing; a query drops exactly the payload it names; an update sets exactly the field it
  names. The last part shows where the processing leaves defined behaviour.
\<close>

section \<open>Blocks on trees\<close>

lemma subtree_rep:
  "qrep h par t \<Longrightarrow> subtree t names = Some s \<Longrightarrow> \<exists>par'. qrep h par' s"
proof (induction names arbitrary: par t)
  case (Cons name names)
  then obtain u where u: "find (named name) (qt_subs t) = Some u" "subtree u names = Some s"
    by (auto split: option.splits)
  then have "u \<in> set (qt_subs t)" by (metis find_Some_iff nth_mem)
  then show ?case using Cons.IH [OF qrep_subs [OF Cons.prems(1)] u(2)] by blast
qed auto

lemma tree_at_node:
  assumes "query_ok h t" and "tree_at t mname path = Some s"
  shows "\<exists>n. qh_mem h (qt_addr s) = Some n \<and> data_of n = qt_data s"
proof -
  obtain par where "qrep h par t" using assms(1) by (auto simp: query_ok_def tree_ok_def)
  moreover have "subtree t path = Some s" using assms(2) by (auto simp: tree_at_def split: if_splits)
  ultimately obtain par' where "qrep h par' s" using subtree_rep by blast
  then show ?thesis using qrep_node by blast
qed

text \<open>The processing looks at the query only through the nodes at paths.\<close>

definition installed :: "qheap \<Rightarrow> instance_t \<Rightarrow> qtree \<Rightarrow> bool" where
  "installed h inst t \<longleftrightarrow> query_ok h t \<and> i_query inst = Some (qt_addr t)"

definition tree_update ::
  "qtree \<Rightarrow> string \<Rightarrow> string list \<Rightarrow> int list \<Rightarrow> (addr \<Rightarrow> int \<Rightarrow> cbuf \<Rightarrow> int \<Rightarrow> 's cres) \<Rightarrow> 's \<Rightarrow> 's cres" where
  "tree_update t mname path vtypes f st =
     (case tree_at t mname path of
        None \<Rightarrow> Inr st
      | Some s \<Rightarrow>
          (let d = qt_data s in
           if q_vtype d \<in> set vtypes \<and> q_op d = OP_TYPE_UPDATE
           then f (qt_addr s) (q_vtype d) (q_value d) (q_vlen d) else Inr st))"

lemma get_fields_node:
  assumes "qh_mem h a = Some n"
  shows "get_query_value_type h (Some a) = Inr (q_vtype (data_of n))"
    "get_query_operator h (Some a) = Inr (q_op (data_of n))"
    "get_query_value h (Some a) = Inr (q_value (data_of n), q_vlen (data_of n))"
  using assms
  by (simp_all add: get_query_value_type_def get_query_operator_def get_query_value_def truncate_fields)

lemma when_update_rep:
  assumes "installed h inst t" and "mname \<noteq> []" and "[] \<notin> set path"
  shows "when_update h inst mname path vtypes f st = tree_update t mname path vtypes f st"
proof (cases "tree_at t mname path")
  case None
  then show ?thesis using assms query_at_rep [of h t inst mname path]
    by (simp add: installed_def when_update_def tree_update_def)
next
  case (Some s)
  then obtain n where n: "qh_mem h (qt_addr s) = Some n" "data_of n = qt_data s"
    using assms(1) tree_at_node unfolding installed_def by blast
  then show ?thesis using Some assms query_at_rep [of h t inst mname path]
    by (auto simp: installed_def when_update_def tree_update_def get_fields_node Let_def)
qed

lemma when_update_none:
  "i_query inst = None \<Longrightarrow> when_update h inst mname path vtypes f st = Inr st"
  by (simp add: when_update_def query_at_null)

lemma message_names_nonempty [simp]:
  "IKE_SA_INIT_RESPONSE \<noteq> []" "IKE_AUTH_1_RESPONSE \<noteq> []" "IKE_AUTH_2_RESPONSE \<noteq> []"
  "IKE_AUTH_3_RESPONSE \<noteq> []" "IKE_AUTH_4_RESPONSE \<noteq> []"
  by (simp_all add: message_names)

section \<open>No query\<close>

lemma check_drop_next_none: "i_query inst = None \<Longrightarrow> check_drop_next h inst nxt = Inr COMPLETED"
proof -
  assume q: "i_query inst = None"
  have "drop_block h inst type ntype b ret = Inr ret" for type ntype b ret
    by (cases b) (simp add: drop_block_def query_at_null [OF q])
  then show ?thesis
    by (auto simp: check_drop_next_def split: option.splits intro!: seqE_id)
qed

lemma hdr_blocks_none: "i_query inst = None \<Longrightarrow> seqE (hdr_blocks ch h inst mname) st = Inr st"
  by (simp add: hdr_blocks_def hdr_initiator_spi_def hdr_responder_spi_def hdr_major_version_def
      hdr_minor_version_def hdr_exchange_type_def hdr_flags_def hdr_message_id_def hdr_int_block_def
      when_update_none)

lemma process_payload_none:
  assumes "i_query inst = None"
  shows "\<exists>p'. process_payload ch h inst COMPLETED p = Inr (COMPLETED, p', h) \<and>
           (case p of P_Header st \<Rightarrow> p' = P_Header (st\<lparr>hs_tmp := None\<rparr>) | _ \<Rightarrow> p' = p)"
proof (cases p)
  case (P_Header st)
  have "seqE (concat (map (hdr_blocks ch h inst) hdr_messages)) s = Inr s" for s
    by (rule seqE_concat_id) (rule hdr_blocks_none [OF assms])
  then show ?thesis using P_Header by (simp add: process_ike_header_def free_value_def)
qed (use assms in \<open>simp_all add: process_key_exchange_def process_nonce_def process_notify_def
      notify_block_def process_identification_responder_def check_exceptional_case_def get_query_def
      when_update_none free_value_def process_extensible_authentication_def eap_blocks_def
      eap_byte_block_def eap_attribute_block_def query_at_null\<close>)

section \<open>Dropping payloads\<close>

definition drop_hit :: "qtree \<Rightarrow> int \<Rightarrow> int option \<Rightarrow> (string \<times> string list \<times> int \<times> int option) \<Rightarrow> bool" where
  "drop_hit t type ntype b \<longleftrightarrow>
     (case b of (mname, path, ptype, pntype) \<Rightarrow>
        type = ptype \<and> (pntype = None \<or> ntype = pntype) \<and>
        (case tree_at t mname path of None \<Rightarrow> False | Some s \<Rightarrow> q_op (qt_data s) = OP_TYPE_DROP))"

lemma drop_block_rep:
  assumes "installed h inst t" and "fst b \<noteq> []" and "[] \<notin> set (fst (snd b))"
  shows "drop_block h inst type ntype b ret = Inr (if drop_hit t type ntype b then NEED_DROP_NEXT else ret)"
proof -
  obtain mname path ptype pntype where b: "b = (mname, path, ptype, pntype)" by (cases b)
  have q: "query_at h inst mname path = Inr (map_option qt_addr (tree_at t mname path))"
    using assms b by (intro query_at_rep) (auto simp: installed_def)
  show ?thesis
  proof (cases "tree_at t mname path")
    case None
    then show ?thesis using b q by (simp add: drop_block_def drop_hit_def)
  next
    case (Some s)
    then obtain n where "qh_mem h (qt_addr s) = Some n" "data_of n = qt_data s"
      using assms(1) tree_at_node unfolding installed_def by blast
    then show ?thesis using b q Some by (auto simp: drop_block_def drop_hit_def get_fields_node)
  qed
qed

lemma drop_blocks_paths: "b \<in> set drop_blocks \<Longrightarrow> fst b \<noteq> [] \<and> [] \<notin> set (fst (snd b))"
  by (auto simp: drop_blocks_def)

lemma seqE_flag:
  assumes "\<And>b r. b \<in> set bs \<Longrightarrow> f b r = Inr (if P b then c else r)"
  shows "seqE (map f bs) r = Inr (if \<exists>b\<in>set bs. P b then c else r)"
  using assms
proof (induction bs arbitrary: r)
  case (Cons b bs)
  then show ?case by (auto split: if_splits)
qed simp

lemma check_drop_next_rep:
  assumes "installed h inst t"
  shows "check_drop_next h inst (Some (type, ntype)) =
           Inr (if \<exists>b\<in>set drop_blocks. drop_hit t type ntype b then NEED_DROP_NEXT else COMPLETED)"
  unfolding check_drop_next_def
  using seqE_flag [of drop_blocks "drop_block h inst type ntype" "drop_hit t type ntype" NEED_DROP_NEXT
      COMPLETED] drop_block_rep [OF assms] drop_blocks_paths by auto

section \<open>Header fields\<close>

definition hdr_int_attrs :: "string list" where
  "hdr_int_attrs = [''initiator_spi'', ''ike_major_version'', ''ike_minor_version'', ''exchange_type'',
     ''message_id'']"

definition hdr_dec_type :: "string \<Rightarrow> int" where
  "hdr_dec_type attr =
     (if attr = ''initiator_spi'' then VAL_TYPE_UINT64
      else if attr = ''message_id'' then VAL_TYPE_UINT32 else VAL_TYPE_UINT8)"

text \<open>The field an attribute names, and the value it gets: the number at the width of the field.\<close>

definition hdr_effect :: "string \<Rightarrow> 32 word \<Rightarrow> hdr_state \<Rightarrow> hdr_state" where
  "hdr_effect attr v st =
     (if attr = ''initiator_spi'' then
        st\<lparr>hs_header := (hs_header st)\<lparr>h_initiator_spi := scast v\<rparr>,
           hs_said := (hs_said st)\<lparr>id_initiator_spi := scast v\<rparr>\<rparr>
      else if attr = ''ike_major_version'' then
        st\<lparr>hs_header := (hs_header st)\<lparr>h_maj_version := ucast v\<rparr>\<rparr>
      else if attr = ''ike_minor_version'' then
        st\<lparr>hs_header := (hs_header st)\<lparr>h_min_version := ucast v\<rparr>\<rparr>
      else if attr = ''exchange_type'' then
        st\<lparr>hs_header := (hs_header st)\<lparr>h_exchange_type := ucast v\<rparr>\<rparr>
      else st\<lparr>hs_header := (hs_header st)\<lparr>h_message_id := v\<rparr>\<rparr>)"

text \<open>A query with a single attribute.\<close>

definition single_attr :: "qtree \<Rightarrow> string \<Rightarrow> string \<Rightarrow> qtree \<Rightarrow> bool" where
  "single_attr t mname attr s \<longleftrightarrow> named mname t \<and> qt_subs t = [s] \<and> named attr s"

lemma single_attr_at:
  assumes "single_attr t mname attr s"
  shows "tree_at t m [a] = (if m = mname \<and> a = attr then Some s else None)"
  using assms by (auto simp: single_attr_def tree_at_def named_def)

lemma hdr_blocks_other:
  assumes "installed h inst t" and "\<not> named m t" and "m \<noteq> []"
  shows "seqE (hdr_blocks ch h inst m) st = Inr st"
  using assms(2)
  by (simp add: hdr_blocks_def hdr_initiator_spi_def hdr_responder_spi_def hdr_major_version_def
      hdr_minor_version_def hdr_exchange_type_def hdr_flags_def hdr_message_id_def hdr_int_block_def
      when_update_rep [OF assms(1,3)] tree_update_def tree_at_def)

lemma value_int_digits:
  assumes "\<forall>c\<in>set v. is_digit c"
  shows "value_int (CBuf v) (int (length v)) 10 = Inr (word_of_nat (number_of_digits 10 (map digit_val v)))"
  using char_to_int_decimal [OF assms, of 10 "[NUL]"] by (simp add: value_int_def)

lemma hdr_int_block_rep:
  assumes "installed h inst t" and "single_attr t m attr s" and "m \<noteq> []" and "a \<noteq> []"
    and "q_op (qt_data s) = OP_TYPE_UPDATE" and "a = attr \<Longrightarrow> q_vtype (qt_data s) = dec"
    and "value_int (q_value (qt_data s)) (q_vlen (qt_data s)) 10 = Inr v"
  shows "hdr_int_block h inst m a dec hex f st =
           (if a = attr then f v (st\<lparr>hs_tmp := Some (qt_addr s)\<rparr>) else Inr st)"
  unfolding hdr_int_block_def
  by (subst when_update_rep [OF assms(1,3)])
    (use assms(4-) in \<open>auto simp: tree_update_def single_attr_at [OF assms(2)]\<close>)

lemma hdr_flags_other:
  assumes "installed h inst t" and "single_attr t m attr s" and "m \<noteq> []" and "attr \<noteq> ''flags''"
  shows "hdr_flags h inst m st = Inr st"
  unfolding hdr_flags_def
  by (subst when_update_rep [OF assms(1,3)]) (use assms(4) in \<open>auto simp: tree_update_def single_attr_at [OF assms(2)]\<close>)

lemma hdr_blocks_hit:
  assumes inst: "installed h inst t" and t: "single_attr t m attr s" "m \<noteq> []" "attr \<in> set hdr_int_attrs"
    and d: "q_op (qt_data s) = OP_TYPE_UPDATE" "q_vtype (qt_data s) = hdr_dec_type attr"
      "value_int (q_value (qt_data s)) (q_vlen (qt_data s)) 10 = Inr v"
  shows "seqE (hdr_blocks ch h inst m) st = Inr (hdr_effect attr v (st\<lparr>hs_tmp := Some (qt_addr s)\<rparr>))"
proof -
  let ?st = "\<lambda>st. st\<lparr>hs_tmp := Some (qt_addr s)\<rparr>"
  have block: "hdr_int_block h inst m a dec hex f st = (if a = attr then f v (?st st) else Inr st)"
    if "a \<noteq> []" "a = attr \<Longrightarrow> dec = hdr_dec_type attr" for a dec hex f st
    using hdr_int_block_rep [OF inst t(1,2) that(1) d(1) _ d(3)] that(2) d(2) by simp
  define g where "g a st = (if a = attr then hdr_effect attr v (?st st) else st)" for a st
  have 1: "hdr_initiator_spi h inst m st = Inr (g ''initiator_spi'' st)" for st
    unfolding hdr_initiator_spi_def by (subst block) (auto simp: g_def hdr_dec_type_def hdr_effect_def)
  have 2: "hdr_responder_spi ch h inst m st = Inr st" for st
    unfolding hdr_responder_spi_def by (subst block) (use t(3) in \<open>auto simp: hdr_int_attrs_def\<close>)
  have 3: "hdr_major_version h inst m st = Inr (g ''ike_major_version'' st)" for st
    unfolding hdr_major_version_def by (subst block) (auto simp: g_def hdr_dec_type_def hdr_effect_def)
  have 4: "hdr_minor_version h inst m st = Inr (g ''ike_minor_version'' st)" for st
    unfolding hdr_minor_version_def by (subst block) (auto simp: g_def hdr_dec_type_def hdr_effect_def)
  have 5: "hdr_exchange_type h inst m st = Inr (g ''exchange_type'' st)" for st
    unfolding hdr_exchange_type_def by (subst block) (auto simp: g_def hdr_dec_type_def hdr_effect_def)
  have 6: "hdr_message_id h inst m st = Inr (g ''message_id'' st)" for st
    unfolding hdr_message_id_def by (subst block) (auto simp: g_def hdr_dec_type_def hdr_effect_def)
  have 7: "hdr_flags h inst m st = Inr st" for st
    using t(3) by (intro hdr_flags_other [OF inst t(1,2)]) (auto simp: hdr_int_attrs_def)
  have g: "g attr st = hdr_effect attr v (?st st)" "a \<noteq> attr \<Longrightarrow> g a st = st" for a st
    by (simp_all add: g_def)
  from t(3) have "attr = ''initiator_spi'' \<or> attr = ''ike_major_version'' \<or>
      attr = ''ike_minor_version'' \<or> attr = ''exchange_type'' \<or> attr = ''message_id''"
    unfolding hdr_int_attrs_def by simp
  then have "g ''message_id'' (g ''exchange_type'' (g ''ike_minor_version''
      (g ''ike_major_version'' (g ''initiator_spi'' st)))) = g attr st"
    by (elim disjE) (simp_all add: g(2))
  then show ?thesis unfolding hdr_blocks_def seqE.simps 1 2 3 4 5 6 7 bindE.simps g(1) by simp
qed

lemma hdr_messages_distinct: "distinct hdr_messages" "m \<in> set hdr_messages \<Longrightarrow> m \<noteq> []"
  by (auto simp: hdr_messages_def message_names)

lemma named_unique: "named m t \<Longrightarrow> named m' t \<Longrightarrow> m = m'"
  by (simp add: named_def)

lemma hdr_effect_tmp: "hdr_effect attr v (st\<lparr>hs_tmp := x\<rparr>) = (hdr_effect attr v st)\<lparr>hs_tmp := x\<rparr>"
  by (simp add: hdr_effect_def)

lemma single_attr_length:
  assumes "installed h inst t" and "single_attr t m attr s" and "q_value (qt_data s) = CBuf v"
  shows "q_vlen (qt_data s) = int (length v)"
proof -
  have "data_ok (qt_data s)"
    using assms(1,2) all_data_root [OF all_data_subs [of data_ok t s]]
    by (auto simp: installed_def query_ok_def tree_ok_def single_attr_def)
  then show ?thesis using assms(3) by (simp add: data_ok_def)
qed

text \<open>Only the blocks of the message that the query names do anything.\<close>

lemma hdr_message_only:
  assumes inst: "installed h inst t" and m: "named m t" "m \<in> set hdr_messages"
  shows "seqE (concat (map (hdr_blocks ch h inst) hdr_messages)) st = seqE (hdr_blocks ch h inst m) st"
proof (rule seqE_concat_single [OF m(2) hdr_messages_distinct(1)])
  fix x s' assume "x \<in> set hdr_messages" "x \<noteq> m"
  then show "seqE (hdr_blocks ch h inst x) s' = Inr s'"
    using hdr_messages_distinct(2) named_unique [OF m(1)] by (intro hdr_blocks_other [OF inst]) auto
qed

lemma process_ike_header_update:
  assumes inst: "installed h inst t" and t: "single_attr t m attr s" "m \<in> set hdr_messages"
      "attr \<in> set hdr_int_attrs"
    and d: "q_op (qt_data s) = OP_TYPE_UPDATE" "q_vtype (qt_data s) = hdr_dec_type attr"
      "q_value (qt_data s) = CBuf v" "\<forall>c\<in>set v. is_digit c"
  shows "\<exists>n. qh_mem h (qt_addr s) = Some n \<and> data_of n = qt_data s \<and>
    process_ike_header ch h inst st =
      Inr (COMPLETED,
           (hdr_effect attr (word_of_nat (number_of_digits 10 (map digit_val v))) st)
             \<lparr>hs_tmp := Some (qt_addr s)\<rparr>,
           store h (qt_addr s) (n\<lparr>q_value := CFreed\<rparr>))"
proof -
  have m: "m \<noteq> []" "named m t" using t hdr_messages_distinct by (auto simp: single_attr_def)
  have sub: "tree_at t m [attr] = Some s" using single_attr_at [OF t(1)] by simp
  obtain n where n: "qh_mem h (qt_addr s) = Some n" "data_of n = qt_data s"
    using tree_at_node [OF _ sub] inst by (auto simp: installed_def)
  have len: "q_vlen (qt_data s) = int (length v)" using single_attr_length [OF inst t(1) d(3)] .
  have v: "value_int (q_value (qt_data s)) (q_vlen (qt_data s)) 10
           = Inr (word_of_nat (number_of_digits 10 (map digit_val v)))"
    using value_int_digits [OF d(4)] d(3) len by simp
  note hdr_message_only [OF inst m(2) t(2)]
  then have "seqE (concat (map (hdr_blocks ch h inst) hdr_messages)) (st\<lparr>hs_tmp := None\<rparr>)
      = Inr ((hdr_effect attr (word_of_nat (number_of_digits 10 (map digit_val v))) st)
             \<lparr>hs_tmp := Some (qt_addr s)\<rparr>)"
    using hdr_blocks_hit [OF inst t(1) m(1) t(3) d(1,2) v] by (simp add: hdr_effect_tmp)
  moreover have "q_value n = CBuf v" using n(2) d(3) by (simp add: truncate_fields flip: n(2))
  ultimately show ?thesis
    using n by (simp add: process_ike_header_def free_value_def)
qed

lemma responder_spi_blocks:
  assumes inst: "installed h inst t" and t: "single_attr t m ''responder_spi'' s" "m \<noteq> []"
    and d: "q_op (qt_data s) = OP_TYPE_UPDATE" "q_vtype (qt_data s) = VAL_TYPE_UINT64"
      "value_int (q_value (qt_data s)) (q_vlen (qt_data s)) 10 = Inr v"
  shows "seqE (hdr_blocks ch h inst m) st =
    bindE (set_our_spi ch inst (scast v) (hs_table st)) (\<lambda>table.
      Inr (st\<lparr>hs_tmp := Some (qt_addr s), hs_header := (hs_header st)\<lparr>h_responder_spi := scast v\<rparr>,
              hs_said := (hs_said st)\<lparr>id_responder_spi := scast v\<rparr>, hs_table := table\<rparr>))"
proof -
  have other: "hdr_int_block h inst m a dec hex f st = Inr st"
    if "a \<noteq> []" "a \<noteq> ''responder_spi''" for a dec hex f st
    using hdr_int_block_rep [OF inst t(1,2) that(1) d(1) _ d(3), of dec] that(2) by simp
  have hit: "hdr_int_block h inst m ''responder_spi'' VAL_TYPE_UINT64 hex f st = f v (st\<lparr>hs_tmp := Some (qt_addr s)\<rparr>)"
    for hex f st
    using hdr_int_block_rep [OF inst t(1,2) _ d(1) _ d(3), of "''responder_spi''" VAL_TYPE_UINT64] d(2) by simp
  have flags: "hdr_flags h inst m st = Inr st" for st by (rule hdr_flags_other [OF inst t]) simp
  show ?thesis
    by (simp add: hdr_blocks_def hdr_initiator_spi_def hdr_responder_spi_def hdr_major_version_def
        hdr_minor_version_def hdr_exchange_type_def hdr_message_id_def other hit flags bindE_assoc)
qed

section \<open>Released values\<close>

fun map_at :: "addr \<Rightarrow> (qdata \<Rightarrow> qdata) \<Rightarrow> qtree \<Rightarrow> qtree" where
  "map_at b f (QNode a d ts) = QNode a (if a = b then f d else d) (map (map_at b f) ts)"

lemma map_at_simps [simp]:
  "qt_addr (map_at b f t) = qt_addr t" "first_addr (map (map_at b f) ts) = first_addr ts"
  by (cases t, simp) (cases ts, simp_all, metis map_at.simps qtree.exhaust_sel qtree.sel(1))

lemma addrs_map_at [simp]: "addrs (map_at b f t) = addrs t"
proof (induction t)
  case (QNode a d ts)
  then have "map (addrs \<circ> map_at b f) ts = map addrs ts" by simp
  then show ?case by (simp only: map_at.simps addrs.simps map_map)
qed

lemma chain_map_at:
  "qh_mem h b = Some n \<Longrightarrow> q_next n' = q_next n \<Longrightarrow> chain h ts \<Longrightarrow> chain (store h b n') (map (map_at b f) ts)"
  by (induction ts) (auto simp: store_def)

lemma qrep_map_at:
  assumes "qh_mem h b = Some n" and "data_of n' = f (data_of n)" and "q_parent n' = q_parent n"
    and "q_sub n' = q_sub n" and "q_next n' = q_next n"
  shows "qrep h par t \<Longrightarrow> qrep (store h b n') par (map_at b f t)"
proof (induction t arbitrary: par)
  case (QNode a d ts)
  then show ?case
    using assms chain_map_at [OF assms(1,5), of ts f] by (auto simp: store_def)
qed

lemma query_ok_map_at:
  assumes "query_ok h t" and "qh_mem h b = Some n" and "data_of n' = f (data_of n)"
    and "q_parent n' = q_parent n" and "q_sub n' = q_sub n" and "q_next n' = q_next n"
    and "\<And>d. data_ok d \<Longrightarrow> data_ok (f d)"
  shows "query_ok (store h b n') (map_at b f t)"
proof -
  have "all_data data_ok t \<Longrightarrow> all_data data_ok (map_at b f t)" for t
    by (induction t) (use assms(7) in auto)
  moreover have "heap_wf h \<Longrightarrow> heap_wf (store h b n')"
    using assms(2) by (auto simp: heap_wf_def store_def)
  ultimately show ?thesis
    using assms(1) qrep_map_at [where n = n and n' = n' and f = f and h = h and b = b] assms(2-6)
    by (auto simp: query_ok_def tree_ok_def)
qed

lemma map_at_not_live:
  "b \<in> set (addrs t) \<Longrightarrow> \<not> all_data value_live (map_at b (\<lambda>d. d\<lparr>q_value := CFreed\<rparr>) t)"
  by (induction t) auto

text \<open>Once the value of a node was released the query cannot be released any more.\<close>

lemma free_after_free_value:
  assumes "query_ok h t" and "qh_mem h b = Some n" and "b \<in> set (addrs t)"
  shows "free_query (store h b (n\<lparr>q_value := CFreed\<rparr>)) (Some (qt_addr t)) = Inl DoubleFree"
proof -
  let ?f = "\<lambda>d :: qdata. d\<lparr>q_value := CFreed\<rparr>"
  have "query_ok (store h b (n\<lparr>q_value := CFreed\<rparr>)) (map_at b ?f t)"
    using assms(1,2)
    by (rule query_ok_map_at) (auto simp: data_ok_def qdata.defs split: option.splits)
  from free_query_result [OF this] show ?thesis
    using map_at_not_live [OF assms(3)] by (simp add: freed_result_def)
qed

lemma tree_at_addr: "tree_at t m path = Some s \<Longrightarrow> qt_addr s \<in> set (addrs t)"
proof -
  have "subtree t path = Some s \<Longrightarrow> set (addrs s) \<subseteq> set (addrs t)" for t path
  proof (induction path arbitrary: t)
    case (Cons name path)
    then obtain u where u: "find (named name) (qt_subs t) = Some u" "subtree u path = Some s"
      by (auto split: option.splits)
    then have "u \<in> set (qt_subs t)" by (metis find_Some_iff nth_mem)
    then have "set (addrs u) \<subseteq> set (addrs t)" by (cases t) auto
    then show ?case using Cons.IH [OF u(2)] by blast
  qed simp
  then show "tree_at t m path = Some s \<Longrightarrow> qt_addr s \<in> set (addrs t)"
    unfolding tree_at_def by (meson option.distinct(1) qt_addr_in_addrs subsetD)
qed

end
