(* ===== verification/Epdg_Generate.thy ===== *)
theory Epdg_Generate
  imports Process_Proofs
begin

text \<open>
  The generation of a message with the query applied to it: the part that the framework added to
  \<^verbatim>\<open>generate_message\<close> of \<^verbatim>\<open>message.c\<close> (padding a message to a size, the loop that hands every payload
  with its successor to \<^verbatim>\<open>process_query\<close> and leaves out dropped ones), and the change of the
  integrity check value in \<^verbatim>\<open>encrypted_payload.c\<close>.
\<close>

section \<open>Definitions\<close>

text \<open>\<^verbatim>\<open>check_instance(instance, ispi, rspi, NON_UPDATE)\<close> where the instance exists.\<close>

definition bound :: "instance_t \<Rightarrow> 64 word \<Rightarrow> 64 word \<Rightarrow> bool \<times> instance_t" where
  "bound inst ispi rspi =
     (case check_instance (Some inst) ispi rspi False of
        (ret, None) \<Rightarrow> (ret, inst)
      | (ret, Some inst') \<Rightarrow> (ret, inst'))"

subsection \<open>The size of a message\<close>

text \<open>\<^verbatim>\<open>add_notify(message, FALSE, type, chunk_empty)\<close> of an IKEv2 message, on its list of payloads.\<close>

definition add_notify :: "payload_t list \<Rightarrow> int \<Rightarrow> payload_t list" where
  "add_notify payloads type =
     payloads @ [P_Notify (set_notification_data
       \<lparr>n_type = type, n_header_length = 8, n_data = [], n_payload_length = 8\<rparr> [])]"

primrec add_notifies :: "nat \<Rightarrow> int \<Rightarrow> payload_t list \<Rightarrow> payload_t list" where
  "add_notifies 0 ntype payloads = payloads"
| "add_notifies (Suc n) ntype payloads = add_notifies n (ntype + 1) (add_notify payloads ntype)"

definition message_size_block ::
  "qheap \<Rightarrow> instance_t \<Rightarrow> string \<Rightarrow> payload_t list \<Rightarrow> payload_t list cres" where
  "message_size_block h inst mname payloads =
     when_update h inst mname [''message_size''] [VAL_TYPE_UINT16]
       (\<lambda>a vtype tmp tlen. bindE (value_int tmp tlen 10) (\<lambda>v.
          let nnoti = uint (ucast v :: 16 word) div 8 - 10
          in Inr (add_notifies (nat nnoti) 10000 payloads))) payloads"

subsection \<open>The loop over the payloads\<close>

abbreviation NOT_SET :: int where "NOT_SET \<equiv> - 1"

text \<open>
  The loop over the successors: the payload at hand, the last result of \<^verbatim>\<open>process_query\<close>, heap and
  instance are the state. The generated payloads come with the type they announce as next one; the
  last payload is left for the statements after the loop.
\<close>

primrec generate_loop ::
  "(string \<Rightarrow> nat) \<Rightarrow> 64 word \<Rightarrow> 64 word \<Rightarrow> payload_t list \<Rightarrow> int \<Rightarrow> payload_t \<Rightarrow> qheap \<Rightarrow>
   instance_t \<Rightarrow> ((payload_t \<times> int) list \<times> payload_t \<times> qheap \<times> instance_t) cres" where
  "generate_loop chunk_hash ispi rspi [] pret payload h inst = Inr ([], payload, h, inst)"
| "generate_loop chunk_hash ispi rspi (nxt # rest) pret payload h inst =
     (case bound inst ispi rspi of (ret, inst') \<Rightarrow>
        bindE (if ret then process_query chunk_hash h inst' payload (Some nxt)
               else Inr (pret, payload, h)) (\<lambda>(pret', payload', h').
          if pret' = NEED_DROP_NEXT then generate_loop chunk_hash ispi rspi rest pret' payload' h' inst'
          else bindE (generate_loop chunk_hash ispi rspi rest pret' nxt h' inst') (\<lambda>(out, final, st).
            Inr ((payload', payload_get_type nxt) # out, final, st))))"

text \<open>
  The whole generation. \<open>next_type\<close> is the type of the payload that follows the list: the encrypted
  payload, or none.
\<close>

definition generate_message ::
  "(string \<Rightarrow> nat) \<Rightarrow> qheap \<Rightarrow> instance_t \<Rightarrow> 64 word \<Rightarrow> 64 word \<Rightarrow> payload_t \<Rightarrow> payload_t list \<Rightarrow> int \<Rightarrow>
   ((payload_t \<times> int) list \<times> qheap \<times> instance_t) cres" where
  "generate_message chunk_hash h inst ispi rspi header payloads next_type =
     (case bound inst ispi rspi of (ret, inst') \<Rightarrow>
        bindE (if ret then seqE (map (message_size_block h inst') hdr_messages) payloads
               else Inr payloads) (\<lambda>payloads'.
        bindE (generate_loop chunk_hash ispi rspi payloads' NOT_SET header h inst')
          (\<lambda>(out, final, h', inst''). Inr (out @ [(final, next_type)], h', inst''))))"

subsection \<open>The integrity check value\<close>

text \<open>\<open>rand i\<close> is what the call of \<^verbatim>\<open>rand\<close> for byte \<open>i\<close> returns.\<close>

definition mac_block ::
  "(nat \<Rightarrow> nat) \<Rightarrow> qheap \<Rightarrow> instance_t \<Rightarrow> string \<Rightarrow> string \<Rightarrow> string cres" where
  "mac_block rand h inst mname icv =
     when_update h inst mname [''message_authentication_code''] [VAL_TYPE_STRING]
       (\<lambda>a vtype tmp tlen.
          bindE (value_is tmp ''min'' 3) (\<lambda>b. if b then Inr (map (\<lambda>_. CHR 0x00) icv) else
          bindE (value_is tmp ''max'' 3) (\<lambda>b. if b then Inr (map (\<lambda>_. CHR 0xFF) icv) else
          bindE (value_is tmp ''median'' 6) (\<lambda>b. if b then Inr (map (\<lambda>_. CHR 0x88) icv) else
          bindE (value_is tmp ''mean'' 4) (\<lambda>b. if b then Inr (map (\<lambda>_. CHR 0x88) icv) else
          bindE (value_is tmp ''random'' 6) (\<lambda>b.
            Inr (if b then map (\<lambda>i. char_of (rand i mod 255)) [0..<length icv] else icv))))))) icv"

definition change_mac ::
  "(nat \<Rightarrow> nat) \<Rightarrow> qheap \<Rightarrow> instance_t \<Rightarrow> 64 word \<Rightarrow> 64 word \<Rightarrow> string \<Rightarrow> (string \<times> instance_t) cres" where
  "change_mac rand h inst ispi rspi icv =
     (case bound inst ispi rspi of (ret, inst') \<Rightarrow>
        bindE (if ret then
                 seqE (map (mac_block rand h inst')
                        [IKE_AUTH_1_RESPONSE, IKE_AUTH_2_RESPONSE, IKE_AUTH_3_RESPONSE]) icv
               else Inr icv) (\<lambda>icv'. Inr (icv', inst')))"

section \<open>Lemmas\<close>

lemma snd_bound: "snd (bound inst ispi rspi) = (if rspi = 0 then inst\<lparr>i_pispi := i_ispi inst\<rparr> else inst)"
  by (auto simp: bound_def check_instance_def Let_def)

lemma bound_query [simp]: "bound inst ispi rspi = (ret, inst') \<Longrightarrow> i_query inst' = i_query inst"
  by (metis instance_t.select_convs(7) instance_t.surjective instance_t.update_convs(3) snd_bound snd_conv)

subsection \<open>Nothing installed\<close>

text \<open>What the generation makes of a header and its payloads when nothing is changed.\<close>

definition plain_payload :: "payload_t \<Rightarrow> payload_t" where
  "plain_payload p = (case p of P_Header st \<Rightarrow> P_Header (st\<lparr>hs_tmp := None\<rparr>) | _ \<Rightarrow> p)"

fun chained :: "payload_t \<Rightarrow> payload_t list \<Rightarrow> int \<Rightarrow> (payload_t \<times> int) list" where
  "chained p [] next_type = [(p, next_type)]"
| "chained p (q # ps) next_type = (p, payload_get_type q) # chained q ps next_type"

lemma process_query_plain:
  assumes "i_query inst = None"
  shows "process_query ch h inst p nxt = Inr (COMPLETED, plain_payload p, h)"
  using process_payload_none [OF assms, of ch h p] check_drop_next_none [OF assms]
  by (cases p) (simp_all add: process_query_def plain_payload_def)

text \<open>
  The two ways a header can leave: processed, with the local pointer reset, or as it came in when it is
  the only payload or the instance is not bound.
\<close>

lemma generate_loop_plain:
  assumes "i_query inst = None" and "pret \<noteq> NEED_DROP_NEXT" and "plain_payload p = p"
    and "\<forall>q\<in>set ps. plain_payload q = q"
  shows "\<exists>out final inst'. generate_loop ch ispi rspi ps pret p h inst = Inr (out, final, h, inst') \<and>
           i_query inst' = None \<and> out @ [(final, next_type)] = chained p ps next_type"
  using assms
proof (induction ps arbitrary: pret p inst)
  case (Cons q ps)
  obtain ret inst1 where b: "bound inst ispi rspi = (ret, inst1)" by force
  have q1: "i_query inst1 = None" using bound_query [OF b] Cons.prems(1) by simp
  have "\<exists>pret'. (if ret then process_query ch h inst1 p (Some q) else Inr (pret, p, h)) = Inr (pret', p, h) \<and>
      pret' \<noteq> NEED_DROP_NEXT"
    using process_query_plain [OF q1, of ch h p "Some q"] Cons.prems(2,3) by auto
  then obtain pret' where p: "(if ret then process_query ch h inst1 p (Some q) else Inr (pret, p, h)) = Inr (pret', p, h)"
    "pret' \<noteq> NEED_DROP_NEXT" by blast
  from Cons.IH [OF q1 p(2), of q] Cons.prems(4) obtain out final inst' where
    "generate_loop ch ispi rspi ps pret' q h inst1 = Inr (out, final, h, inst')"
    "i_query inst' = None" "out @ [(final, next_type)] = chained q ps next_type" by auto
  then show ?case using b p by simp
qed simp

lemma message_size_none: "i_query inst = None \<Longrightarrow> message_size_block h inst mname ps = Inr ps"
  by (simp add: message_size_block_def when_update_none)

lemma generate_message_plain:
  assumes "i_query inst = None" and "\<forall>q\<in>set (p # ps). plain_payload q = q"
  shows "\<exists>inst'. generate_message ch h inst ispi rspi p ps next_type = Inr (chained p ps next_type, h, inst')
           \<and> i_query inst' = None"
proof -
  obtain ret inst1 where b: "bound inst ispi rspi = (ret, inst1)" by force
  have q1: "i_query inst1 = None" using bound_query [OF b] assms(1) by simp
  have "(if ret then seqE (map (message_size_block h inst1) hdr_messages) ps else Inr ps) = Inr ps"
    by (auto intro!: seqE_id simp: message_size_none [OF q1])
  moreover from generate_loop_plain [OF q1, of NOT_SET p ps ch ispi rspi h next_type] assms(2)
  obtain out final inst' where
    "generate_loop ch ispi rspi ps NOT_SET p h inst1 = Inr (out, final, h, inst')"
    "i_query inst' = None" "out @ [(final, next_type)] = chained p ps next_type" by auto
  ultimately show ?thesis using b by (simp add: generate_message_def)
qed

lemma change_mac_none:
  assumes "i_query inst = None"
  shows "\<exists>inst'. change_mac rand h inst ispi rspi icv = Inr (icv, inst')"
proof -
  obtain ret inst1 where b: "bound inst ispi rspi = (ret, inst1)" by force
  have "i_query inst1 = None" using bound_query [OF b] assms by simp
  then show ?thesis using b by (simp add: change_mac_def mac_block_def when_update_none)
qed

subsection \<open>Released values\<close>

text \<open>
  The processing of a payload can release the value of a node; names, operators and links stay, and
  so do the lookups and the decision which payloads are dropped.
\<close>

definition same_links :: "qheap \<Rightarrow> qheap \<Rightarrow> bool" where
  "same_links h h' \<longleftrightarrow> qh_fresh h' = qh_fresh h \<and>
     (\<forall>a. map_option (\<lambda>n. n\<lparr>q_value := CNull\<rparr>) (qh_mem h' a) = map_option (\<lambda>n. n\<lparr>q_value := CNull\<rparr>) (qh_mem h a))"

lemma same_links_refl [simp]: "same_links h h"
  by (simp add: same_links_def)

lemma same_links_trans: "same_links h h' \<Longrightarrow> same_links h' h'' \<Longrightarrow> same_links h h''"
  by (simp add: same_links_def)

lemma same_links_free: "free_value h tmp = Inr h' \<Longrightarrow> same_links h h'"
  by (auto simp: free_value_def same_links_def deref_def store_def bindE_Inr_iff
      split: option.splits cbuf.splits)

lemma same_links_deref:
  assumes "same_links h h'"
  shows "(\<exists>e. deref h' p = Inl e \<and> deref h p = Inl e) \<or>
    (\<exists>n n'. deref h' p = Inr n' \<and> deref h p = Inr n \<and> q_name n' = q_name n \<and> q_nlen n' = q_nlen n \<and>
       q_op n' = q_op n \<and> q_sub n' = q_sub n \<and> q_next n' = q_next n)"
proof (cases p)
  case (Some a)
  have m: "map_option (\<lambda>n. n\<lparr>q_value := CNull\<rparr>) (qh_mem h' a) = map_option (\<lambda>n. n\<lparr>q_value := CNull\<rparr>) (qh_mem h a)"
    using assms by (simp add: same_links_def)
  show ?thesis
  proof (cases "qh_mem h a")
    case None
    then show ?thesis using m Some by (simp add: deref_def)
  next
    case (Some n)
    then obtain n' where n': "qh_mem h' a = Some n'" "n'\<lparr>q_value := CNull\<rparr> = n\<lparr>q_value := CNull\<rparr>"
      using m by auto
    have "q_name n' = q_name n" "q_nlen n' = q_nlen n" "q_op n' = q_op n" "q_sub n' = q_sub n" "q_next n' = q_next n"
      using arg_cong [OF n'(2), of q_name] arg_cong [OF n'(2), of q_nlen] arg_cong [OF n'(2), of q_op]
        arg_cong [OF n'(2), of q_sub] arg_cong [OF n'(2), of q_next] by simp_all
    then show ?thesis using Some n' \<open>p = _\<close> by (simp add: deref_def)
  qed
qed (simp add: deref_def)

lemma bindE_eqI: "m = m' \<Longrightarrow> (\<And>x. f x = g x) \<Longrightarrow> bindE m f = bindE m' g"
  by (cases m') simp_all

lemma same_links_name:
  assumes "same_links h h'" shows "is_query_name h' q nm = is_query_name h q nm"
  using same_links_deref [OF assms, of q]
  by (auto simp: is_query_name_def split: option.splits)

lemma same_links_operator:
  assumes "same_links h h'" shows "get_query_operator h' q = get_query_operator h q"
  using same_links_deref [OF assms, of q] by (auto simp: get_query_operator_def)

lemma same_links_find:
  assumes "same_links h h'" shows "find_sub_fuel k h' name cur = find_sub_fuel k h name cur"
proof (induction k arbitrary: cur)
  case (Suc k)
  have "bindE (deref h' cur) (\<lambda>n. find_sub_fuel k h' name (q_next n)) =
      bindE (deref h cur) (\<lambda>n. find_sub_fuel k h name (q_next n))"
    using same_links_deref [OF assms, of cur] Suc.IH by auto
  then show ?case by (auto simp: same_links_name [OF assms] split: option.split intro!: bindE_eqI)
qed simp

lemma same_links_path:
  assumes "same_links h h'" shows "sub_path h' q names = sub_path h q names"
proof (induction names arbitrary: q)
  case (Cons name names)
  have "qh_fresh h' = qh_fresh h" using assms by (simp add: same_links_def)
  then have "get_sub_query_by_name h' q name = get_sub_query_by_name h q name"
    using same_links_deref [OF assms, of q]
    by (auto simp: get_sub_query_by_name_def same_links_find [OF assms] simp del: find_sub_fuel.simps)
  then show ?case by (auto simp: Cons.IH split: option.split intro!: bindE_eqI)
qed simp

lemma same_links_drop:
  assumes "same_links h h'" shows "check_drop_next h' inst nxt = check_drop_next h inst nxt"
proof -
  have "query_at h' inst m path = query_at h inst m path" for m path
    by (simp add: query_at_def same_links_name [OF assms] same_links_path [OF assms] cong: if_cong)
  then have "drop_block h' inst type ntype = drop_block h inst type ntype" for type ntype
    by (auto simp: fun_eq_iff drop_block_def same_links_operator [OF assms] cong: if_cong)
  then show ?thesis by (simp add: check_drop_next_def split: option.splits)
qed

lemma check_drop_next_query:
  assumes "i_query inst' = i_query inst"
  shows "check_drop_next h inst' nxt = check_drop_next h inst nxt"
proof -
  have "drop_block h inst' type ntype = drop_block h inst type ntype" for type ntype
    by (auto simp: fun_eq_iff drop_block_def query_at_def get_query_def assms cong: if_cong)
  then show ?thesis by (simp add: check_drop_next_def split: option.splits)
qed

subsection \<open>Which payloads are generated\<close>

lemma when_update_invariant:
  assumes "when_update h inst m path vts f st = Inr st'" and "P st"
    and "\<And>a vt tmp tlen st'. f a vt tmp tlen = Inr st' \<Longrightarrow> P st'"
  shows "P st'"
  using assms by (auto simp: when_update_def bindE_Inr_iff split: option.splits if_splits prod.splits)

lemma notify_block_type:
  assumes "notify_block h inst nm d (n, None) = Inr st"
  shows "n_type (fst st) = n_type n"
  using assms unfolding notify_block_def
  by (rule when_update_invariant) (auto simp: bindE_Inr_iff set_notification_data_def)

lemma process_notify_links:
  assumes "process_notify h inst n = Inr (ret, n', h')"
  shows "n_type n' = n_type n \<and> same_links h h' \<and> ret = COMPLETED"
proof -
  from assms obtain tmp where f: "free_value h tmp = Inr h'" and r: "ret = COMPLETED"
    and st: "n_type (fst (n', tmp)) = n_type n"
    unfolding process_notify_def bindE_Inr_iff
    by (auto simp: bindE_Inr_iff dest: notify_block_type split: if_split_asm)
  then show ?thesis using same_links_free by simp
qed

lemma process_ike_header_links:
  "process_ike_header ch h inst st = Inr (ret, st', h') \<Longrightarrow> same_links h h' \<and> ret = COMPLETED"
  using same_links_free by (auto simp: process_ike_header_def bindE_Inr_iff)

lemma process_payload_links:
  assumes "process_payload ch h inst COMPLETED p = Inr (ret, p', h')"
  shows "payload_get_type p' = payload_get_type p \<and> payload_notify_type p' = payload_notify_type p \<and>
    same_links h h' \<and> ret = COMPLETED"
proof (cases p)
  case (P_Header st)
  then show ?thesis using assms process_ike_header_links [of ch h inst st] by (auto simp: bindE_Inr_iff)
next
  case (P_Notify n)
  then obtain ex where ex: "check_exceptional_case inst n = Inr ex"
    using assms by (auto simp: bindE_Inr_iff)
  show ?thesis
  proof (cases ex)
    case True
    then show ?thesis using assms P_Notify ex by simp
  next
    case False
    then show ?thesis using assms P_Notify ex process_notify_links [of h inst n] by (auto simp: bindE_Inr_iff)
  qed
next
  case (P_KE ke)
  then show ?thesis using assms by (auto simp: bindE_Inr_iff process_key_exchange_def)
next
  case (P_Nonce np)
  then show ?thesis using assms by (auto simp: bindE_Inr_iff process_nonce_def)
next
  case (P_Id_Responder idp)
  then show ?thesis using assms by (auto simp: bindE_Inr_iff process_identification_responder_def)
next
  case (P_EAP eap)
  then show ?thesis using assms by (auto simp: bindE_Inr_iff process_extensible_authentication_def)
qed (use assms in simp)

text \<open>The payloads of a list that the installed query does not drop.\<close>

definition is_dropped :: "qheap \<Rightarrow> instance_t \<Rightarrow> payload_t \<Rightarrow> bool" where
  "is_dropped h inst p \<longleftrightarrow>
     check_drop_next h inst (Some (payload_get_type p, payload_notify_type p)) = Inr NEED_DROP_NEXT"

lemma check_drop_next_values: "check_drop_next h inst nxt = Inr r \<Longrightarrow> r = COMPLETED \<or> r = NEED_DROP_NEXT"
proof -
  assume a: "check_drop_next h inst nxt = Inr r"
  show ?thesis
  proof (cases nxt)
    case (Some n)
    obtain type ntype where n: "n = (type, ntype)" by force
    have blk: "drop_block h inst type ntype b s = Inr s' \<Longrightarrow> s = COMPLETED \<or> s = NEED_DROP_NEXT \<Longrightarrow>
        s' = COMPLETED \<or> s' = NEED_DROP_NEXT" for b s s'
      by (auto simp: drop_block_def bindE_Inr_iff split: prod.splits if_splits)
    show ?thesis
      by (rule seqE_invariant [where P = "\<lambda>s. s = COMPLETED \<or> s = NEED_DROP_NEXT" and fs = "map (drop_block h inst type ntype) drop_blocks" and s = COMPLETED])
        (use blk a Some n in \<open>force simp: check_drop_next_def\<close>)+
  qed (use a in \<open>simp add: check_drop_next_def\<close>)
qed

lemma process_query_links:
  assumes "process_query ch h inst p (Some q) = Inr (ret, p', h')"
  shows "payload_get_type p' = payload_get_type p \<and> payload_notify_type p' = payload_notify_type p \<and>
    same_links h h' \<and> ret = (if is_dropped h inst q then NEED_DROP_NEXT else COMPLETED)"
proof -
  obtain r where r: "check_drop_next h inst (Some (payload_get_type q, payload_notify_type q)) = Inr r"
    using assms by (auto simp: process_query_def bindE_Inr_iff)
  then show ?thesis
    using assms check_drop_next_values [OF r] process_payload_links [of ch h inst p ret p' h']
    by (auto simp: process_query_def is_dropped_def)
qed

lemma generate_loop_types:
  assumes "fst (bound inst ispi rspi)" and "rspi \<noteq> 0"
    and "generate_loop ch ispi rspi ps pret p h inst = Inr (out, final, h', inst')"
  shows "map payload_get_type (map fst out @ [final]) =
           payload_get_type p # map payload_get_type (filter (\<lambda>q. \<not> is_dropped h inst q) ps) \<and>
         map snd out = map payload_get_type (filter (\<lambda>q. \<not> is_dropped h inst q) ps) \<and>
         inst' = inst \<and> (final = last (p # ps) \<or> (\<exists>q\<in>set ps. is_dropped h inst q))"
  using assms(3)
proof (induction ps arbitrary: pret p h out)
  case (Cons q ps)
  have b: "bound inst ispi rspi = (True, inst)"
    using assms(1,2) by (metis prod.collapse snd_bound)
  then obtain pret' p' h1 where pq: "process_query ch h inst p (Some q) = Inr (pret', p', h1)"
    using Cons.prems by (auto simp: bindE_Inr_iff)
  note l = process_query_links [OF pq]
  have same: "is_dropped h1 inst = is_dropped h inst"
    using l same_links_drop by (auto simp: fun_eq_iff is_dropped_def)
  show ?case
  proof (cases "is_dropped h inst q")
    case True
    then have "generate_loop ch ispi rspi ps pret' p' h1 inst = Inr (out, final, h', inst')"
      using Cons.prems b pq l by simp
    from Cons.IH [OF this] True l same show ?thesis by auto
  next
    case False
    then obtain out' where out: "generate_loop ch ispi rspi ps pret' q h1 inst = Inr (out', final, h', inst')"
      "out = (p', payload_get_type q) # out'"
      using Cons.prems b pq l by (auto simp: bindE_Inr_iff)
    from Cons.IH [OF out(1)] out(2) False l same show ?thesis by auto
  qed
qed simp

end
