(* ===== verification/Epdg_Report.thy ===== *)
theory Epdg_Report
  imports Epdg_Generate
begin

text \<open>
  The reports of the ePDG: what the framework added to the task manager of the IKE daemon
  (\<^verbatim>\<open>process_message\<close>, \<^verbatim>\<open>process_request\<close> and \<^verbatim>\<open>build_response\<close> of \<^verbatim>\<open>task_manager_v2.c\<close>), to its tasks
  and to the checkout of an IKE_SA. A received request is announced to the controller and numbered;
  before a response is built the daemon waits for the next query, announces the response or sends an
  error notification in its place, and at the end releases the query. The IKE_SA has an instance here.
\<close>

section \<open>Messages to the controller\<close>

definition report :: "instance_t \<Rightarrow> int \<Rightarrow> string option \<Rightarrow> instance_t cres" where
  "report inst mtype symbol =
     bindE (init_message inst mtype symbol VAL_TYPE_NONE None VAL_LENGTH_NONE) (\<lambda>msg.
     bindE (add_message_to_send_queue inst msg) (\<lambda>(inst', _). Inr inst'))"

section \<open>Binding\<close>

text \<open>
  A new IKE_SA is checked out (\<^verbatim>\<open>checkout_by_message\<close>): when the instance takes its SPIs, it also
  remembers the IKE_SA, the mask of the table of hashes and the hash of the message.
\<close>

definition bind_ike_sa ::
  "instance_t \<Rightarrow> 64 word \<Rightarrow> 64 word \<Rightarrow> nat \<Rightarrow> 32 word \<Rightarrow> string \<Rightarrow> instance_t" where
  "bind_ike_sa inst ispi rspi ike_sa table_mask hash =
     (case check_instance (Some inst) ispi rspi True of
        (True, Some inst') \<Rightarrow>
          inst'\<lparr>i_ike_sa := Some ike_sa, i_table_mask := ucast table_mask, i_init_hash := hash\<rparr>
      | (False, Some inst') \<Rightarrow> inst'
      | (_, None) \<Rightarrow> inst)"

section \<open>Requests\<close>

datatype exchange_type_t = IKE_SA_INIT | IKE_AUTH | CREATE_CHILD_SA | INFORMATIONAL | OTHER_EXCHANGE

text \<open>The requests of IKE_AUTH: the previous request and the number of the next one.\<close>

definition request_steps :: "(string \<times> string) list" where
  "request_steps =
     [(''ike_sa_init_request'', ''ike_auth_1_request''),
      (''ike_auth_1_request'', ''ike_auth_2_request''),
      (''ike_auth_2_request'', ''ike_auth_3_request''),
      (''ike_auth_3_request'', ''ike_auth_4_request''),
      (''ike_auth_4_request'', ''ike_auth_5_request'')]"

text \<open>The symbol of a request and the new \<^verbatim>\<open>rprev\<close>.\<close>

definition auth_request :: "string option \<Rightarrow> (string \<times> string) cres" where
  "auth_request rprev =
     (case rprev of
        None \<Rightarrow> Inl NullDeref
      | Some r \<Rightarrow>
          (case find (\<lambda>(prev, nxt). has_prefix r prev) request_steps of
             Some (_, nxt) \<Rightarrow> Inr (nxt, nxt)
           | None \<Rightarrow> Inr (''error in ike_auth'', ''error'')))"

abbreviation AKA_CLIENT_ERROR :: nat where "AKA_CLIENT_ERROR \<equiv> 14"

text \<open>\<^verbatim>\<open>ehdr->subtype\<close> is the sixth byte of the EAP packet.\<close>

definition is_client_error :: "eap_payload_t option \<Rightarrow> bool cres" where
  "is_client_error epload =
     (case epload of
        None \<Rightarrow> Inr False
      | Some e \<Rightarrow>
          if 5 < length (eap_data e) then Inr (of_char (eap_data e ! 5) = AKA_CLIENT_ERROR)
          else if eap_data e = [] then Inl NullDeref
          else Inl OutOfBounds)"

text \<open>The switch on the exchange type: the symbol, and the instance with its fields set.\<close>

definition exchange_symbol ::
  "instance_t \<Rightarrow> exchange_type_t \<Rightarrow> eap_payload_t option \<Rightarrow> (string option \<times> instance_t) cres" where
  "exchange_symbol inst exchange epload =
     (case exchange of
        IKE_SA_INIT \<Rightarrow>
          Inr (Some ''ike_sa_init_request'',
               inst\<lparr>i_rprev := Some ''ike_sa_init_request'', i_imid := 0\<rparr>)
      | IKE_AUTH \<Rightarrow>
          bindE (auth_request (i_rprev inst)) (\<lambda>(symbol, rprev).
          bindE (is_client_error epload) (\<lambda>b.
            Inr (Some (if b then ''client_error'' else symbol), inst\<lparr>i_rprev := Some rprev\<rparr>)))
      | _ \<Rightarrow> Inr (None, inst\<lparr>i_not_report := 1\<rparr>))"

text \<open>
  The part of \<^verbatim>\<open>process_message\<close> before the message is parsed. The result tells whether the processing
  goes on; otherwise the function returns FAILED.
\<close>

definition count_request :: "instance_t \<Rightarrow> 32 word \<Rightarrow> bool \<times> instance_t" where
  "count_request inst mid =
     (if 0 \<le> i_imid inst \<and> word_of_int (i_imid inst) = mid then
        (\<not> 0 < i_imid inst, inst\<lparr>i_retransmission := i_retransmission inst + 1\<rparr>)
      else (True, inst\<lparr>i_imid := i_imid inst + 1, i_retransmission := 0\<rparr>))"

definition process_message ::
  "instance_t \<Rightarrow> 64 word \<Rightarrow> 64 word \<Rightarrow> 32 word \<Rightarrow> exchange_type_t \<Rightarrow> eap_payload_t option \<Rightarrow>
   (bool \<times> instance_t) cres" where
  "process_message inst ispi rspi mid exchange epload =
     (case bound inst ispi rspi of
        (False, inst1) \<Rightarrow> Inr (False, inst1)
      | (True, inst1) \<Rightarrow>
          (case count_request inst1 mid of
             (False, inst2) \<Rightarrow> Inr (False, inst2)
           | (True, inst2) \<Rightarrow>
               if i_retransmission inst2 \<noteq> 0 then Inr (True, inst2)
               else
                 bindE (exchange_symbol inst2 exchange epload) (\<lambda>(symbol, inst3).
                 bindE (if i_not_report inst3 = 0 \<and> i_retransmission inst3 = 0
                        then report inst3 MSG_TYPE_BLOCK_START symbol else Inr inst3) (\<lambda>inst4.
                   Inr (True, inst4)))))"

text \<open>
  The end of a request, after the tasks have processed it (\<^verbatim>\<open>process_request\<close>) or when it could not be
  parsed (\<^verbatim>\<open>process_message\<close>).
\<close>

definition end_request :: "instance_t \<Rightarrow> 64 word \<Rightarrow> 64 word \<Rightarrow> instance_t cres" where
  "end_request inst ispi rspi =
     (case bound inst ispi rspi of
        (False, inst1) \<Rightarrow> Inr inst1
      | (True, inst1) \<Rightarrow>
          if i_not_report inst1 = 0 \<and> i_retransmission inst1 = 0
          then report inst1 MSG_TYPE_BLOCK_END None
          else Inr (inst1\<lparr>i_retransmission := i_retransmission inst1 - 1, i_not_report := 0\<rparr>))"

section \<open>Responses\<close>

subsection \<open>The start\<close>

text \<open>The sub-queries that ask for an error notification, in the order of the code.\<close>

definition error_notifies :: "(string \<times> int) list" where
  "error_notifies =
     [(''unsupported_critical_payload'', 1), (''invalid_ike_spi'', 4), (''invalid_major_version'', 5),
      (''invalid_syntax'', 7), (''invalid_message_id'', 9), (''invalid_spi'', 11),
      (''no_proposal_chosen'', 14), (''invalid_ke_payload'', 17), (''authentication_failed'', 24),
      (''single_pair_required'', 34), (''no_additional_sas'', 35), (''internal_address_failure'', 36),
      (''failed_cp_required'', 37), (''ts_unacceptable'', 38), (''invalid_selectors'', 39),
      (''temporary_failure'', 43), (''child_sa_not_found'', 44), (''invalid_cert_authority'', 22)]"

primrec find_error :: "qheap \<Rightarrow> addr option \<Rightarrow> (string \<times> int) list \<Rightarrow> int option cres" where
  "find_error h query [] = Inr None"
| "find_error h query (e # es) =
     bindE (get_sub_query_by_name h query (fst e)) (\<lambda>q.
       if q \<noteq> None then Inr (Some (snd e)) else find_error h query es)"

text \<open>The responses of IKE_AUTH: the name of the query and the previous response it needs.\<close>

definition response_steps :: "(string \<times> string) list" where
  "response_steps =
     [(''ike_auth_1_response'', ''ike_sa_init_response''),
      (''ike_auth_2_response'', ''ike_auth_1_response''),
      (''ike_auth_3_response'', ''ike_auth_2_response''),
      (''ike_auth_4_response'', ''ike_auth_3_response''),
      (''ike_auth_5_response'', ''ike_auth_4_response'')]"

primrec auth_response ::
  "qheap \<Rightarrow> addr option \<Rightarrow> string option \<Rightarrow> (string \<times> string) list \<Rightarrow> (string \<times> string) cres" where
  "auth_response h query sprev [] = Inr (''error in ike_auth'', ''error'')"
| "auth_response h query sprev (s # ss) =
     bindE (is_query_name h query (Some (fst s))) (\<lambda>b.
       if b then
         (case sprev of
            None \<Rightarrow> Inl NullDeref
          | Some p \<Rightarrow> if has_prefix p (snd s) then Inr (fst s, fst s) else auth_response h query sprev ss)
       else auth_response h query sprev ss)"

text \<open>The symbol of a response and the new \<^verbatim>\<open>sprev\<close>.\<close>

definition reply_symbol ::
  "qheap \<Rightarrow> addr option \<Rightarrow> string option \<Rightarrow> exchange_type_t \<Rightarrow> (string \<times> string) cres" where
  "reply_symbol h query sprev exchange =
     (case exchange of
        IKE_SA_INIT \<Rightarrow>
          bindE (is_query_name h query (Some ''ike_sa_init_response'')) (\<lambda>b.
            Inr (if b then (''ike_sa_init_response'', ''ike_sa_init_response'')
                 else (''error in ike_sa_init'', ''error'')))
      | IKE_AUTH \<Rightarrow> auth_response h query sprev response_steps
      | _ \<Rightarrow> Inr (''error in exchange_type'', ''error''))"

text \<open>
  The wait for the next query, as in \<^verbatim>\<open>get_next_query\<close>: heap and instance when the loop ends, \<open>None\<close>
  while it waits. The states that the successive iterations observe are the argument.
\<close>

primrec observed_state :: "(qheap \<times> instance_t) list \<Rightarrow> (qheap \<times> instance_t) option cres" where
  "observed_state [] = Inr None"
| "observed_state (s # env) =
     bindE (must_wait (fst s) (snd s)) (\<lambda>wait.
       if wait \<and> \<not> i_finished (snd s) then observed_state env else Inr (Some s))"

text \<open>
  How the start of a response ends: the daemon still waits, it sends an error notification of a type
  and returns, or it goes on to build the response.
\<close>

datatype start_result =
    Waiting
  | Notified int qheap instance_t
  | Building qheap instance_t

text \<open>
  What follows once a query is there. When no error notification is asked for, a debug line prints a
  pointer that was never assigned: \<open>uninit\<close> is what comes of it.
\<close>

definition announce_response ::
  "unit cres \<Rightarrow> qheap \<Rightarrow> instance_t \<Rightarrow> exchange_type_t \<Rightarrow> start_result cres" where
  "announce_response uninit h inst exchange =
     bindE (find_error h (i_query inst) error_notifies) (\<lambda>failed.
     bindE (if failed = None then uninit else Inr ()) (\<lambda>_.
     bindE (reply_symbol h (i_query inst) (i_sprev inst) exchange) (\<lambda>(symbol, sprev).
     bindE (report (inst\<lparr>i_sprev := Some sprev\<rparr>) MSG_TYPE_BLOCK_START (Some symbol)) (\<lambda>inst1.
       case failed of
         None \<Rightarrow> Inr (Building h inst1)
       | Some ntype \<Rightarrow>
           bindE (report inst1 MSG_TYPE_BLOCK_END None) (\<lambda>inst2. Inr (Notified ntype h inst2))))))"

definition start_response ::
  "unit cres \<Rightarrow> qheap \<Rightarrow> instance_t \<Rightarrow> 64 word \<Rightarrow> 64 word \<Rightarrow> exchange_type_t \<Rightarrow>
   (qheap \<times> instance_t) list \<Rightarrow> start_result cres" where
  "start_response uninit h inst ispi rspi exchange env =
     (case bound inst ispi rspi of
        (False, inst1) \<Rightarrow> Inr (Building h inst1)
      | (True, inst1) \<Rightarrow>
          if i_initiated inst1 \<and> \<not> i_finished inst1 then
            bindE (observed_state ((h, inst1) # env)) (\<lambda>s.
              case s of
                None \<Rightarrow> Inr Waiting
              | Some (h2, inst2) \<Rightarrow>
                  if i_query inst2 = None then Inr (Building h2 inst2)
                  else announce_response uninit h2 inst2 exchange)
          else Inr (Building h inst1))"

subsection \<open>Failures that the tasks notice\<close>

definition mark_authentication_failed :: "instance_t \<Rightarrow> 64 word \<Rightarrow> 64 word \<Rightarrow> instance_t" where
  "mark_authentication_failed inst ispi rspi =
     (case bound inst ispi rspi of (ret, inst1) \<Rightarrow>
        if ret then inst1\<lparr>i_authentication_failed := 1\<rparr> else inst1)"

definition mark_invalid_ke_payload :: "instance_t \<Rightarrow> 64 word \<Rightarrow> 64 word \<Rightarrow> instance_t" where
  "mark_invalid_ke_payload inst ispi rspi =
     (case bound inst ispi rspi of (ret, inst1) \<Rightarrow>
        if ret then inst1\<lparr>i_invalid_ke_payload := 1\<rparr> else inst1)"

definition mark_no_proposal_chosen :: "instance_t \<Rightarrow> 64 word \<Rightarrow> 64 word \<Rightarrow> instance_t" where
  "mark_no_proposal_chosen inst ispi rspi =
     (case bound inst ispi rspi of (ret, inst1) \<Rightarrow>
        if ret then inst1\<lparr>i_no_proposal_chosen := 1\<rparr> else inst1)"

text \<open>The hashes of the NAT detection are kept for the response.\<close>

definition keep_dst_hash :: "instance_t \<Rightarrow> 64 word \<Rightarrow> 64 word \<Rightarrow> string \<Rightarrow> instance_t" where
  "keep_dst_hash inst ispi rspi hash =
     (case bound inst ispi rspi of (ret, inst1) \<Rightarrow>
        if ret then inst1\<lparr>i_rcvd_dst_hash := hash\<rparr> else inst1)"

definition keep_src_hash :: "instance_t \<Rightarrow> 64 word \<Rightarrow> 64 word \<Rightarrow> string \<Rightarrow> instance_t" where
  "keep_src_hash inst ispi rspi hash =
     (case bound inst ispi rspi of (ret, inst1) \<Rightarrow>
        if ret then inst1\<lparr>i_rcvd_src_hash := hash\<rparr> else inst1)"

subsection \<open>Queries applied while the tasks build the response\<close>

text \<open>The chosen proposal goes through \<^verbatim>\<open>process_proposal\<close> before it is put into the SA payload.\<close>

definition build_proposal ::
  "qheap \<Rightarrow> instance_t \<Rightarrow> 64 word \<Rightarrow> 64 word \<Rightarrow> proposal_t \<Rightarrow> (proposal_t \<times> instance_t) cres" where
  "build_proposal h inst ispi rspi proposal =
     (case bound inst ispi rspi of (ret, inst1) \<Rightarrow>
        if ret then bindE (process_proposal h inst1 proposal) (\<lambda>(_, p). Inr (p, inst1))
        else Inr (proposal, inst1))"

text \<open>The EAP payload of the authenticator goes through \<^verbatim>\<open>process_query\<close> without a successor.\<close>

definition build_eap ::
  "(string \<Rightarrow> nat) \<Rightarrow> qheap \<Rightarrow> instance_t \<Rightarrow> 64 word \<Rightarrow> 64 word \<Rightarrow> eap_payload_t \<Rightarrow>
   (payload_t \<times> qheap \<times> instance_t) cres" where
  "build_eap chunk_hash h inst ispi rspi eap =
     (case bound inst ispi rspi of (ret, inst1) \<Rightarrow>
        if ret then bindE (process_query chunk_hash h inst1 (P_EAP eap) None) (\<lambda>(_, p, h'). Inr (p, h', inst1))
        else Inr (P_EAP eap, h, inst1))"

subsection \<open>The end\<close>

text \<open>A failure unbinds the instance, so that the next IKE_SA can take its place.\<close>

definition unbind :: "instance_t \<Rightarrow> instance_t" where
  "unbind inst = inst\<lparr>i_sprev := None, i_ispi := 0, i_rspi := 0, i_imid := - 1\<rparr>"

definition failure_symbol :: "instance_t \<Rightarrow> string option \<times> instance_t" where
  "failure_symbol inst =
     (if i_authentication_failed inst \<noteq> 0 then
        (Some ''retest_required:auth_failed'', (unbind inst)\<lparr>i_authentication_failed := 0\<rparr>)
      else if i_no_proposal_chosen inst \<noteq> 0 then
        (Some ''retransmission:no_proposal_chosen'', (unbind inst)\<lparr>i_no_proposal_chosen := 0\<rparr>)
      else if i_invalid_ke_payload inst \<noteq> 0 then
        (Some ''retransmission:invalid_ke_payload'', (unbind inst)\<lparr>i_invalid_ke_payload := 0\<rparr>)
      else (None, inst))"

definition finish_response ::
  "qheap \<Rightarrow> instance_t \<Rightarrow> 64 word \<Rightarrow> 64 word \<Rightarrow> (qheap \<times> instance_t) cres" where
  "finish_response h inst ispi rspi =
     (case bound inst ispi rspi of
        (False, inst1) \<Rightarrow> Inr (h, inst1)
      | (True, inst1) \<Rightarrow>
          (case failure_symbol inst1 of (symbol, inst2) \<Rightarrow>
             bindE (release_query h inst2) (\<lambda>h'.
             bindE (report (inst2\<lparr>i_query := None\<rparr>) MSG_TYPE_BLOCK_END symbol) (\<lambda>inst3.
               Inr (h', inst3\<lparr>i_authentication_failed := 0, i_no_proposal_chosen := 0,
                              i_invalid_ke_payload := 0\<rparr>)))))"

subsection \<open>The whole response\<close>

text \<open>
  What the tasks do between start and end is a parameter: from heap and instance they give header,
  payloads, the type that follows the payloads, and whether the IKE_SA is deleted afterwards. Only a
  deletion in the first exchange resets the responder's SPI for the generation.
\<close>

datatype response_result =
    Blocked
  | Error_Notify int qheap instance_t
  | Generated "(payload_t \<times> int) list" qheap instance_t

definition build_response ::
  "unit cres \<Rightarrow> (qheap \<Rightarrow> instance_t \<Rightarrow> (qheap \<times> instance_t \<times> payload_t \<times> payload_t list \<times> int \<times> bool) cres) \<Rightarrow>
   (string \<Rightarrow> nat) \<Rightarrow> qheap \<Rightarrow> instance_t \<Rightarrow> 64 word \<Rightarrow> 64 word \<Rightarrow> exchange_type_t \<Rightarrow>
   (qheap \<times> instance_t) list \<Rightarrow> response_result cres" where
  "build_response uninit tasks chunk_hash h inst ispi rspi exchange env =
     bindE (start_response uninit h inst ispi rspi exchange env) (\<lambda>r.
       case r of
         Waiting \<Rightarrow> Inr Blocked
       | Notified ntype h1 inst1 \<Rightarrow> Inr (Error_Notify ntype h1 inst1)
       | Building h1 inst1 \<Rightarrow>
           bindE (tasks h1 inst1) (\<lambda>(h2, inst2, header, payloads, next_type, delete).
           bindE (finish_response h2 inst2 ispi rspi) (\<lambda>(h3, inst3).
           bindE (generate_message chunk_hash h3 inst3 ispi
                    (if delete \<and> exchange = IKE_SA_INIT then 0 else rspi) header payloads next_type)
             (\<lambda>(out, h4, inst4). Inr (Generated out h4 inst4)))))"

end
