(* ===== verification/Report_Proofs.thy ===== *)
theory Report_Proofs
  imports Epdg_Report
begin

text \<open>
  Lemmas on the reports of the ePDG: what a report adds to the send queue, what the end of a response
  leaves of the query, the lookup of error notifications in a well-formed query, and the steps of the
  daemon with the responses announced so far.
\<close>

section \<open>Reports\<close>

lemma report_fields:
  assumes "report inst mtype symbol = Inr inst'"
  shows "\<exists>q l. inst' = inst\<lparr>i_sendq := q, i_slast := l\<rparr>"
proof -
  obtain msg r where "add_message_to_send_queue inst msg = Inr (inst', r)"
    using assms by (auto simp: report_def bindE_Inr_iff)
  then have "(\<exists>q l. inst' = inst\<lparr>i_sendq := q, i_slast := l\<rparr>) \<or> inst' = inst"
    by (auto simp: add_message_to_send_queue_def split: if_splits)
  moreover have "inst = inst\<lparr>i_sendq := i_sendq inst, i_slast := i_slast inst\<rparr>" by simp
  ultimately show ?thesis by metis
qed

lemma report_keeps:
  assumes "report inst mtype symbol = Inr inst'"
  shows "i_query inst' = i_query inst" "i_sprev inst' = i_sprev inst" "i_rprev inst' = i_rprev inst"
    "i_imid inst' = i_imid inst" "i_ispi inst' = i_ispi inst" "i_rspi inst' = i_rspi inst"
    "i_retransmission inst' = i_retransmission inst" "i_not_report inst' = i_not_report inst"
    "i_pispi inst' = i_pispi inst"
  using report_fields [OF assms] by auto

text \<open>The message a report queues.\<close>

definition report_msg :: "instance_t \<Rightarrow> int \<Rightarrow> string option \<Rightarrow> msg_t" where
  "report_msg inst mtype symbol =
     \<lparr>m_mtype = word_of_int mtype, m_ispi = i_ispi inst, m_rspi = i_rspi inst,
      m_key = (case symbol of None \<Rightarrow> [] | Some s \<Rightarrow> s),
      m_klen = int (length (case symbol of None \<Rightarrow> [] | Some s \<Rightarrow> s)),
      m_vtype = VAL_TYPE_NONE, m_val = None, m_vlen = 0\<rparr>"

lemma report_queues:
  assumes "queue_wf inst" and "length (queue_contents inst) < MAX_QUEUE_LEN"
    and "\<And>s. symbol = Some s \<Longrightarrow> length s \<le> MAX_MESSAGE_LEN"
  shows "\<exists>inst'. report inst mtype symbol = Inr inst' \<and> queue_wf inst' \<and>
           queue_contents inst' = queue_contents inst @ [report_msg inst mtype symbol]"
proof -
  have "init_message inst mtype symbol VAL_TYPE_NONE None VAL_LENGTH_NONE = Inr (report_msg inst mtype symbol)"
    using assms(3) by (cases symbol) (auto simp: init_message_def report_msg_def)
  then show ?thesis
    using epdg_queue.add_room [OF assms(1,2), of "report_msg inst mtype symbol"]
    by (auto simp: report_def)
qed

lemma queue_wf_update [simp]:
  "queue_wf (inst\<lparr>i_sprev := s\<rparr>) = queue_wf inst" "queue_wf (inst\<lparr>i_rprev := s\<rparr>) = queue_wf inst"
  "queue_wf (inst\<lparr>i_imid := m\<rparr>) = queue_wf inst" "queue_wf (inst\<lparr>i_retransmission := k\<rparr>) = queue_wf inst"
  "queue_contents (inst\<lparr>i_sprev := s\<rparr>) = queue_contents inst"
  "queue_contents (inst\<lparr>i_rprev := s\<rparr>) = queue_contents inst"
  "queue_contents (inst\<lparr>i_imid := m\<rparr>) = queue_contents inst"
  "queue_contents (inst\<lparr>i_retransmission := k\<rparr>) = queue_contents inst"
  by (simp_all add: queue_wf_def queue_contents_def)

section \<open>The end of a response\<close>

lemma failure_symbol_fields:
  "failure_symbol inst = (symbol, inst') \<Longrightarrow>
   i_query inst' = i_query inst \<and> (i_sprev inst' = i_sprev inst \<or> i_sprev inst' = None)"
  by (auto simp: failure_symbol_def unbind_def split: if_splits)

lemma finish_response_releases:
  assumes "finish_response h inst ispi rspi = Inr (h', inst')" and "fst (bound inst ispi rspi)"
  shows "i_query inst' = None"
proof -
  obtain inst1 where b: "bound inst ispi rspi = (True, inst1)" using assms(2) by (metis prod.collapse)
  obtain symbol inst2 where f: "failure_symbol inst1 = (symbol, inst2)" by force
  obtain inst3 where r: "report (inst2\<lparr>i_query := None\<rparr>) MSG_TYPE_BLOCK_END symbol = Inr inst3"
    and i: "inst' = inst3\<lparr>i_authentication_failed := 0, i_no_proposal_chosen := 0, i_invalid_ke_payload := 0\<rparr>"
    using assms(1) b f by (auto simp: finish_response_def bindE_Inr_iff)
  show ?thesis using report_keeps(1) [OF r] i by simp
qed

section \<open>Error notifications\<close>

lemma find_error_rep:
  assumes "installed h inst t" and "\<forall>e\<in>set es. fst e \<noteq> []"
  shows "find_error h (i_query inst) es =
    Inr (map_option snd (find (\<lambda>e. \<exists>s\<in>set (qt_subs t). named (fst e) s) es))"
  using assms(2)
proof (induction es)
  case (Cons e es)
  obtain par where rep: "heap_wf h" "qrep h par t" "distinct (addrs t)" "all_data data_ok t"
    using assms(1) by (auto simp: installed_def query_ok_def tree_ok_def)
  have q: "get_sub_query_by_name h (i_query inst) (fst e) = Inr (map_option qt_addr (find (named (fst e)) (qt_subs t)))"
    using get_sub_query_by_name_rep [OF rep] Cons.prems assms(1) by (simp add: installed_def)
  show ?case
  proof (cases "find (named (fst e)) (qt_subs t)")
    case None
    then have "\<not> (\<exists>s\<in>set (qt_subs t). named (fst e) s)" by (auto simp: find_None_iff)
    then show ?thesis using q None Cons by simp
  next
    case (Some s)
    then have "\<exists>s\<in>set (qt_subs t). named (fst e) s" by (metis find_Some_iff nth_mem)
    then show ?thesis using q Some by simp
  qed
qed simp

lemma is_query_name_rep:
  assumes "installed h inst t" and "name \<noteq> []"
  shows "is_query_name h (i_query inst) (Some name) = Inr (named name t)"
proof -
  obtain par where rep: "qrep h par t" "all_data data_ok t"
    using assms(1) by (auto simp: installed_def query_ok_def tree_ok_def)
  obtain n where n: "qh_mem h (qt_addr t) = Some n" "data_of n = qt_data t"
    using qrep_node [OF rep(1)] by blast
  then show ?thesis
    using is_query_name_node [OF n(1)] n(2) all_data_root [OF rep(2)] assms
    by (auto simp: installed_def named_def truncate_fields [symmetric])
qed

lemma auth_response_rep:
  assumes "installed h inst t" and "\<forall>s\<in>set ss. fst s \<noteq> []"
  shows "auth_response h (i_query inst) (Some p) ss =
    Inr (case find (\<lambda>s. named (fst s) t \<and> has_prefix p (snd s)) ss of
           None \<Rightarrow> (''error in ike_auth'', ''error'') | Some s \<Rightarrow> (fst s, fst s))"
  using assms(2)
proof (induction ss)
  case (Cons s ss)
  then show ?case
    using is_query_name_rep [OF assms(1), of "fst s"]
    by (cases "named (fst s) t"; cases "has_prefix p (snd s)") simp_all
qed simp

section \<open>The daemon as a state machine\<close>

text \<open>
  A state is the heap, the instance and the responses announced since the last reset. Steps are the
  parts of the daemon above in any order, the sender taking a message, and the listener installing a
  query, resetting or finishing the instance.
\<close>

inductive epdg_step :: "qheap \<times> instance_t \<times> string list \<Rightarrow> qheap \<times> instance_t \<times> string list \<Rightarrow> bool" where
  bind: "epdg_step (h, inst, log) (h, bind_ike_sa inst ispi rspi sa table_mask hash, log)"
| request: "process_message inst ispi rspi mid exchange eap = Inr (go, inst') \<Longrightarrow>
    epdg_step (h, inst, log) (h, inst', log)"
| request_end: "end_request inst ispi rspi = Inr inst' \<Longrightarrow> epdg_step (h, inst, log) (h, inst', log)"
| announce: "i_query inst \<noteq> None \<Longrightarrow> reply_symbol h (i_query inst) (i_sprev inst) exchange = Inr (symbol, sprev) \<Longrightarrow>
    announce_response uninit h inst exchange = Inr r \<Longrightarrow> r = Building h' inst' \<or> r = Notified ntype h' inst' \<Longrightarrow>
    epdg_step (h, inst, log) (h', inst', log @ [symbol])"
| authentication_failed: "epdg_step (h, inst, log) (h, mark_authentication_failed inst ispi rspi, log)"
| no_proposal: "epdg_step (h, inst, log) (h, mark_no_proposal_chosen inst ispi rspi, log)"
| invalid_ke: "epdg_step (h, inst, log) (h, mark_invalid_ke_payload inst ispi rspi, log)"
| respond: "finish_response h inst ispi rspi = Inr (h', inst') \<Longrightarrow> epdg_step (h, inst, log) (h', inst', log)"
| send: "sender_step inst rs = Inr (inst', out, go) \<Longrightarrow> epdg_step (h, inst, log) (h, inst', log)"
| install: "epdg_step (h, inst, log) (h', set_query inst q, log)"
| reset: "release_query h inst = Inr h' \<Longrightarrow> epdg_step (h, inst, log) (h', reset_instance inst, [])"
| finish: "release_query h inst = Inr h' \<Longrightarrow> epdg_step (h, inst, log) (h', finish_instance inst, log)"

inductive epdg_reachable :: "qheap \<times> instance_t \<times> string list \<Rightarrow> bool" where
  init: "epdg_reachable (empty_heap, init_instance asock, [])"
| step: "epdg_reachable s \<Longrightarrow> epdg_step s s' \<Longrightarrow> epdg_reachable s'"

inductive_cases epdg_stepE: "epdg_step (h, inst, log) s"

text \<open>Every IKE_AUTH response in the log directly follows the response it needs.\<close>

definition in_order :: "string list \<Rightarrow> bool" where
  "in_order log \<longleftrightarrow>
     (\<forall>(name, prev)\<in>set response_steps. \<forall>i<length log. log ! i = name \<longrightarrow> 0 < i \<and> log ! (i - 1) = prev)"

definition response_names :: "string list" where
  "response_names = ''ike_sa_init_response'' # map fst response_steps"

definition log_ok :: "instance_t \<times> string list \<Rightarrow> bool" where
  "log_ok s \<longleftrightarrow> (case s of (inst, log) \<Rightarrow> in_order log \<and>
     (case i_sprev inst of
        None \<Rightarrow> True
      | Some p \<Rightarrow> p = ''error'' \<or> p \<in> set response_names \<and> log \<noteq> [] \<and> last log = p))"

lemma log_ok_same: "log_ok (inst, log) \<Longrightarrow> i_sprev inst' = i_sprev inst \<or> i_sprev inst' = None \<Longrightarrow> log_ok (inst', log)"
  by (auto simp: log_ok_def)

lemma has_prefix_name:
  assumes "p = ''error'' \<or> p \<in> set response_names" and "s \<in> set response_steps"
  shows "has_prefix p (snd s) \<longleftrightarrow> p = snd s"
proof -
  have "\<forall>q\<in>set (''error'' # response_names). \<forall>s\<in>set response_steps. has_prefix q (snd s) \<longleftrightarrow> q = snd s"
    by code_simp
  then show ?thesis using assms by auto
qed

lemma auth_response_cases:
  "auth_response h query sprev ss = Inr (symbol, p) \<Longrightarrow>
   (symbol = ''error in ike_auth'' \<and> p = ''error'') \<or>
   (\<exists>s\<in>set ss. \<exists>r. symbol = fst s \<and> p = fst s \<and> sprev = Some r \<and> has_prefix r (snd s))"
  by (induction ss) (auto simp: bindE_Inr_iff split: if_splits option.splits)

lemma reply_symbol_cases:
  assumes "reply_symbol h query sprev exchange = Inr (symbol, p)"
  shows "symbol \<notin> set response_names \<and> p = ''error'' \<or> symbol = ''ike_sa_init_response'' \<and> p = symbol \<or>
    (\<exists>s\<in>set response_steps. \<exists>r. symbol = fst s \<and> p = fst s \<and> sprev = Some r \<and> has_prefix r (snd s))"
proof (cases exchange)
  case IKE_AUTH
  have "''error in ike_auth'' \<notin> set response_names" by code_simp
  then show ?thesis
    using assms IKE_AUTH auth_response_cases [of h query sprev response_steps symbol p]
    by (auto simp: reply_symbol_def)
next
  case IKE_SA_INIT
  have "''error in ike_sa_init'' \<notin> set response_names" by code_simp
  then show ?thesis using assms IKE_SA_INIT by (auto simp: reply_symbol_def bindE_Inr_iff split: if_splits)
next
  case CREATE_CHILD_SA
  have "''error in exchange_type'' \<notin> set response_names" by code_simp
  then show ?thesis using assms CREATE_CHILD_SA by (auto simp: reply_symbol_def)
next
  case INFORMATIONAL
  have "''error in exchange_type'' \<notin> set response_names" by code_simp
  then show ?thesis using assms INFORMATIONAL by (auto simp: reply_symbol_def)
next
  case OTHER_EXCHANGE
  have "''error in exchange_type'' \<notin> set response_names" by code_simp
  then show ?thesis using assms OTHER_EXCHANGE by (auto simp: reply_symbol_def)
qed

text \<open>Appending a symbol keeps the order when it is no numbered response or follows the one it needs.\<close>

lemma in_order_append:
  assumes "in_order log"
    and "\<And>name prev. (name, prev) \<in> set response_steps \<Longrightarrow> symbol = name \<Longrightarrow> log \<noteq> [] \<and> last log = prev"
  shows "in_order (log @ [symbol])"
proof -
  have "0 < i \<and> (log @ [symbol]) ! (i - 1) = prev"
    if s: "(name, prev) \<in> set response_steps" and i: "i < length (log @ [symbol])"
      and n: "(log @ [symbol]) ! i = name" for name prev i
  proof (cases "i = length log")
    case True
    then have "log \<noteq> []" "last log = prev" using assms(2) [OF s] n by auto
    then show ?thesis using True by (simp add: nth_append last_conv_nth)
  next
    case False
    then show ?thesis using assms(1) s i n by (auto simp: in_order_def nth_append)
  qed
  then show ?thesis by (auto simp: in_order_def)
qed

lemma announce_fields:
  assumes "announce_response uninit h inst exchange = Inr r"
    and "reply_symbol h (i_query inst) (i_sprev inst) exchange = Inr (symbol, p)"
    and "r = Building h' inst' \<or> r = Notified ntype h' inst'"
  shows "h' = h \<and> i_sprev inst' = Some p \<and> i_query inst' = i_query inst"
proof -
  obtain failed inst1 where r1: "report (inst\<lparr>i_sprev := Some p\<rparr>) MSG_TYPE_BLOCK_START (Some symbol) = Inr inst1"
    and r: "(case failed of None \<Rightarrow> Inr (Building h inst1)
       | Some ntype \<Rightarrow> bindE (report inst1 MSG_TYPE_BLOCK_END None) (\<lambda>inst2. Inr (Notified ntype h inst2))) = Inr r"
    using assms(1,2) by (auto simp: announce_response_def bindE_Inr_iff)
  note k = report_keeps(1,2) [OF r1]
  show ?thesis
  proof (cases failed)
    case None
    then show ?thesis using r assms(3) k by auto
  next
    case (Some n)
    then obtain inst2 where "report inst1 MSG_TYPE_BLOCK_END None = Inr inst2" "r = Notified n h inst2"
      using r by (auto simp: bindE_Inr_iff)
    then show ?thesis using assms(3) k report_keeps(1,2) by auto
  qed
qed

lemma bound_sprev [simp]: "bound inst ispi rspi = (ret, inst') \<Longrightarrow> i_sprev inst' = i_sprev inst"
  using snd_bound [of inst ispi rspi] by (auto split: if_splits)

lemma process_message_sprev:
  assumes "process_message inst ispi rspi mid exchange eap = Inr (go, inst')"
  shows "i_sprev inst' = i_sprev inst"
proof -
  obtain ret inst1 where b: "bound inst ispi rspi = (ret, inst1)" by force
  obtain go2 inst2 where c: "count_request inst1 mid = (go2, inst2)" by force
  have c2: "i_sprev inst2 = i_sprev inst" using c bound_sprev [OF b] by (auto simp: count_request_def split: if_splits)
  have rs: "exchange_symbol inst2 exchange eap = Inr (sym, inst3) \<Longrightarrow> i_sprev inst3 = i_sprev inst2" for sym inst3
    by (auto simp: exchange_symbol_def bindE_Inr_iff split: exchange_type_t.splits)
  show ?thesis
    using assms b c c2 bound_sprev [OF b] rs report_keeps(2)
    by (cases ret; cases go2) (auto simp: process_message_def bindE_Inr_iff split: if_splits)
qed

lemma end_request_sprev:
  assumes "end_request inst ispi rspi = Inr inst'" shows "i_sprev inst' = i_sprev inst"
proof -
  obtain ret inst1 where b: "bound inst ispi rspi = (ret, inst1)" by force
  show ?thesis
    using assms b bound_sprev [OF b] report_keeps(2)
    by (cases ret) (auto simp: end_request_def split: if_splits)
qed

lemma finish_response_sprev:
  assumes "finish_response h inst ispi rspi = Inr (h', inst')"
  shows "i_sprev inst' = i_sprev inst \<or> i_sprev inst' = None"
proof -
  obtain ret inst1 where b: "bound inst ispi rspi = (ret, inst1)" by force
  obtain symbol inst2 where f: "failure_symbol inst1 = (symbol, inst2)" by force
  show ?thesis
    using assms b f bound_sprev [OF b] failure_symbol_fields [OF f] report_keeps(2)
    by (cases ret) (force simp: finish_response_def bindE_Inr_iff)+
qed

lemma mark_sprev [simp]:
  "i_sprev (mark_authentication_failed inst ispi rspi) = i_sprev inst"
  "i_sprev (mark_no_proposal_chosen inst ispi rspi) = i_sprev inst"
  "i_sprev (mark_invalid_ke_payload inst ispi rspi) = i_sprev inst"
  by (auto simp: mark_authentication_failed_def mark_no_proposal_chosen_def mark_invalid_ke_payload_def
      split: prod.splits)

lemma bind_sprev [simp]: "i_sprev (bind_ike_sa inst ispi rspi sa table_mask hash) = i_sprev inst"
  by (auto simp: bind_ike_sa_def check_instance_def Let_def split: prod.splits bool.splits if_splits)

lemma sender_step_sprev:
  "sender_step inst rs = Inr (inst', out, go) \<Longrightarrow> i_sprev inst' = i_sprev inst"
  by (auto simp: sender_step_def fetch_message_from_send_queue_def bindE_Inr_iff
      split: if_splits option.splits list.splits prod.splits)

lemma log_ok_announce:
  assumes "log_ok (inst, log)" and "reply_symbol h (i_query inst) (i_sprev inst) exchange = Inr (symbol, p)"
    and "i_sprev inst' = Some p"
  shows "log_ok (inst', log @ [symbol])"
proof -
  have names: "fst ` set response_steps \<subseteq> set response_names" "''ike_sa_init_response'' \<in> set response_names"
    by (auto simp: response_names_def)
  have init: "''ike_sa_init_response'' \<notin> fst ` set response_steps" by code_simp
  have inj: "inj_on fst (set response_steps)" by (simp add: response_steps_def)
  have ord: "in_order log" using assms(1) by (simp add: log_ok_def)
  from reply_symbol_cases [OF assms(2)]
  consider "symbol \<notin> set response_names" "p = ''error''" | "symbol = ''ike_sa_init_response''" "p = symbol"
    | s r where "s \<in> set response_steps" "symbol = fst s" "p = fst s" "i_sprev inst = Some r" "has_prefix r (snd s)"
    by blast
  then show ?thesis
  proof cases
    case 1
    have "in_order (log @ [symbol])" using 1(1) names(1) by (intro in_order_append [OF ord]) force
    then show ?thesis using 1 assms(3) by (simp add: log_ok_def)
  next
    case 2
    have "in_order (log @ [symbol])" using 2(1) init by (intro in_order_append [OF ord]) force
    then show ?thesis using 2 assms(3) names(2) by (simp add: log_ok_def)
  next
    case 3
    have r: "r = ''error'' \<or> r \<in> set response_names \<and> log \<noteq> [] \<and> last log = r"
      using assms(1) 3(4) by (simp add: log_ok_def)
    then have "r = snd s" using has_prefix_name [OF _ 3(1)] 3(5) by auto
    moreover have "snd s \<noteq> ''error''" using 3(1) by (auto simp: response_steps_def)
    ultimately have l: "log \<noteq> [] \<and> last log = snd s" using r by simp
    have "in_order (log @ [symbol])"
      by (rule in_order_append [OF ord]) (use l 3(1,2) inj in \<open>metis fst_conv inj_onD snd_conv\<close>)
    then show ?thesis using 3 assms(3) names(1) by (auto simp: log_ok_def)
  qed
qed

lemma log_ok_step:
  assumes "epdg_step (h, inst, log) (h', inst', log')" and "log_ok (inst, log)"
  shows "log_ok (inst', log')"
  using assms(1)
proof (cases rule: epdg_step.cases)
  case (announce exchange symbol sprev uninit r ntype)
  then show ?thesis
    using log_ok_announce [OF assms(2) announce(3)] announce_fields [OF announce(4,3,5)] by simp
next
  case (reset)
  then show ?thesis by (simp add: log_ok_def in_order_def reset_instance_def)
next
  case (respond ispi rspi)
  then show ?thesis using log_ok_same [OF assms(2)] finish_response_sprev by simp
qed (use assms(2) log_ok_same in \<open>auto simp: set_query_def finish_instance_def
      dest: process_message_sprev end_request_sprev sender_step_sprev\<close>)

lemma epdg_reachable_ok:
  "epdg_reachable s \<Longrightarrow> log_ok (snd s)"
proof (induction rule: epdg_reachable.induct)
  case (init asock)
  then show ?case by (simp add: log_ok_def in_order_def init_instance_def)
next
  case (step s s')
  obtain h inst log h' inst' log' where s: "s = (h, inst, log)" "s' = (h', inst', log')" by (metis prod.exhaust)
  show ?case using log_ok_step [of h inst log h' inst' log'] step s by simp
qed

end
