(* ===== verification/Listener_Run.thy ===== *)
theory Listener_Run
  imports Controller_Wire
begin

text \<open>
  The listener thread as a whole: what it can fail with on arbitrary input, what it installs for the
  testcases of the controller, and what the commands init and fin leave.
\<close>

section \<open>Lines and bytes\<close>

lemma listener_lines_refines:
  "listener_sim st zs \<Longrightarrow>
   (case zlines ls zs of
      Inl e \<Rightarrow> listener_lines ls st = Inl e
    | Inr zs' \<Rightarrow> \<exists>st'. listener_lines ls st = Inr st' \<and> listener_sim st' zs')"
proof (induction ls arbitrary: st zs)
  case (Cons l ls)
  show ?case
  proof (cases "zline zs l")
    case (Inl e)
    then show ?thesis using listener_line_refines [OF Cons.prems, of l] by simp
  next
    case (Inr zs1)
    then obtain st1 where "listener_line st l = Inr st1" "listener_sim st1 zs1"
      using listener_line_refines [OF Cons.prems, of l] by auto
    then show ?thesis using Cons.IH [of st1 zs1] Inr by (simp split: sum.splits)
  qed
qed simp

text \<open>A line as the controller sends it: its only newline ends it, and it fits the buffer.\<close>

definition sent_line :: "string \<Rightarrow> bool" where
  "sent_line l \<longleftrightarrow> (\<exists>w. l = w @ [NL] \<and> NL \<notin> set w \<and> length w < MAX_MESSAGE_LEN)"

lemma read_line_prefix:
  "NL \<notin> set w \<Longrightarrow> off + length w < MAX_MESSAGE_LEN \<Longrightarrow>
   read_line (w @ NL # rest) off = Inr (Some (w @ [NL], rest))"
  by (induction w arbitrary: off) auto

lemma read_line_sent: "sent_line l \<Longrightarrow> read_line (l @ rest) 0 = Inr (Some (l, rest))"
  using read_line_prefix [of _ 0] by (auto simp: sent_line_def)

lemma read_line_shorter:
  "read_line input off = Inr (Some (l, rest)) \<Longrightarrow> length rest < length input"
proof (induction input arbitrary: off l)
  case (Cons c cs)
  then show ?case by (fastforce simp: bindE_Inr_iff split: if_splits option.splits)
qed simp

lemma query_line_running:
  "query_line st line = Inr st' \<Longrightarrow> i_running (l_inst st') = i_running (l_inst st)"
  by (auto simp: query_line_def bindE_Inr_iff set_query_def split: if_splits prod.splits)

lemma listener_line_running:
  "listener_line st line = Inr st' \<Longrightarrow> i_running (l_inst st) \<noteq> 0 \<Longrightarrow> i_running (l_inst st') \<noteq> 0"
  by (auto simp: listener_line_def bindE_Inr_iff reset_instance_def finish_instance_def
      dest: query_line_running split: if_splits)

lemma listener_loop_lines:
  assumes "\<forall>l\<in>set ls. sent_line l" and "i_running (l_inst st) \<noteq> 0" and "length ls < k"
  shows "listener_loop k (concat ls) st = listener_lines ls st"
  using assms
proof (induction ls arbitrary: k st)
  case Nil
  then show ?case by (cases k) simp_all
next
  case (Cons l ls)
  obtain k' where k: "k = Suc k'" "length ls < k'" using Cons.prems(3) by (cases k) auto
  have "bindE (listener_line st l) (listener_loop k' (concat ls))
        = bindE (listener_line st l) (listener_lines ls)"
  proof (cases "listener_line st l")
    case (Inr st1)
    then have "i_running (l_inst st1) \<noteq> 0" using listener_line_running Cons.prems(2) by blast
    then show ?thesis using Inr Cons.IH [of st1 k'] Cons.prems(1) k(2) by simp
  qed simp
  then show ?case using k(1) Cons.prems(1,2) by (simp add: read_line_sent)
qed

lemma length_lines: "\<forall>l\<in>set ls. sent_line l \<Longrightarrow> length ls \<le> length (concat ls)"
  by (induction ls) (auto simp: sent_line_def)

lemma listener_run_lines:
  assumes "\<forall>l\<in>set ls. sent_line l" and "i_running (l_inst st) \<noteq> 0"
  shows "listener_run (concat ls) st = listener_lines ls st"
  unfolding listener_run_def using length_lines [OF assms(1)]
  by (intro listener_loop_lines [OF assms]) simp

section \<open>Faults\<close>

definition listener_fault :: "cerror \<Rightarrow> bool" where
  "listener_fault e \<longleftrightarrow> e = NullDeref \<or> e = Exited 1 \<or> e = OutOfBounds"

lemma char_to_int_fault: "char_to_int s n b = Inl e \<Longrightarrow> e = OutOfBounds"
proof -
  have "char_to_int_loop b n m r = Inl e \<Longrightarrow> e = OutOfBounds" for b n m r
    by (induction b n m r rule: char_to_int_loop.induct) (auto split: if_splits)
  then show "char_to_int s n b = Inl e \<Longrightarrow> e = OutOfBounds"
    by (auto simp: char_to_int_def split: if_splits list.splits)
qed

lemma data_tokens_fault: "data_tokens toks idx d = Inl e \<Longrightarrow> listener_fault e"
proof (induction toks arbitrary: idx d)
  case (Cons t ts)
  have "data_token idx t d = Inl e \<Longrightarrow> listener_fault e"
    by (auto simp: data_token_def bindE_Inl_iff chomp_len_def listener_fault_def
        dest: char_to_int_fault split: if_splits)
  then show ?case using Cons by (auto simp: bindE_Inl_iff)
qed simp

lemma zline_fault:
  assumes "zline zs line = Inl e" shows "listener_fault e"
proof -
  have m: "zmove a z p t = Inl e \<Longrightarrow> listener_fault e" for a z p t
    by (auto simp: zmove_def listener_fault_def split: if_splits option.splits)
  have i: "zinstall zs = Inl e \<Longrightarrow> listener_fault e" for zs
    by (auto simp: zinstall_def listener_fault_def split: if_splits option.splits)
  have t: "ztokens toks z = Inl e \<Longrightarrow> listener_fault e" for toks z
    by (induction toks z rule: ztokens.induct)
      (auto simp: bindE_Inl_iff listener_fault_def dest: data_tokens_fault split: if_splits)
  have l: "line_type line = Inl e \<Longrightarrow> listener_fault e"
    by (auto simp: line_type_def bindE_Inl_iff listener_fault_def dest: char_to_int_fault)
  show ?thesis
    using assms by (auto simp: zline_def zquery_def bindE_Inl_iff listener_fault_def
        dest: m i t l split: if_splits)
qed

lemma read_line_fault: "read_line input off = Inl e \<Longrightarrow> e = OutOfBounds"
  by (induction input arbitrary: off) (auto simp: bindE_Inl_iff split: if_splits)

lemma listener_loop_fault:
  "listener_sim st zs \<Longrightarrow>
   case listener_loop k input st of
     Inl e \<Rightarrow> listener_fault e
   | Inr st' \<Rightarrow> \<exists>zs'. listener_sim st' zs'"
proof (induction k arbitrary: input st zs)
  case 0
  then show ?case by auto
next
  case (Suc k)
  show ?case
  proof (cases "i_running (l_inst st) = 0")
    case True
    then show ?thesis using Suc.prems by auto
  next
    case False
    consider e where "read_line input 0 = Inl e" | "read_line input 0 = Inr None"
      | l rest where "read_line input 0 = Inr (Some (l, rest))"
      by (cases "read_line input 0") (auto, metis option.exhaust surj_pair)
    then show ?thesis
    proof cases
      case 1
      then show ?thesis using False read_line_fault by (auto simp: listener_fault_def)
    next
      case 2
      then show ?thesis using False Suc.prems by auto
    next
      case 3
      show ?thesis
      proof (cases "zline zs l")
        case (Inl e)
        then show ?thesis
          using 3 False listener_line_refines [OF Suc.prems, of l] zline_fault by simp
      next
        case (Inr zs1)
        then obtain st1 where "listener_line st l = Inr st1" "listener_sim st1 zs1"
          using listener_line_refines [OF Suc.prems, of l] by auto
        then show ?thesis using 3 False Suc.IH [of st1 zs1 rest] by simp
      qed
    qed
  qed
qed

section \<open>Idle listeners\<close>

text \<open>Between two testcases: no query is under construction, and the thread runs.\<close>

definition idle_listener :: "listener_t \<Rightarrow> bool" where
  "idle_listener st \<longleftrightarrow>
     (\<exists>zs. listener_sim st zs \<and> z_cur zs = None \<and> z_depth zs = 0) \<and> i_running (l_inst st) \<noteq> 0"

lemma init_listener_sim:
  "listener_sim (init_listener asock)
     \<lparr>z_fresh = 0, z_cur = None, z_depth = 0, z_ptype = 0, z_inst = None\<rparr>"
  by (simp add: listener_sim_def init_listener_def builder_ok_def heap_wf_def empty_heap_def
      init_instance_def)

lemma init_listener_idle: "idle_listener (init_listener asock)"
proof -
  have "i_running (l_inst (init_listener asock)) \<noteq> 0"
    by (simp add: init_listener_def init_instance_def)
  then show ?thesis unfolding idle_listener_def using init_listener_sim [of asock] by fastforce
qed

lemma sendMessage_lines:
  assumes "spi_ok ispi" and "spi_ok rspi"
  shows "wire_ok tc \<Longrightarrow> \<forall>l\<in>set (sendMessage ispi rspi m tc). sent_line l"
proof (induction tc arbitrary: m)
  case (Testcase n opr v sub)
  let ?tc = "Testcase n opr v sub"
  have "NL \<notin> set (tc_text ?tc)"
    using Testcase.prems value_type_text(1) by (auto simp: tc_text_def plain_def split: option.splits)
  then have first: "sent_line (c # ispi @ rspi @ tc_text ?tc @ [NL])" if "c \<noteq> NL" for c
    using that assms Testcase.prems
    by (auto simp: sent_line_def spi_ok_def intro!: exI [of _ "c # ispi @ rspi @ tc_text ?tc"])
  have last: "sent_line (CHR ''3'' # ispi @ rspi @ [NL])"
    using assms by (auto simp: sent_line_def spi_ok_def intro!: exI [of _ "CHR ''3'' # ispi @ rspi"])
  have "\<forall>l\<in>set (sendMessage ispi rspi False t). sent_line l" if "sub = Some ts" "t \<in> set ts" for t ts
    using that Testcase.IH [of ts t] Testcase.prems by simp
  then show ?case using first last by (auto split: option.splits)
qed

lemma listener_lines_running:
  "listener_lines ls st = Inr st' \<Longrightarrow> i_running (l_inst st) \<noteq> 0 \<Longrightarrow> i_running (l_inst st') \<noteq> 0"
  by (induction ls arbitrary: st) (auto simp: bindE_Inr_iff dest: listener_line_running)

text \<open>A message that the machine turns into a tree is installed by the thread.\<close>

lemma listener_installs:
  assumes "idle_listener st" and "spi_ok ispi" and "spi_ok rspi" and "wire_ok tc"
    and built: "\<And>zs. z_cur zs = None \<Longrightarrow> z_depth zs = 0 \<Longrightarrow>
      \<exists>zs' t. zlines (sendMessage ispi rspi True tc) zs = Inr zs' \<and> z_cur zs' = None \<and>
           z_depth zs' = 0 \<and> z_inst zs' = Some t \<and> erase t = spec"
  shows "\<exists>st' t. listener_run (concat (sendMessage ispi rspi True tc)) st = Inr st' \<and> idle_listener st' \<and>
           i_query (l_inst st') = Some (qt_addr t) \<and> query_ok (l_heap st') t \<and> erase t = spec"
proof -
  obtain zs where zs: "listener_sim st zs" "z_cur zs = None" "z_depth zs = 0"
    and run: "i_running (l_inst st) \<noteq> 0" using assms(1) by (auto simp: idle_listener_def)
  obtain zs' t where zs': "zlines (sendMessage ispi rspi True tc) zs = Inr zs'" "z_cur zs' = None"
      "z_depth zs' = 0" "z_inst zs' = Some t" "erase t = spec"
    using built [OF zs(2,3)] by blast
  then obtain st' where st': "listener_lines (sendMessage ispi rspi True tc) st = Inr st'"
      "listener_sim st' zs'"
    using listener_lines_refines [OF zs(1), of "sendMessage ispi rspi True tc"] by auto
  have "listener_run (concat (sendMessage ispi rspi True tc)) st = Inr st'"
    using listener_run_lines [OF sendMessage_lines [OF assms(2-4)] run] st'(1) by simp
  moreover have "idle_listener st'"
    using st' zs' listener_lines_running [OF st'(1) run] by (auto simp: idle_listener_def)
  ultimately show ?thesis
    using st'(2) zs'(4,5) by (auto simp: listener_sim_def installed_ok_def)
qed

end
