(* ===== verification/Transform_Proofs.thy ===== *)
theory Transform_Proofs
  imports Process_Proofs
begin

text \<open>
  The removal of transforms from a proposal: although the loop keeps a pointer into the array while
  it removes elements, a query that drops one kind of transform removes exactly the transforms of
  that kind.
\<close>

section \<open>Transforms\<close>

lemma length_remove [simp]:
  assumes "array_wf a" and "idx < a_count a"
  shows "length (a_data (remove_tail a idx)) = length (a_data a)"
    "length (a_data (remove_head a idx)) = length (a_data a)"
  using assms by (auto simp: array_wf_def remove_tail_def remove_head_def)

text \<open>An array of at most 32 slots never moves its elements to another block.\<close>

lemma array_remove_small:
  assumes "array_wf a" and "idx < a_count a" and "length (a_data a) \<le> ARRAY_MAX_UNUSED"
  shows "\<exists>a'. array_remove a idx = (a', False) \<and> length (a_data a') = length (a_data a)"
proof -
  define b where "b = (if a_count a div 2 < idx then remove_tail a idx else remove_head a idx)"
  have len: "length (a_data b) = length (a_data a)" using assms by (simp add: b_def)
  have wf: "array_wf b"
    using remove_tail_elems(2) [OF assms(1,2)] remove_head_elems(2) [OF assms(1,2)] by (simp add: b_def)
  have "a_head b + a_tail b \<le> length (a_data b)" using wf by (simp add: a_tail_def array_wf_def)
  then have "array_remove a idx = (b, False)"
    using assms(2,3) len by (simp add: array_remove_def Let_def b_def [symmetric])
  then show ?thesis using len by blast
qed

text \<open>The query drops the transforms named so.\<close>

definition drops_transform :: "qtree \<Rightarrow> string \<Rightarrow> bool" where
  "drops_transform t name \<longleftrightarrow>
     (case tree_at t IKE_SA_INIT_RESPONSE (transform_path name) of
        None \<Rightarrow> False | Some s \<Rightarrow> q_op (qt_data s) = OP_TYPE_DROP)"

lemma transform_check_rep:
  assumes "installed h inst t" and "name \<noteq> []" and "slot < length (a_data a)"
  shows "transform_check h inst type name (a, idx, Some slot) =
     (if e_type (a_data a ! slot) = type \<and> drops_transform t name then
        (case array_remove_at a idx of (a', idx', moved) \<Rightarrow>
           Inr (a', idx', if moved then None else Some slot))
      else Inr (a, idx, Some slot))"
proof -
  have q: "query_at h inst IKE_SA_INIT_RESPONSE (transform_path name)
      = Inr (map_option qt_addr (tree_at t IKE_SA_INIT_RESPONSE (transform_path name)))"
    using assms(1,2) by (intro query_at_rep) (auto simp: installed_def transform_path_def)
  show ?thesis
  proof (cases "tree_at t IKE_SA_INIT_RESPONSE (transform_path name)")
    case None
    then show ?thesis using q assms(3) by (simp add: transform_check_def drops_transform_def)
  next
    case (Some s)
    then obtain n where "qh_mem h (qt_addr s) = Some n" "data_of n = qt_data s"
      using assms(1) tree_at_node unfolding installed_def by blast
    then show ?thesis using q Some assms(3)
      by (simp add: transform_check_def drops_transform_def get_fields_node)
  qed
qed

definition transform_names :: "(int \<times> string) list" where
  "transform_names =
     [(ENCRYPTION_ALGORITHM, ''encryption_algorithm''), (DIFFIE_HELLMAN_GROUP, ''diffie_hellman_group''),
      (PSEUDO_RANDOM_FUNCTION, ''pseudo_random_function''), (INTEGRITY_ALGORITHM, ''integrity_algorithm'')]"

text \<open>The query drops at most one kind of transform.\<close>

definition drops_only :: "qtree \<Rightarrow> int \<Rightarrow> bool" where
  "drops_only t T \<longleftrightarrow> (\<forall>(ty, name) \<in> set transform_names. drops_transform t name \<longleftrightarrow> ty = T)"

lemma transform_checks_keep:
  assumes "installed h inst t" and "drops_only t T" and "slot < length (a_data a)"
    and "e_type (a_data a ! slot) \<noteq> T"
  shows "transform_checks h inst (a, idx, Some slot) = Inr (a, idx, Some slot)"
proof -
  have c: "transform_check h inst ty name (a, idx, Some slot) = Inr (a, idx, Some slot)"
    if "(ty, name) \<in> set transform_names" for ty name
    using transform_check_rep [OF assms(1) _ assms(3), of name ty idx] that assms(2,4)
    by (auto simp: drops_only_def transform_names_def)
  show ?thesis unfolding transform_checks_def
    by (rule seqE_id) (auto intro!: c simp: transform_names_def)
qed

lemma transform_checks_drop:
  assumes inst: "installed h inst t" and T: "drops_only t T" "T \<in> fst ` set transform_names"
    and slot: "slot < length (a_data a)" "e_type (a_data a ! slot) = T"
    and rem: "array_remove_at a idx = (a', idx', False)" "length (a_data a') = length (a_data a)"
  shows "transform_checks h inst (a, idx, Some slot) = Inr (a', idx', Some slot)"
proof -
  have slot': "slot < length (a_data a')" using slot rem by simp
  have miss: "transform_check h inst ty name (b, i, Some slot) = Inr (b, i, Some slot)"
    if "(ty, name) \<in> set transform_names" "ty \<noteq> T" "slot < length (a_data b)" for ty name b i
    using transform_check_rep [OF inst _ that(3), of name ty i] that T
    by (auto simp: drops_only_def transform_names_def)
  have hit: "transform_check h inst ty name (a, idx, Some slot) = Inr (a', idx', Some slot)"
    if "(ty, name) \<in> set transform_names" "ty = T" for ty name
    using transform_check_rep [OF inst _ slot(1), of name T idx] that T slot(2) rem
    by (auto simp: drops_only_def transform_names_def)
  have "T = 1 \<or> T = 4 \<or> T = 2 \<or> T = 3" using T(2) by (auto simp: transform_names_def)
  then show ?thesis
    unfolding transform_checks_def seqE.simps
    using slot(1) slot' by (elim disjE) (simp_all add: miss hit transform_names_def)
qed

lemma array_elem_slot: "array_wf a \<Longrightarrow> idx < a_count a \<Longrightarrow> a_data a ! (idx + a_head a) = array_elems a ! idx"
  by (simp add: array_wf_def array_elems_def add.commute)

lemma transforms_loop_filter:
  assumes inst: "installed h inst t" and T: "drops_only t T" "T \<in> fst ` set transform_names"
  shows "array_wf a \<Longrightarrow> length (a_data a) \<le> ARRAY_MAX_UNUSED \<Longrightarrow> idx \<le> a_count a \<Longrightarrow> a_count a - idx < k \<Longrightarrow>
     \<exists>a'. transforms_loop k h inst a idx = Inr a' \<and> array_wf a' \<and>
       array_elems a' = take idx (array_elems a) @ filter (\<lambda>e. e_type e \<noteq> T) (drop idx (array_elems a))"
proof (induction k arbitrary: a idx)
  case (Suc k)
  have len: "length (array_elems a) = a_count a" using Suc.prems(1) by (rule length_array_elems)
  show ?case
  proof (cases "idx < a_count a")
    case False
    then show ?thesis using Suc.prems len by (simp add: array_enumerate_def)
  next
    case True
    let ?slot = "idx + a_head a" and ?es = "array_elems a"
    have slot: "?slot < length (a_data a)" "a_data a ! ?slot = ?es ! idx"
      using True Suc.prems(1) array_elem_slot by (auto simp: array_wf_def)
    have split: "drop idx ?es = ?es ! idx # drop (Suc idx) ?es"
      "take (Suc idx) ?es = take idx ?es @ [?es ! idx]"
      using True len by (simp_all add: Cons_nth_drop_Suc take_Suc_conv_app_nth)
    show ?thesis
    proof (cases "e_type (?es ! idx) = T")
      case False
      then have "transform_checks h inst (a, Suc idx, Some ?slot) = Inr (a, Suc idx, Some ?slot)"
        using slot by (intro transform_checks_keep [OF inst T(1)]) auto
      then show ?thesis
        using Suc.IH [of a "Suc idx"] Suc.prems True False split by (auto simp: array_enumerate_def)
    next
      case match: True
      obtain a1 where a1: "array_remove a idx = (a1, False)" "length (a_data a1) = length (a_data a)"
        using array_remove_small [OF Suc.prems(1) True Suc.prems(2)] by blast
      note rem = array_remove_elems [OF Suc.prems(1) True a1(1)]
      have "transform_checks h inst (a, Suc idx, Some ?slot) = Inr (a1, idx, Some ?slot)"
        using slot match a1 by (intro transform_checks_drop [OF inst T]) (auto simp: array_remove_at_def)
      moreover have "\<exists>a'. transforms_loop k h inst a1 idx = Inr a' \<and> array_wf a' \<and>
          array_elems a' = take idx (array_elems a1) @ filter (\<lambda>e. e_type e \<noteq> T) (drop idx (array_elems a1))"
        using Suc.IH [of a1 idx] rem a1(2) Suc.prems True by auto
      ultimately show ?thesis
        using rem(1) match split len True by (auto simp: array_enumerate_def)
    qed
  qed
qed simp

lemma process_transforms_filter:
  assumes "installed h inst t" and "drops_only t T" and "T \<in> fst ` set transform_names"
    and "array_wf (p_transforms p)" and "length (a_data (p_transforms p)) \<le> ARRAY_MAX_UNUSED"
  shows "\<exists>a. process_transforms h inst p = Inr (COMPLETED, p\<lparr>p_transforms := a\<rparr>) \<and> array_wf a \<and>
           array_elems a = filter (\<lambda>e. e_type e \<noteq> T) (array_elems (p_transforms p))"
  using transforms_loop_filter [OF assms(1-5), of 0 "Suc (a_count (p_transforms p))"]
  by (auto simp: process_transforms_def)
end
