(* ===== verification/Eap_Proofs.thy ===== *)
theory Eap_Proofs
  imports Process_Proofs
begin

text \<open>
  The updates of EAP-AKA attributes: on attributes that follow a seven-byte header the block of an
  attribute fills exactly the body of that attribute. The header of EAP-AKA has eight bytes, and on a
  challenge as the server builds it the search runs past the attributes; the blocks for the bytes of
  the EAP header end in a call through a NULL pointer.
\<close>

section \<open>The search for an attribute\<close>

text \<open>A well-formed attribute: type, length in words, and its body.\<close>

definition aka_attr :: "nat \<Rightarrow> string \<Rightarrow> string" where
  "aka_attr type body = char_of type # char_of ((length body + 2) div 4) # body"

definition aka_ok :: "nat \<times> string \<Rightarrow> bool" where
  "aka_ok a \<longleftrightarrow> fst a < 256 \<and> (\<exists>k\<le>62. length (snd a) = 4 * k + 2)"

definition aka_attrs :: "(nat \<times> string) list \<Rightarrow> string" where
  "aka_attrs as = concat (map (\<lambda>(type, body). aka_attr type body) as)"

lemma aka_attrs_simps [simp]:
  "aka_attrs [] = []" "aka_attrs ((ty, body) # as) = aka_attr ty body @ aka_attrs as"
  "aka_attrs (as @ as') = aka_attrs as @ aka_attrs as'"
  by (simp_all add: aka_attrs_def)

lemma length_aka_attr [simp]: "length (aka_attr ty body) = length body + 2"
  by (simp add: aka_attr_def)

lemma aka_lengths:
  assumes "aka_ok (ty, body)"
  shows "of_char (char_of ty) = ty" "of_char (char_of ((length body + 2) div 4)) = (length body + 2) div 4"
    "nat ((4 * int ((length body + 2) div 4) - 2) mod 256) = length body"
proof -
  obtain k where k: "k \<le> 62" "length body = 4 * k + 2" using assms by (auto simp: aka_ok_def)
  then have "(length body + 2) div 4 = k + 1" by simp
  then show "of_char (char_of ((length body + 2) div 4)) = (length body + 2) div 4"
    "nat ((4 * int ((length body + 2) div 4) - 2) mod 256) = length body"
    using k by simp_all
  show "of_char (char_of ty) = ty" using assms by (simp add: aka_ok_def)
qed

lemma eap_find_skip:
  assumes "aka_ok (ty, body)" and "ty \<noteq> at"
    and "p = length pre"
  shows "eap_find (pre @ aka_attr ty body @ post) at p (int (length (aka_attr ty body @ post))) =
         eap_find (pre @ aka_attr ty body @ post) at (p + length body + 2) (int (length post))"
  using aka_lengths [OF assms(1)] assms(2)
  by (subst eap_find.simps) (simp add: assms(3) aka_attr_def nth_append Let_def)

lemma eap_find_hit:
  assumes "aka_ok (at, body)" and "p = length pre"
  shows "eap_find (pre @ aka_attr at body @ post) at p (int (length (aka_attr at body @ post))) =
         Inr (p + 2, int (length body + length post), Some ((length body + 2) div 4, length body))"
  using aka_lengths [OF assms(1)]
  by (subst eap_find.simps) (simp add: assms(2) aka_attr_def nth_append Let_def)

lemma eap_find_first:
  assumes "\<forall>a\<in>set as. aka_ok a \<and> fst a \<noteq> at" and "aka_ok (at, body)"
  shows "eap_find (pre @ aka_attrs as @ aka_attr at body @ post) at (length pre)
           (int (length (aka_attrs as @ aka_attr at body @ post))) =
         Inr (length pre + length (aka_attrs as) + 2, int (length body + length post),
              Some ((length body + 2) div 4, length body))"
  using assms(1)
proof (induction as arbitrary: pre)
  case Nil
  then show ?case using eap_find_hit [OF assms(2), of "length pre" pre post] by simp
next
  case (Cons a as)
  obtain ty b where a: "a = (ty, b)" by (cases a)
  have ok: "aka_ok (ty, b)" "ty \<noteq> at" using Cons.prems a by auto
  show ?case
    using eap_find_skip [OF ok refl, of pre "aka_attrs as @ aka_attr at body @ post"]
      Cons.IH [of "pre @ aka_attr ty b"] Cons.prems a
    by (simp add: algebra_simps)
qed

text \<open>What the values min, max and median put into the body of the attribute that was found.\<close>

lemma eap_fill_body:
  assumes "length body = 4 * k + 2"
  shows "eap_fill (pre @ aka_attr ty body @ post) (length pre + 2) (length body) c =
         Inr (pre @ aka_attr ty (take 2 body @ replicate (length body - 2) c) @ post)"
proof -
  obtain b0 b1 bs where body: "body = b0 # b1 # bs"
    using assms by (cases body; cases "tl body") auto
  have dr: "drop (length pre + 2 + length body) (pre @ aka_attr ty body @ post) = post"
    using append_eq_conv_conj [of "pre @ aka_attr ty body" post "(pre @ aka_attr ty body) @ post"] by simp
  have tk: "take (length pre + 2 + 2) (pre @ aka_attr ty body @ post)
      = pre @ [char_of ty, char_of ((length body + 2) div 4), b0, b1]"
    by (simp add: aka_attr_def body)
  show ?thesis
    unfolding eap_fill_def dr tk by (cases bs) (simp_all add: aka_attr_def body)
qed

section \<open>Updating an attribute\<close>

text \<open>The byte that a symbolic value stands for.\<close>

definition fill_byte :: "string \<Rightarrow> char option" where
  "fill_byte v =
     (if take 3 v = ''min'' then Some NUL
      else if take 3 v = ''max'' then Some (CHR 0xFF)
      else if take 6 v = ''median'' then Some (CHR 0x88) else None)"

lemma eap_update_fill:
  assumes "fill_byte v = Some c" and "length body = 4 * k + 2"
  shows "eap_update (pre @ aka_attr ty body @ post) (length pre + 2) (length body) (CBuf v) (int (length v)) =
         Inr (pre @ aka_attr ty (take 2 body @ replicate (length body - 2) c) @ post)"
proof -
  have len: "3 \<le> length v"
    using assms(1) by (auto simp: fill_byte_def dest: arg_cong [where f = length] split: if_splits)
  then show ?thesis
    using assms(1) eap_fill_body [OF assms(2), of pre ty post c]
    by (auto simp: eap_update_def value_is_def strncmp_eq_take fill_byte_def split: if_splits)
qed

text \<open>The four attributes with their types.\<close>

definition aka_names :: "(string \<times> nat) list" where
  "aka_names = [(''at_rand'', AKA_TYPE_AT_RAND), (''at_autn'', AKA_TYPE_AT_AUTN),
     (''at_mac'', AKA_TYPE_AT_MAC), (''at_checkcode'', AKA_TYPE_AT_CHECKCODE)]"

text \<open>A query that is a single path of named nodes.\<close>

fun path_query :: "qtree \<Rightarrow> string list \<Rightarrow> qtree \<Rightarrow> bool" where
  "path_query t [] s = (t = s \<and> qt_subs s = [])"
| "path_query t (n # ns) s = (\<exists>u. qt_subs t = [u] \<and> named n u \<and> path_query u ns s)"

lemma path_query_subtree:
  "path_query t names s \<Longrightarrow> subtree t names = Some s"
  by (induction t names s rule: path_query.induct) auto

lemma path_query_other:
  "path_query t names s \<Longrightarrow> length names' = length names \<Longrightarrow> names' \<noteq> names \<Longrightarrow> subtree t names' = None"
proof (induction t names s arbitrary: names' rule: path_query.induct)
  case (2 t n ns s)
  then obtain m ms where "names' = m # ms" by (cases names') auto
  with 2 show ?case by (auto simp: named_def)
qed simp


lemma named_iff: "named n t \<Longrightarrow> named m t \<longleftrightarrow> m = n"
  by (auto simp: named_def)

text \<open>On such a query only the block of its own path does something.\<close>

lemma eap_attribute_block_skip:
  assumes "installed h inst t" and "named m t" and "m' \<noteq> []" and "name' \<noteq> []"
    and "path_query t [''extensible_authentication'', ''eap_aka_attribute'', name] s"
    and "m' \<noteq> m \<or> name' \<noteq> name"
  shows "eap_attribute_block h inst m' name' at eap = Inr eap"
proof -
  have "tree_at t m' [''extensible_authentication'', ''eap_aka_attribute'', name'] = None"
    using path_query_other [OF assms(5), of "[''extensible_authentication'', ''eap_aka_attribute'', name']"]
      assms(2,6) by (auto simp: tree_at_def named_iff)
  moreover have "query_at h inst m' [''extensible_authentication'', ''eap_aka_attribute'', name'] =
      Inr (map_option qt_addr (tree_at t m' [''extensible_authentication'', ''eap_aka_attribute'', name']))"
    using assms(1,3,4) by (intro query_at_rep) (auto simp: installed_def)
  ultimately show ?thesis by (simp add: eap_attribute_block_def)
qed

lemma eap_byte_block_skip:
  assumes "installed h inst t" and "m' \<noteq> []" and "name' \<noteq> []"
    and "path_query t [''extensible_authentication'', n2, name] s" and "name' \<noteq> n2"
  shows "eap_byte_block h inst m' name' eap = Inr eap"
proof -
  have "tree_at t m' [''extensible_authentication'', name'] = None"
    using assms(4,5) by (auto simp: tree_at_def named_def)
  then show ?thesis
    unfolding eap_byte_block_def
    by (subst when_update_rep [OF assms(1,2)]) (use assms(3) in \<open>auto simp: tree_update_def\<close>)
qed

lemma eap_attribute_block_hit:
  assumes inst: "installed h inst t" and m: "named m t" "m \<noteq> []" and name: "name \<noteq> []"
    and path: "path_query t [''extensible_authentication'', ''eap_aka_attribute'', name] s"
    and d: "q_vtype (qt_data s) = VAL_TYPE_STRING" "q_op (qt_data s) = OP_TYPE_UPDATE"
      "q_value (qt_data s) = CBuf v" "q_vlen (qt_data s) = int (length v)" "fill_byte v = Some c"
    and data: "length pre = EHDR_SIZE" "\<forall>a\<in>set as. aka_ok a \<and> fst a \<noteq> at" "aka_ok (at, body)"
  shows "eap_attribute_block h inst m name at \<lparr>eap_data = pre @ aka_attrs as @ aka_attr at body @ post\<rparr> =
         Inr \<lparr>eap_data = pre @ aka_attrs as @ aka_attr at (take 2 body @ replicate (length body - 2) c) @ post\<rparr>"
proof -
  let ?path = "[''extensible_authentication'', ''eap_aka_attribute'', name]"
  let ?data = "pre @ aka_attrs as @ aka_attr at body @ post"
  obtain k where k: "length body = 4 * k + 2" using data(3) by (auto simp: aka_ok_def)
  have at: "tree_at t m ?path = Some s" using path_query_subtree [OF path] m by (simp add: tree_at_def)
  have q: "query_at h inst m ?path = Inr (Some (qt_addr s))"
    using query_at_rep [of h t inst m ?path] inst m name at by (auto simp: installed_def)
  obtain n where n: "qh_mem h (qt_addr s) = Some n" "data_of n = qt_data s"
    using tree_at_node [OF _ at] inst by (auto simp: installed_def)
  have f: "eap_find ?data at EHDR_SIZE (int (length ?data) - int EHDR_SIZE) =
      Inr (length pre + length (aka_attrs as) + 2, int (length body + length post),
           Some ((length body + 2) div 4, length body))"
    using eap_find_first [OF data(2,3), of pre post] data(1) by simp
  have u: "eap_update ?data (length pre + length (aka_attrs as) + 2) (length body) (CBuf v) (int (length v)) =
      Inr (pre @ aka_attrs as @ aka_attr at (take 2 body @ replicate (length body - 2) c) @ post)"
    using eap_update_fill [OF d(5) k, of "pre @ aka_attrs as" at post] by simp
  have pos: "0 < int (length body + length post)" using k by simp
  show ?thesis
    unfolding eap_attribute_block_def q bindE.simps
    using d n f u pos by (simp add: get_fields_node)
qed

lemma eap_blocks_single:
  assumes inst: "installed h inst t" and m: "named m t" "m \<noteq> []"
    and path: "path_query t [''extensible_authentication'', ''eap_aka_attribute'', name] s"
    and name: "(name, at) \<in> set aka_names"
  shows "seqE (eap_blocks h inst m) eap = eap_attribute_block h inst m name at eap"
proof -
  have b: "eap_byte_block h inst m name' e = Inr e" if "name' \<in> {''code'', ''id'', ''type''}" for name' e
    using that by (intro eap_byte_block_skip [OF inst m(2) _ path]) auto
  have a: "eap_attribute_block h inst m name' at' e = Inr e" if "name' \<noteq> []" "name' \<noteq> name" for name' at' e
    using that by (intro eap_attribute_block_skip [OF inst m(1,2) _ path]) auto
  have "name = ''at_rand'' \<and> at = AKA_TYPE_AT_RAND \<or> name = ''at_autn'' \<and> at = AKA_TYPE_AT_AUTN \<or>
      name = ''at_mac'' \<and> at = AKA_TYPE_AT_MAC \<or> name = ''at_checkcode'' \<and> at = AKA_TYPE_AT_CHECKCODE"
    using name by (simp add: aka_names_def)
  then show ?thesis
    unfolding eap_blocks_def seqE.simps by (elim disjE conjE) (simp_all add: a b)
qed

lemma eap_blocks_skip:
  assumes inst: "installed h inst t" and m: "\<not> named m t" "m \<noteq> []"
  shows "seqE (eap_blocks h inst m) eap = Inr eap"
proof -
  have none: "tree_at t m path = None" for path using m(1) by (simp add: tree_at_def)
  have b: "eap_byte_block h inst m name e = Inr e" if "name \<noteq> []" for name e
    unfolding eap_byte_block_def
    by (subst when_update_rep [OF inst m(2)]) (use that in \<open>auto simp: tree_update_def none\<close>)
  have a: "eap_attribute_block h inst m name at e = Inr e" if "name \<noteq> []" for name at e
    using query_at_rep [of h t inst m "[''extensible_authentication'', ''eap_aka_attribute'', name]"]
      inst m(2) that by (simp add: eap_attribute_block_def installed_def none)
  show ?thesis unfolding eap_blocks_def by (simp add: a b)
qed

definition eap_messages :: "string list" where
  "eap_messages = [IKE_AUTH_1_RESPONSE, IKE_AUTH_2_RESPONSE]"

lemma eap_messages_distinct: "distinct eap_messages" "m \<in> set eap_messages \<Longrightarrow> m \<noteq> []"
  by (auto simp: eap_messages_def message_names)

lemma process_eap_message:
  assumes inst: "installed h inst t" and m: "named m t" "m \<in> set eap_messages"
  shows "process_extensible_authentication h inst eap =
         bindE (seqE (eap_blocks h inst m) eap) (\<lambda>eap'. Inr (COMPLETED, eap'))"
proof -
  have "seqE (concat (map (eap_blocks h inst) eap_messages)) eap = seqE (eap_blocks h inst m) eap"
  proof (rule seqE_concat_single [OF m(2) eap_messages_distinct(1)])
    fix x e assume "x \<in> set eap_messages" "x \<noteq> m"
    then show "seqE (eap_blocks h inst x) e = Inr e"
      using m(1) eap_messages_distinct(2) by (intro eap_blocks_skip [OF inst]) (auto simp: named_iff)
  qed
  then show ?thesis by (simp only: process_extensible_authentication_def eap_messages_def)
qed

text \<open>The blocks for code, identifier and type end in a call through a NULL pointer.\<close>

lemma eap_byte_block_crash:
  assumes inst: "installed h inst t" and m: "named m t" "m \<in> set eap_messages"
    and path: "path_query t [''extensible_authentication'', name] s" "name \<in> {''code'', ''id'', ''type''}"
    and d: "q_vtype (qt_data s) = VAL_TYPE_UINT8" "q_op (qt_data s) = OP_TYPE_UPDATE"
      "value_int (q_value (qt_data s)) (q_vlen (qt_data s)) 10 = Inr v"
  shows "process_extensible_authentication h inst eap = Inl NullDeref"
proof -
  have mne: "m \<noteq> []" using m(2) by (rule eap_messages_distinct(2))
  have at: "tree_at t m [''extensible_authentication'', name'] = (if name' = name then Some s else None)" for name'
    using path_query_subtree [OF path(1)]
      path_query_other [OF path(1), of "[''extensible_authentication'', name']"] m(1)
    by (auto simp: tree_at_def)
  have b: "eap_byte_block h inst m name' e = (if name' = name then Inl NullDeref else Inr e)"
    if "name' \<noteq> []" for name' e
    unfolding eap_byte_block_def
    by (subst when_update_rep [OF inst mne]) (use that d in \<open>auto simp: tree_update_def at\<close>)
  have "name = ''code'' \<or> name = ''id'' \<or> name = ''type''" using path(2) by simp
  then have "seqE (eap_blocks h inst m) eap = Inl NullDeref"
    unfolding eap_blocks_def seqE.simps by (elim disjE) (simp_all add: b)
  then show ?thesis using process_eap_message [OF inst m] by simp
qed

text \<open>
  In an EAP-AKA message the header has eight bytes, one more than \<^verbatim>\<open>ehdr_t\<close>. A challenge starts with
  the attribute AT_RAND, whose reserved bytes are zero; the search reads its type as a length.
\<close>

definition aka_challenge :: "nat \<Rightarrow> string \<Rightarrow> string \<Rightarrow> string" where
  "aka_challenge ident rand rest =
     (let body = [NUL, NUL] @ rand in
      [CHR 0x01, char_of ident, NUL, char_of (28 + length rest), CHR 0x17, CHR 0x01, NUL, NUL]
      @ aka_attr AKA_TYPE_AT_RAND body @ rest)"

lemma eap_find_misaligned:
  assumes "length rand = 16" and "hd rand = NUL" and "length rest \<le> 228" and "at \<noteq> 0"
  shows "\<exists>p plen. eap_find (aka_challenge ident rand rest) at EHDR_SIZE
           (int (length (aka_challenge ident rand rest)) - int EHDR_SIZE) = Inr (p, plen, None)"
proof -
  obtain rs where r: "rand = NUL # rs" "length rs = 15" using assms by (cases rand) auto
  let ?d = "aka_challenge ident rand rest"
  have d: "?d = [CHR 0x01, char_of ident, NUL, char_of (28 + length rest), CHR 0x17, CHR 0x01, NUL, NUL,
      CHR 0x01, CHR 0x05, NUL, NUL, NUL] @ rs @ rest"
    using r by (simp add: aka_challenge_def aka_attr_def Let_def char_of_def bit_0)
  have len: "length ?d = 28 + length rest" unfolding d using r(2) by simp
  have n: "?d ! 7 = NUL" "?d ! 8 = CHR 0x01" "?d ! 11 = NUL" "?d ! 12 = NUL"
    unfolding d by simp_all
  have 1: "eap_find ?d at 7 (int (length ?d) - 7) = eap_find ?d at 11 (int (length ?d) - 11)"
    using assms(4) by (subst eap_find.simps) (simp add: len n Let_def)
  have 2: "eap_find ?d at 11 (int (length ?d) - 11) = eap_find ?d at 267 (int (length ?d) - 267)"
    using assms(4) by (subst eap_find.simps) (simp add: len n Let_def)
  have 3: "eap_find ?d at 267 (int (length ?d) - 267) = Inr (267, int (length ?d) - 267, None)"
    using assms(3) by (subst eap_find.simps) (simp add: len)
  show ?thesis using 1 2 3 by simp
qed

text \<open>So an update or a drop of an attribute of such a challenge does nothing.\<close>

lemma eap_attribute_block_misaligned:
  assumes inst: "installed h inst t" and "m \<noteq> []" and "name \<noteq> []"
    and c: "length rand = 16" "hd rand = NUL" "length rest \<le> 228" "at \<noteq> 0"
  shows "eap_attribute_block h inst m name at \<lparr>eap_data = aka_challenge ident rand rest\<rparr> =
         Inr \<lparr>eap_data = aka_challenge ident rand rest\<rparr>"
proof -
  let ?path = "[''extensible_authentication'', ''eap_aka_attribute'', name]"
  have q: "query_at h inst m ?path = Inr (map_option qt_addr (tree_at t m ?path))"
    using inst assms(2,3) by (intro query_at_rep) (auto simp: installed_def)
  show ?thesis
  proof (cases "tree_at t m ?path")
    case None
    then show ?thesis using q by (simp add: eap_attribute_block_def)
  next
    case (Some s)
    then obtain n where "qh_mem h (qt_addr s) = Some n"
      using inst tree_at_node unfolding installed_def by blast
    then show ?thesis
      using q Some eap_find_misaligned [OF c, of ident]
      by (auto simp: eap_attribute_block_def get_fields_node)
  qed
qed
end
