(* ===== verification/Query_Path.thy ===== *)
theory Query_Path
  imports Query_Tree
begin

text \<open>
  Queries that are a single path, the shape of the shipped testcases, as concrete heaps: node \<open>i\<close> of the
  path is cell \<open>i\<close>.
\<close>

definition path_node :: "qdata list \<Rightarrow> nat \<Rightarrow> query_t" where
  "path_node ds i =
     qdata.extend (ds ! i)
       (query_t.fields (if i = 0 then None else Some (i - 1))
          (if Suc i < length ds then Some (Suc i) else None) None)"

definition path_heap :: "qdata list \<Rightarrow> qheap" where
  "path_heap ds =
     \<lparr>qh_mem = (\<lambda>i. if i < length ds then Some (path_node ds i) else None), qh_fresh = length ds\<rparr>"

fun path_tree :: "addr \<Rightarrow> qdata \<Rightarrow> qdata list \<Rightarrow> qtree" where
  "path_tree a d [] = QNode a d []"
| "path_tree a d (e # ds) = QNode a d [path_tree (Suc a) e ds]"

text \<open>A node with a name only, and one with an operator and a value.\<close>

definition block_data :: "string \<Rightarrow> qdata" where
  "block_data name = \<lparr>q_name = Some name, q_nlen = int (length name), q_op = 0, q_vtype = 0,
     q_value = CNull, q_vlen = 0\<rparr>"

definition attr_data :: "string \<Rightarrow> int \<Rightarrow> int \<Rightarrow> string \<Rightarrow> qdata" where
  "attr_data name opr vtype v =
     \<lparr>q_name = Some name, q_nlen = int (length name), q_op = opr, q_vtype = vtype,
      q_value = CBuf v, q_vlen = int (length v)\<rparr>"

lemma data_ok_path [simp]: "data_ok (block_data name)" "data_ok (attr_data name opr vtype v)"
  by (simp_all add: data_ok_def block_data_def attr_data_def)

lemma value_live_path [simp]: "value_live (block_data name)" "value_live (attr_data name opr vtype v)"
  by (simp_all add: block_data_def attr_data_def)

lemma path_tree_addr [simp]: "qt_addr (path_tree a d ds) = a" "qt_data (path_tree a d ds) = d"
  by (cases ds; simp)+

lemma addrs_path_tree: "addrs (path_tree a d ds) = [a..<a + Suc (length ds)]"
proof (induction ds arbitrary: a d)
  case (Cons e ds)
  then show ?case by (simp add: upt_rec)
qed simp

lemma all_data_path: "all_data P (path_tree a d ds) \<longleftrightarrow> P d \<and> (\<forall>e\<in>set ds. P e)"
  by (induction ds arbitrary: a d) auto

lemma path_node_fields [simp]:
  "data_of (path_node ds i) = ds ! i" "q_parent (path_node ds i) = (if i = 0 then None else Some (i - 1))"
  "q_sub (path_node ds i) = (if Suc i < length ds then Some (Suc i) else None)"
  "q_next (path_node ds i) = None"
  by (simp_all add: path_node_def qdata.defs query_t.defs)

lemma qrep_path:
  "drop a ds = d # es \<Longrightarrow> qrep (path_heap ds) (if a = 0 then None else Some (a - 1)) (path_tree a d es)"
proof (induction es arbitrary: a d)
  case Nil
  have "length ds - a = 1" using arg_cong [OF Nil, of length] by simp
  then have "length ds = Suc a" by simp
  moreover have "ds ! a = d" using Nil by (rule nth_via_drop)
  ultimately show ?case by (simp add: path_heap_def)
next
  case (Cons e es)
  have a: "a < length ds" "ds ! a = d" "drop (Suc a) ds = e # es"
    subgoal using Cons.prems by (metis drop_all list.discI not_le_imp_less)
    subgoal using Cons.prems by (rule nth_via_drop)
    subgoal using Cons.prems by (metis drop_Suc list.sel(3) tl_drop)
    done
  then have "Suc a < length ds" by (metis drop_all list.discI not_le_imp_less)
  then show ?case using a Cons.IH [OF a(3)] by (simp add: path_heap_def)
qed

lemma query_ok_path:
  assumes "\<forall>e\<in>set (d # ds). data_ok e"
  shows "query_ok (path_heap (d # ds)) (path_tree 0 d ds)"
proof -
  have "qrep (path_heap (d # ds)) None (path_tree 0 d ds)" using qrep_path [of 0 "d # ds" d ds] by simp
  moreover have "heap_wf (path_heap (d # ds))" by (simp add: heap_wf_def path_heap_def)
  ultimately show ?thesis
    using assms by (auto simp: query_ok_def tree_ok_def addrs_path_tree all_data_path intro!: exI [of _ None])
qed

end
