(* ===== verification/Epdg_Properties.thy ===== *)
theory Epdg_Properties
  imports Listener_Run Transform_Proofs Eap_Proofs Query_Path
begin

text \<open>
  The properties of the ePDG side, each with an instance at a concrete input where it has
  hypotheses.
\<close>

section \<open>Waiting for the next query\<close>

text \<open>The thread that answers may go on: the test is over, or there is a query that was not used yet.\<close>

definition query_ready :: "qheap \<times> instance_t \<Rightarrow> bool" where
  "query_ready s \<longleftrightarrow> i_finished (snd s) \<or>
     (\<exists>t. installed (fst s) (snd s) t \<and>
        (case i_sprev (snd s) of None \<Rightarrow> True | Some prev \<Rightarrow> \<not> named prev t))"

definition query_state_ok :: "qheap \<times> instance_t \<Rightarrow> bool" where
  "query_state_ok s \<longleftrightarrow> i_sprev (snd s) \<noteq> Some [] \<and>
     (i_query (snd s) = None \<or> (\<exists>t. installed (fst s) (snd s) t))"

lemma must_wait_installed:
  assumes "installed h inst t" and "i_sprev inst \<noteq> Some []"
  shows "must_wait h inst = Inr (case i_sprev inst of None \<Rightarrow> False | Some prev \<Rightarrow> named prev t)"
proof -
  obtain par where rep: "qrep h par t" "all_data data_ok t" and q: "i_query inst = Some (qt_addr t)"
    using assms(1) by (auto simp: installed_def query_ok_def tree_ok_def)
  obtain n where n: "qh_mem h (qt_addr t) = Some n" "data_of n = qt_data t"
    using qrep_node [OF rep(1)] by blast
  have "is_query_name h (Some (qt_addr t)) (Some prev) = Inr (named prev t)" if "prev \<noteq> []" for prev
    using is_query_name_node [OF n(1) _ that] n(2) all_data_root [OF rep(2)]
    by (auto simp: named_def truncate_fields [symmetric])
  then show ?thesis
    using assms(2) q
    by (auto simp: must_wait_def get_query_def is_query_name_def split: option.splits)
qed

lemma installed_named: "installed h inst t \<Longrightarrow> installed h inst u \<Longrightarrow> named n t = named n u"
proof -
  assume "installed h inst t" and "installed h inst u"
  then have "qt_addr t = qt_addr u" "\<exists>p. qrep h p t" "\<exists>p. qrep h p u"
    by (auto simp: installed_def query_ok_def tree_ok_def)
  then have "qt_data t = qt_data u" by (metis option.inject qrep_node)
  then show ?thesis by (simp add: named_def)
qed

lemma next_query_step:
  assumes "query_state_ok s"
  shows "next_query_loop (s # env) =
    (if query_ready s then Inr (Some (i_query (snd s))) else next_query_loop env)"
proof (cases "i_query (snd s)")
  case None
  then have "\<not> installed (fst s) (snd s) t" for t by (simp add: installed_def)
  then show ?thesis using None by (auto simp: must_wait_def get_query_def query_ready_def)
next
  case (Some a)
  then obtain t where t: "installed (fst s) (snd s) t" "i_sprev (snd s) \<noteq> Some []"
    using assms by (auto simp: query_state_ok_def)
  have r: "query_ready s \<longleftrightarrow> i_finished (snd s) \<or>
      (case i_sprev (snd s) of None \<Rightarrow> True | Some prev \<Rightarrow> \<not> named prev t)"
  proof (cases "i_sprev (snd s)")
    case None
    then show ?thesis using t(1) by (auto simp: query_ready_def)
  next
    case (Some prev)
    have "(\<exists>u. installed (fst s) (snd s) u \<and> \<not> named prev u) \<longleftrightarrow> \<not> named prev t"
      using t(1) installed_named by blast
    then show ?thesis using Some by (simp add: query_ready_def)
  qed
  show ?thesis unfolding r next_query_loop.simps
    using must_wait_installed [OF t] by (auto simp: get_query_def split: option.splits)
qed

lemma next_query_loop_find:
  "\<forall>s\<in>set ss. query_state_ok s \<Longrightarrow>
   next_query_loop ss = Inr (map_option (\<lambda>s. i_query (snd s)) (find query_ready ss))"
proof (induction ss)
  case (Cons s ss)
  then show ?case by (simp add: next_query_step del: next_query_loop.simps)
qed simp

section \<open>The listener thread\<close>

definition no_spi :: string where
  "no_spi = replicate 16 (CHR ''0'')"

definition example_testcase :: testcase where
  "example_testcase =
     Testcase ''ike_sa_init_response'' None None
       (Some [Testcase ''message_id'' (Some ''update'') (Some (VT_UINT32, ''5'')) None])"

lemma spi_ok_zero: "spi_ok no_spi"
  by (simp add: spi_ok_def no_spi_def)

lemma example_testcase_ok: "chain_shaped example_testcase" "wire_ok example_testcase"
  by (simp_all add: example_testcase_def plain_def tc_text_def getValueTypeAsInteger_def digits_pos)

text \<open>
  C1: Round trip over the wire. For every testcase in which each payload is the only sub-testcase of
  its parent (the shape of all shipped testcases), when the controller sends its lines the listener
  thread processes them without a fault, installs in the instance a well-formed query whose nodes carry
  exactly the names, operators, value types and values of the testcase, and is ready for the next one.
\<close>

theorem listener_installs_testcase:
  assumes "idle_listener st" and "spi_ok ispi" and "spi_ok rspi" and "chain_shaped tc" and "wire_ok tc"
  shows "\<exists>st' t. listener_run (concat (sendMessage ispi rspi True tc)) st = Inr st' \<and> idle_listener st' \<and>
           i_query (l_inst st') = Some (qt_addr t) \<and> query_ok (l_heap st') t \<and> erase t = tc_spec tc"
  using assms message_built by (intro listener_installs) auto

theorem listener_installs_testcase_witness:
  "\<exists>st' t. listener_run (concat (sendMessage no_spi no_spi True example_testcase)) (init_listener 3) = Inr st' \<and>
     idle_listener st' \<and> i_query (l_inst st') = Some (qt_addr t) \<and> query_ok (l_heap st') t \<and>
     erase t = tc_spec example_testcase"
  by (rule listener_installs_testcase [OF init_listener_idle spi_ok_zero spi_ok_zero example_testcase_ok])

definition example_siblings :: testcase where
  "example_siblings =
     Testcase ''ike_sa_init_response'' None None
       (Some [Testcase ''key_exchange'' None None
                (Some [Testcase ''diffie_hellman_group'' (Some ''update'') (Some (VT_UINT16, ''2'')) None]),
              Testcase ''nonce'' None None (Some [Testcase ''nonce_data'' (Some ''drop'') None None])])"

text \<open>
  A message with two payloads is not rebuilt: whatever the two payloads are, the listener installs
  the first payload as the query, with the second payload inside it, and the node of the message is not
  part of the installed query (the end of a block moves the position up by one level only).
\<close>

theorem listener_misplaces_second_payload:
  assumes "idle_listener st" and "spi_ok ispi" and "spi_ok rspi" and "wire_ok tc"
    and "tc_sub tc = Some [p1, p2]" and "chain_shaped p1" and "chain_shaped p2"
    and "tc_sub p1 = Some ts1" and "tc_sub p2 = Some ts2"
  shows "\<exists>st' t. listener_run (concat (sendMessage ispi rspi True tc)) st = Inr st' \<and> idle_listener st' \<and>
           i_query (l_inst st') = Some (qt_addr t) \<and> query_ok (l_heap st') t \<and>
           erase t = add_first (tc_spec p2) (tc_spec p1)"
  using assms two_payloads_built by (intro listener_installs) auto

theorem listener_misplaces_second_payload_witness:
  "\<exists>st' t p1 p2. tc_sub example_siblings = Some [p1, p2] \<and>
     listener_run (concat (sendMessage no_spi no_spi True example_siblings)) (init_listener 3) = Inr st' \<and>
     i_query (l_inst st') = Some (qt_addr t) \<and> erase t = add_first (tc_spec p2) (tc_spec p1)"
proof -
  have w: "wire_ok example_siblings"
    by (simp add: example_siblings_def plain_def tc_text_def getValueTypeAsInteger_def digits_pos)
  show ?thesis
    using listener_misplaces_second_payload [OF init_listener_idle spi_ok_zero spi_ok_zero w]
    by (fastforce simp: example_siblings_def)
qed

text \<open>
  C12: Memory safety of the listener on arbitrary input. Whatever bytes a controller sends, the thread
  never releases a node twice, never touches a released node, never reads an uninitialised variable and
  never loops inside an operation: it ends normally, or with a NULL dereference, an access outside the
  line buffer, or the exit of a misplaced attribute.
\<close>

theorem listener_memory_safe:
  "case listener_run input (init_listener asock) of
     Inl e \<Rightarrow> e = NullDeref \<or> e = Exited 1 \<or> e = OutOfBounds
   | Inr st \<Rightarrow> \<exists>zs. listener_sim st zs"
  using listener_loop_fault [OF init_listener_sim, of "Suc (length input)" input asock]
  by (auto simp: listener_run_def listener_fault_def simp del: listener_loop.simps split: sum.splits)

text \<open>
  C2: Refinement. On every line, well-formed or not, the thread that works on linked nodes behaves as the
  machine that works on a tree with a position in it: the same fault, or a state that represents the state
  of the machine.
\<close>

theorem listener_refines_machine:
  assumes "listener_sim st zs"
  shows "case zline zs line of
           Inl e \<Rightarrow> listener_line st line = Inl e
         | Inr zs' \<Rightarrow> \<exists>st'. listener_line st line = Inr st' \<and> listener_sim st' zs'"
  by (rule listener_line_refines [OF assms])

theorem listener_refines_machine_witness:
  "\<exists>st'. listener_line (init_listener 3) FIN_REQUEST = Inr st' \<and>
     listener_sim st' \<lparr>z_fresh = 0, z_cur = None, z_depth = 0, z_ptype = 0, z_inst = None\<rparr>"
  using listener_refines_machine [OF init_listener_sim [of 3], of FIN_REQUEST]
  by (simp add: zline_def FIN_REQUEST_def HELLO_REQUEST_def RESET_REQUEST_def)

text \<open>
  The commands init and fin. In every state the thread can be in they release the installed query
  completely (no cell of it stays allocated), leave every other cell as it is, and clear the pointer of
  the instance; init additionally answers with an acknowledgement and starts a test, fin ends it.
\<close>

theorem listener_reset_releases:
  assumes "listener_sim st zs"
  shows "\<exists>h. listener_line st RESET_REQUEST =
             Inr (st\<lparr>l_heap := h, l_inst := reset_instance (l_inst st), l_sent := l_sent st @ ACK_RESPONSE\<rparr>) \<and>
           listener_line st FIN_REQUEST = Inr (st\<lparr>l_heap := h, l_inst := finish_instance (l_inst st)\<rparr>) \<and>
           h = release (l_heap st) (case z_inst zs of None \<Rightarrow> {} | Some t \<Rightarrow> set (addrs t))"
proof -
  have r: "release_query (l_heap st) (l_inst st) =
      Inr (release (l_heap st) (case z_inst zs of None \<Rightarrow> {} | Some t \<Rightarrow> set (addrs t)))"
    using assms free_query_rep
    by (auto simp: listener_sim_def installed_ok_def release_query_def split: option.splits)
  have "HELLO_REQUEST \<noteq> RESET_REQUEST" "HELLO_REQUEST \<noteq> FIN_REQUEST" "RESET_REQUEST \<noteq> FIN_REQUEST"
    by (simp_all add: HELLO_REQUEST_def RESET_REQUEST_def FIN_REQUEST_def)
  then show ?thesis using r by (auto simp: listener_line_def)
qed

theorem listener_reset_releases_witness:
  "\<exists>h. listener_line (init_listener 3) FIN_REQUEST =
         Inr ((init_listener 3)\<lparr>l_heap := h, l_inst := finish_instance (l_inst (init_listener 3))\<rparr>) \<and>
       h = release (l_heap (init_listener 3)) {}"
  using listener_reset_releases [OF init_listener_sim [of 3]] by auto

section \<open>Queries\<close>

definition example_path :: "qdata list" where
  "example_path = [attr_data ''message_id'' OP_TYPE_UPDATE VAL_TYPE_UINT32 ''5'']"

definition example_root :: qdata where
  "example_root = block_data ''ike_sa_init_response''"

lemma example_query_ok: "query_ok (path_heap (example_root # example_path)) (path_tree 0 example_root example_path)"
  by (rule query_ok_path) (simp add: example_path_def example_root_def)

text \<open>
  C29: Releasing a query. On every well-formed query \<^verbatim>\<open>free_query\<close> ends, and either it releases exactly the
  nodes of the query and nothing else, or the value of some node was released before and it fails with a
  double free; the second case occurs exactly when such a node exists.
\<close>

theorem free_query_exact:
  assumes "query_ok h t"
  shows "free_query h (Some (qt_addr t)) =
           (if all_data (\<lambda>d. q_value d \<noteq> CFreed) t
            then Inr (h\<lparr>qh_mem := (\<lambda>a. if a \<in> set (addrs t) then None else qh_mem h a)\<rparr>)
            else Inl DoubleFree)"
  using free_query_result [OF assms] by (simp add: freed_result_def release_def)

theorem free_query_exact_witness:
  "\<exists>h'. free_query (path_heap (example_root # example_path)) (Some 0) = Inr h' \<and>
     qh_mem h' 0 = None \<and> qh_mem h' 1 = None"
  using free_query_exact [OF example_query_ok]
  by (simp add: all_data_path addrs_path_tree example_path_def example_root_def)

text \<open>
  The guards of the query processing. The nested condition that walks from the query of the instance
  along names is, on every well-formed query, the lookup of that path in the tree of the query; it ends
  and touches no released node.
\<close>

theorem query_guard_is_lookup:
  assumes "query_ok h t" and "i_query inst = Some (qt_addr t)" and "mname \<noteq> []" and "[] \<notin> set names"
  shows "query_at h inst mname names =
           Inr (map_option qt_addr (if q_name (qt_data t) = Some mname then subtree t names else None))"
  using query_at_rep [OF assms] by (simp add: tree_at_def named_def)

theorem query_guard_is_lookup_witness:
  "query_at (path_heap (example_root # example_path)) ((init_instance 3)\<lparr>i_query := Some 0\<rparr>)
     ''ike_sa_init_response'' [''message_id''] = Inr (Some 1)"
  using query_guard_is_lookup [OF example_query_ok,
      of "(init_instance 3)\<lparr>i_query := Some 0\<rparr>" "''ike_sa_init_response''" "[''message_id'']"]
  by (simp add: example_path_def example_root_def block_data_def attr_data_def named_def)

text \<open>
  Printing a query ends and prints one line per node, indented by its depth, in the order of the tree,
  each closed by an end line; it leaves the line buffer exactly when the name and value of some node are
  together too long for it.
\<close>

theorem print_query_prints_tree:
  assumes "query_ok h t" and "all_data (\<lambda>d. q_value d \<noteq> CFreed) t"
  shows "print_query h (Some (qt_addr t)) =
           (if all_data printable t then Inr (tree_lines 0 t) else Inl OutOfBounds)"
  by (rule print_query_rep [OF assms])

theorem print_query_prints_tree_witness:
  "print_query (path_heap (example_root # example_path)) (Some 0) =
     Inr [''ike_sa_init_response'', ''  message_id:5'', ''  end'', ''end'']"
  using print_query_prints_tree [OF example_query_ok]
  by (simp add: all_data_path example_path_def example_root_def block_data_def attr_data_def printable_def
      data_line_def)

text \<open>
  C36: Waiting for a query. For every sequence of states that the busy wait of \<^verbatim>\<open>get_next_query\<close> observes,
  the loop returns at the first state in which the test is finished or a query is installed whose name is
  not that of the previous response, with the query of that state, and it still waits when there is no
  such state.
\<close>

theorem get_next_query_waits:
  assumes "i_initiated inst" and "\<not> i_finished inst" and "\<forall>s\<in>set ((h, inst) # env). query_state_ok s"
  shows "get_next_query h inst env =
           Inr (map_option (\<lambda>s. i_query (snd s)) (find query_ready ((h, inst) # env)))"
  using assms next_query_loop_find [OF assms(3)] by (simp add: get_next_query_def del: next_query_loop.simps)

theorem get_next_query_waits_witness:
  "get_next_query empty_heap ((init_instance 3)\<lparr>i_initiated := True\<rparr>)
     [(path_heap (example_root # example_path), (init_instance 3)\<lparr>i_initiated := True, i_query := Some 0\<rparr>)]
   = Inr (Some (Some 0))"
proof -
  let ?i = "(init_instance 3)\<lparr>i_initiated := True\<rparr>"
  let ?j = "(init_instance 3)\<lparr>i_initiated := True, i_query := Some 0\<rparr>"
  let ?h = "path_heap (example_root # example_path)"
  have j: "installed ?h ?j (path_tree 0 example_root example_path)"
    using example_query_ok by (simp add: installed_def)
  have ok: "query_state_ok (empty_heap, ?i)" "query_state_ok (?h, ?j)"
    using j by (auto simp: query_state_ok_def init_instance_def)
  have "\<not> query_ready (empty_heap, ?i)" "query_ready (?h, ?j)"
    using j by (auto simp: query_ready_def installed_def init_instance_def)
  then show ?thesis
    using get_next_query_waits [of ?i empty_heap "[(?h, ?j)]"] ok by (simp add: init_instance_def)
qed

section \<open>The send queue and the sender thread\<close>

text \<open>
  C14: The send queue is a bounded first-in first-out queue. Every interleaving of additions and fetches on
  a well-formed instance succeeds, accepts and returns exactly the messages that the abstract queue of
  capacity ten accepts and returns, and what was returned followed by what is still queued is what was
  queued followed by what was accepted, in order.
\<close>

theorem send_queue_fifo:
  assumes "queue_wf inst"
  shows "\<exists>inst' ys ins outs.
           spec_ops MAX_QUEUE_LEN (queue_contents inst) ops = (ys, ins, outs) \<and>
           run_ops add_message_to_send_queue fetch_message_from_send_queue inst ops = Inr (inst', ins, outs) \<and>
           queue_wf inst' \<and> queue_contents inst' = ys \<and>
           outs @ queue_contents inst' = queue_contents inst @ ins"
proof -
  obtain ys ins outs where s: "spec_ops MAX_QUEUE_LEN (queue_contents inst) ops = (ys, ins, outs)"
    by (metis prod_cases3)
  from epdg_queue.run_ops_refines [OF assms s] spec_ops_order [OF s] s show ?thesis by auto
qed

definition example_msg :: msg_t where
  "example_msg = \<lparr>m_mtype = 2, m_ispi = 1, m_rspi = 2, m_key = ''ike_sa_init_request'', m_klen = 19,
     m_vtype = VAL_TYPE_NONE, m_val = None, m_vlen = 0\<rparr>"

theorem send_queue_fifo_witness:
  "\<exists>inst'. run_ops add_message_to_send_queue fetch_message_from_send_queue (init_instance 3)
             [Add example_msg, Fetch, Fetch] = Inr (inst', [example_msg], [example_msg]) \<and>
           queue_contents inst' = []"
  using send_queue_fifo [OF queue_wf_init [of 3], of "[Add example_msg, Fetch, Fetch]"]
  by (auto simp: queue_contents_init)

text \<open>
  The sender's socket loop. Whatever the calls of \<^verbatim>\<open>write\<close> return, what goes to the socket is a prefix
  of the line; if the loop ends, it is the whole line; and it ends once the calls have accepted at least
  one byte as often as the line has bytes.
\<close>

theorem write_loop_sends_line:
  "(\<exists>rest. line = fst (write_loop line rs) @ rest) \<and>
   (snd (write_loop line rs) \<longrightarrow> fst (write_loop line rs) = line) \<and>
   (length line \<le> length (filter (\<lambda>r. 0 < r) rs) \<longrightarrow> snd (write_loop line rs))"
  using write_loop_sent [of line rs "fst (write_loop line rs)" "snd (write_loop line rs)"]
    write_loop_finishes [of line rs] by simp

theorem write_loop_sends_line_witness:
  "fst (write_loop ''abc'' [- 1, 2, 0, 1, 1]) = ''abc''"
  using write_loop_sends_line [of "''abc''" "[- 1, 2, 0, 1, 1]"] by simp

section \<open>Integers on the wire\<close>

text \<open>
  C38: The decimal codec. For every positive number below 2 to the 32 the text that \<^verbatim>\<open>int_to_char\<close> writes is
  read back by \<^verbatim>\<open>char_to_int\<close> as the same number if and only if the number has no zero among its decimal
  digits (the writer counts only the non-zero digits).
\<close>

theorem int_codec_roundtrip_iff:
  assumes "0 < n" and "n < 2 ^ 32"
  shows "\<exists>s. int_to_char (int n) 10 = Inr s \<and>
           (char_to_int (s @ m) (int (length s)) 10 = Inr (word_of_nat n) \<longleftrightarrow> 0 \<notin> set (digits 10 n))"
  by (rule int_codec_roundtrip [OF assms])

theorem int_codec_roundtrip_iff_witness:
  "\<exists>s. int_to_char 105 10 = Inr s \<and> char_to_int s (int (length s)) 10 \<noteq> Inr 105"
  using int_codec_roundtrip_iff [of 105 "[]"] by (simp add: digits_pos)

text \<open>
  Exactly what \<^verbatim>\<open>int_to_char\<close> writes for a number in any base above one: as many of its low-order
  digits as it has non-zero digits.
\<close>

theorem int_to_char_writes:
  assumes "1 < base"
  shows "int_to_char (int n) (int base) =
           Inr (map int_to_char_digit
                  (drop (length (filter (\<lambda>d. d = 0) (digits base n))) (digits base n)))"
  by (rule int_to_char_low_digits [OF assms])

theorem int_to_char_writes_witness: "int_to_char 10 10 = Inr ''0''"
  using int_to_char_writes [of 10 10] by (simp add: digits_pos int_to_char_digit_def char_of_def bit_0)

end
