(* ===== verification/Process_Properties.thy ===== *)
theory Process_Properties
  imports Epdg_Properties
begin

text \<open>
  The properties of the query processing of the ePDG: what a query changes in a message, what it leaves
  alone, and where the processing leaves defined behaviour.
\<close>

section \<open>No query, and dropped payloads\<close>

text \<open>
  Without a query the daemon is the unmodified one: for every payload and every next payload the
  query processing completes, and neither the payload nor the heap changes.
\<close>

theorem process_query_without_query:
  assumes "i_query inst = None"
  shows "\<exists>p'. process_query ch h inst p nxt = Inr (COMPLETED, p', h) \<and>
           (case p of P_Header st \<Rightarrow> p' = P_Header (st\<lparr>hs_tmp := None\<rparr>) | _ \<Rightarrow> p' = p)"
  using process_payload_none [OF assms, of ch h p] check_drop_next_none [OF assms]
  by (simp add: process_query_def)

definition example_nonce :: nonce_payload_t where
  "example_nonce = \<lparr>np_nonce = ''abcd'', np_payload_length = 8\<rparr>"

theorem process_query_without_query_witness:
  "process_query (\<lambda>_. 0) empty_heap (init_instance 3) (P_Nonce example_nonce) None =
     Inr (COMPLETED, P_Nonce example_nonce, empty_heap)"
  using process_query_without_query [of "init_instance 3" "\<lambda>_. 0" empty_heap "P_Nonce example_nonce" None]
  by (simp add: init_instance_def)


definition drop_nonce :: "qdata list" where
  "drop_nonce = [attr_data ''nonce'' OP_TYPE_DROP 0 []]"

lemma drop_nonce_ok: "query_ok (path_heap (example_root # drop_nonce)) (path_tree 0 example_root drop_nonce)"
  by (rule query_ok_path) (simp add: drop_nonce_def example_root_def)


section \<open>Header fields\<close>


definition example_header :: hdr_state where
  "example_header =
     \<lparr>hs_header = \<lparr>h_initiator_spi = 1, h_responder_spi = 2, h_maj_version = 2, h_min_version = 0,
        h_exchange_type = 34, h_initiator = False, h_version = False, h_response = True,
        h_encryption = False, h_commit = False, h_authonly = False, h_message_id = 0\<rparr>,
      hs_said = \<lparr>id_initiator_spi = 1, id_responder_spi = 2\<rparr>, hs_table = (\<lambda>_. []), hs_tmp = None\<rparr>"

lemma example_single:
  "single_attr (path_tree 0 example_root example_path) ''ike_sa_init_response'' ''message_id''
     (path_tree 1 (attr_data ''message_id'' OP_TYPE_UPDATE VAL_TYPE_UINT32 ''5'') [])"
  by (simp add: single_attr_def named_def example_path_def example_root_def block_data_def attr_data_def)

lemma example_attr:
  "''ike_sa_init_response'' \<in> set hdr_messages" "''message_id'' \<in> set hdr_int_attrs"
  "hdr_dec_type ''message_id'' = VAL_TYPE_UINT32" "is_digit (CHR ''5'')" "digit_val (CHR ''5'') = 5"
  by (simp_all add: hdr_messages_def hdr_int_attrs_def hdr_dec_type_def is_digit_def digit_val_def
      IKE_SA_INIT_RESPONSE_def)


text \<open>
  C28: A header update breaks the end of the test. After the processing of such a query the commands init
  and fin of the controller no longer release the installed query: the listener fails with a double
  free, because the processing released the value buffer that the query still owns.
\<close>

theorem header_update_breaks_reset:
  assumes "listener_sim st zs" and "z_inst zs = Some t" and "l_inst st = inst"
    and "single_attr t m attr s" and "m \<in> set hdr_messages" and "attr \<in> set hdr_int_attrs"
    and "q_op (qt_data s) = OP_TYPE_UPDATE" and "q_vtype (qt_data s) = hdr_dec_type attr"
    and "q_value (qt_data s) = CBuf v" and "\<forall>c\<in>set v. is_digit c"
    and "process_ike_header ch (l_heap st) inst hst = Inr (ret, hst', h')"
  shows "listener_line (st\<lparr>l_heap := h'\<rparr>) RESET_REQUEST = Inl DoubleFree \<and>
         listener_line (st\<lparr>l_heap := h'\<rparr>) FIN_REQUEST = Inl DoubleFree"
proof -
  have inst: "installed (l_heap st) inst t"
    using assms(1-3) by (auto simp: listener_sim_def installed_ok_def installed_def)
  obtain n where n: "qh_mem (l_heap st) (qt_addr s) = Some n"
      "h' = store (l_heap st) (qt_addr s) (n\<lparr>q_value := CFreed\<rparr>)"
    using process_ike_header_update [OF inst assms(4-10), of ch hst] assms(11) by auto
  have "tree_at t m [attr] = Some s" using single_attr_at [OF assms(4)] by simp
  then have "qt_addr s \<in> set (addrs t)" by (rule tree_at_addr)
  then have free: "free_query h' (Some (qt_addr t)) = Inl DoubleFree"
    using free_after_free_value [of "l_heap st" t] inst n by (simp add: installed_def)
  have "HELLO_REQUEST \<noteq> RESET_REQUEST" "HELLO_REQUEST \<noteq> FIN_REQUEST" "RESET_REQUEST \<noteq> FIN_REQUEST"
    by (simp_all add: HELLO_REQUEST_def RESET_REQUEST_def FIN_REQUEST_def)
  then show ?thesis
    using free inst assms(3) by (auto simp: listener_line_def release_query_def installed_def)
qed

text \<open>The listener with the example query installed.\<close>

definition example_listener :: listener_t where
  "example_listener = (init_listener 3)\<lparr>l_heap := path_heap (example_root # example_path),
     l_inst := (init_instance 3)\<lparr>i_query := Some 0\<rparr>\<rparr>"

lemma example_listener_sim:
  "listener_sim example_listener
     \<lparr>z_fresh = 2, z_cur = None, z_depth = 0, z_ptype = 0,
      z_inst = Some (path_tree 0 example_root example_path)\<rparr>"
  using example_query_ok
  by (simp add: listener_sim_def example_listener_def init_listener_def builder_ok_def installed_ok_def
      zipper_addrs_def query_ok_def tree_ok_def all_data_path example_path_def example_root_def path_heap_def)

theorem header_update_breaks_reset_witness:
  "\<exists>ret hst' h'. process_ike_header (\<lambda>_. 0) (l_heap example_listener) (l_inst example_listener) example_header
       = Inr (ret, hst', h') \<and>
     listener_line (example_listener\<lparr>l_heap := h'\<rparr>) RESET_REQUEST = Inl DoubleFree"
proof -
  let ?s = "path_tree 1 (attr_data ''message_id'' OP_TYPE_UPDATE VAL_TYPE_UINT32 ''5'') []"
  have inst: "installed (l_heap example_listener) (l_inst example_listener) (path_tree 0 example_root example_path)"
    using example_query_ok by (simp add: installed_def example_listener_def)
  have d: "q_op (qt_data ?s) = OP_TYPE_UPDATE" "q_vtype (qt_data ?s) = hdr_dec_type ''message_id''"
    "q_value (qt_data ?s) = CBuf ''5''" "\<forall>c\<in>set ''5''. is_digit c"
    by (simp_all add: attr_data_def example_attr)
  obtain hst' h' where r: "process_ike_header (\<lambda>_. 0) (l_heap example_listener) (l_inst example_listener)
      example_header = Inr (COMPLETED, hst', h')"
    using process_ike_header_update [OF inst example_single example_attr(1,2) d] by blast
  then show ?thesis
    using header_update_breaks_reset [OF example_listener_sim _ refl example_single example_attr(1,2) d r]
    by simp
qed

end
