(* ===== verification/Payload_Properties.thy ===== *)
theory Payload_Properties
  imports Process_Properties
begin

text \<open>
  The properties of the single payloads of the ePDG: proposals, notify, key exchange, nonce and EAP
  payloads, and of the binding of the test instance to one IKE_SA.
\<close>

section \<open>Example queries\<close>

text \<open>A query that is the path of the nodes \<open>ds\<close> below the name of a message.\<close>

definition path_inst :: instance_t where
  "path_inst = (init_instance 3)\<lparr>i_query := Some 0\<rparr>"

lemma path_installed:
  "\<forall>e\<in>set ds. data_ok e \<Longrightarrow>
   query_ok (path_heap (block_data m # ds)) (path_tree 0 (block_data m) ds) \<and>
   i_query path_inst = Some (qt_addr (path_tree 0 (block_data m) ds))"
  using query_ok_path [of "block_data m" ds] by (simp add: path_inst_def)

lemma named_path [simp]:
  "named n (QNode a (block_data m) ts) \<longleftrightarrow> n = m" "named n (QNode a (attr_data m opr vt v) ts) \<longleftrightarrow> n = m"
  by (auto simp: named_def block_data_def attr_data_def)

lemma attr_data_fields [simp]:
  "q_op (attr_data m opr vt v) = opr" "q_vtype (attr_data m opr vt v) = vt"
  "q_value (attr_data m opr vt v) = CBuf v" "q_vlen (attr_data m opr vt v) = int (length v)"
  by (simp_all add: attr_data_def)

lemma tree_at_path:
  "named m t \<Longrightarrow> path_query t path s \<Longrightarrow> tree_at t m path = Some s"
  "path_query t path s \<Longrightarrow> length path' = length path \<Longrightarrow> path' \<noteq> path \<Longrightarrow> tree_at t m path' = None"
  using path_query_subtree [of t path s] path_query_other [of t path s path'] by (auto simp: tree_at_def)

section \<open>Proposals\<close>

text \<open>
  Dropped transforms. If the query drops exactly one of the four kinds of transforms, the processing of
  a proposal's transforms ends and leaves exactly the transforms of the other kinds, in their order, for
  every transform array of at most 32 slots.
\<close>

theorem transforms_dropped:
  assumes "query_ok h t" and "i_query inst = Some (qt_addr t)"
    and "drops_only t T" and "T \<in> fst ` set transform_names"
    and "array_wf (p_transforms p)" and "length (a_data (p_transforms p)) \<le> ARRAY_MAX_UNUSED"
  shows "\<exists>a. process_transforms h inst p = Inr (COMPLETED, p\<lparr>p_transforms := a\<rparr>) \<and> array_wf a \<and>
           array_elems a = filter (\<lambda>e. e_type e \<noteq> T) (array_elems (p_transforms p))"
  using process_transforms_filter [of h inst t T p] assms by (simp add: installed_def)

definition drop_prf :: "qdata list" where
  "drop_prf = [block_data ''security_association'', block_data ''proposal'', block_data ''transform'',
     attr_data ''pseudo_random_function'' OP_TYPE_DROP 0 []]"

definition example_entry :: "int \<Rightarrow> 16 word \<Rightarrow> entry_t" where
  "example_entry ty alg = \<lparr>e_type = ty, e_alg = alg, e_key_size = 0\<rparr>"

definition example_proposal :: proposal_t where
  "example_proposal =
     \<lparr>p_transforms = \<lparr>a_data = [example_entry ENCRYPTION_ALGORITHM 12, example_entry PSEUDO_RANDOM_FUNCTION 2,
                                example_entry PSEUDO_RANDOM_FUNCTION 5], a_head = 0, a_count = 3\<rparr>,
      p_spi = 0, p_number = 1\<rparr>"

lemma drop_prf_only:
  "drops_only (path_tree 0 (block_data IKE_SA_INIT_RESPONSE) drop_prf) PSEUDO_RANDOM_FUNCTION"
  by (simp add: drops_only_def transform_names_def drops_transform_def tree_at_def drop_prf_def transform_path_def)

theorem transforms_dropped_witness:
  "\<exists>a. process_transforms (path_heap (block_data IKE_SA_INIT_RESPONSE # drop_prf)) path_inst example_proposal =
       Inr (COMPLETED, example_proposal\<lparr>p_transforms := a\<rparr>) \<and>
     array_elems a = [example_entry ENCRYPTION_ALGORITHM 12]"
proof -
  have q: "query_ok (path_heap (block_data IKE_SA_INIT_RESPONSE # drop_prf))
      (path_tree 0 (block_data IKE_SA_INIT_RESPONSE) drop_prf) \<and>
    i_query path_inst = Some (qt_addr (path_tree 0 (block_data IKE_SA_INIT_RESPONSE) drop_prf))"
    by (rule path_installed) (simp add: drop_prf_def)
  show ?thesis
    using transforms_dropped [OF conjunct1 [OF q] conjunct2 [OF q] drop_prf_only, of example_proposal]
    by (auto simp: transform_names_def example_proposal_def array_wf_def array_elems_def example_entry_def)
qed

section \<open>Key exchange and nonce payloads\<close>

text \<open>The value of a node that is updated with a string.\<close>

definition string_update :: "qtree \<Rightarrow> string \<Rightarrow> bool" where
  "string_update s v \<longleftrightarrow> q_vtype (qt_data s) = VAL_TYPE_STRING \<and> q_op (qt_data s) = OP_TYPE_UPDATE \<and>
     q_value (qt_data s) = CBuf v \<and> q_vlen (qt_data s) = int (length v)"

lemma extreme_data_exact:
  "extreme_data n (CBuf v) (int (length v)) =
     (if v = ''max'' \<or> v = ''min'' then Inr (replicate n (if v = ''max'' then CHR 0xFF else NUL)) else Inl UninitRead)"
  by (auto simp: extreme_data_def value_is_def strncmp_eq_take)

text \<open>
  The public value can only be replaced by extremes. A query with the value max or min replaces the key
  exchange data by as many bytes 255 or 0 as the table of the groups says for the group of the payload and
  leaves the payload length as it was; with every other value the function goes on with a pointer that was
  never assigned.
\<close>

theorem key_exchange_extremes:
  assumes "query_ok h t" and "i_query inst = Some (qt_addr t)" and "named IKE_SA_INIT_RESPONSE t"
    and "path_query t [''key_exchange'', ''key_exchange_data''] s" and "string_update s v"
  shows "process_key_exchange h inst ke =
      (if v = ''max'' \<or> v = ''min''
       then Inr (COMPLETED, set_key_exchange_data ke
              (replicate (dh_data_length (ke_dh_group_number ke)) (if v = ''max'' then CHR 0xFF else NUL)))
       else Inl UninitRead)"
proof -
  have inst: "installed h inst t" using assms(1,2) by (simp add: installed_def)
  show ?thesis
    using assms(5) tree_at_path(1) [OF assms(3,4)]
      tree_at_path(2) [OF assms(4), of "[''key_exchange'', ''diffie_hellman_group'']" IKE_SA_INIT_RESPONSE]
    by (simp add: process_key_exchange_def when_update_rep [OF inst] tree_update_def string_update_def
        extreme_data_exact)
qed

definition max_data :: "qdata list" where
  "max_data = [block_data ''key_exchange'', attr_data ''key_exchange_data'' OP_TYPE_UPDATE VAL_TYPE_STRING ''max'']"

definition example_ke :: ke_payload_t where
  "example_ke = \<lparr>ke_dh_group_number = 14, ke_key_exchange_data = replicate 256 (CHR ''k''), ke_payload_length = 264\<rparr>"

theorem key_exchange_extremes_witness:
  "process_key_exchange (path_heap (block_data IKE_SA_INIT_RESPONSE # max_data)) path_inst example_ke =
     Inr (COMPLETED, example_ke\<lparr>ke_key_exchange_data := replicate 256 (CHR 0xFF)\<rparr>)"
proof -
  let ?t = "path_tree 0 (block_data IKE_SA_INIT_RESPONSE) max_data"
    and ?s = "path_tree 2 (attr_data ''key_exchange_data'' OP_TYPE_UPDATE VAL_TYPE_STRING ''max'') []"
  have q: "query_ok (path_heap (block_data IKE_SA_INIT_RESPONSE # max_data)) ?t \<and> i_query path_inst = Some (qt_addr ?t)"
    by (rule path_installed) (simp add: max_data_def)
  have t: "named IKE_SA_INIT_RESPONSE ?t" "path_query ?t [''key_exchange'', ''key_exchange_data''] ?s"
    "string_update ?s ''max''"
    by (simp_all add: max_data_def string_update_def)
  show ?thesis
    using key_exchange_extremes [OF conjunct1 [OF q] conjunct2 [OF q] t, of example_ke]
    by (simp add: example_ke_def dh_data_length_def set_key_exchange_data_def)
qed

text \<open>
  The nonce can only be replaced by extremes: max and min give 32 bytes 255 or 0 and the payload length
  36, every other value a read of a pointer that was never assigned.
\<close>

theorem nonce_extremes:
  assumes "query_ok h t" and "i_query inst = Some (qt_addr t)" and "named IKE_SA_INIT_RESPONSE t"
    and "path_query t [''nonce''] s" and "string_update s v"
  shows "process_nonce h inst np =
      (if v = ''max'' \<or> v = ''min''
       then Inr (COMPLETED, np\<lparr>np_nonce := replicate 32 (if v = ''max'' then CHR 0xFF else NUL), np_payload_length := 36\<rparr>)
       else Inl UninitRead)"
proof -
  have inst: "installed h inst t" using assms(1,2) by (simp add: installed_def)
  show ?thesis
    using assms(5) tree_at_path(1) [OF assms(3,4)]
    by (simp add: process_nonce_def when_update_rep [OF inst] tree_update_def string_update_def
        extreme_data_exact set_nonce_def)
qed

definition random_nonce :: "qdata list" where
  "random_nonce = [attr_data ''nonce'' OP_TYPE_UPDATE VAL_TYPE_STRING ''random'']"

theorem nonce_extremes_witness:
  "process_nonce (path_heap (block_data IKE_SA_INIT_RESPONSE # random_nonce)) path_inst example_nonce = Inl UninitRead"
proof -
  let ?t = "path_tree 0 (block_data IKE_SA_INIT_RESPONSE) random_nonce"
    and ?s = "path_tree 1 (attr_data ''nonce'' OP_TYPE_UPDATE VAL_TYPE_STRING ''random'') []"
  have q: "query_ok (path_heap (block_data IKE_SA_INIT_RESPONSE # random_nonce)) ?t \<and>
      i_query path_inst = Some (qt_addr ?t)"
    by (rule path_installed) (simp add: random_nonce_def)
  have t: "named IKE_SA_INIT_RESPONSE ?t" "path_query ?t [''nonce''] ?s" "string_update ?s ''random''"
    by (simp_all add: random_nonce_def string_update_def)
  show ?thesis using nonce_extremes [OF conjunct1 [OF q] conjunct2 [OF q] t, of example_nonce] by simp
qed

section \<open>Notify payloads\<close>

text \<open>
  C40: Replacing a NAT detection hash. When a query replaces the hash of a NAT detection payload, the new one
  is the hash that was received, for a value that starts with received, and else exactly 20 bytes, the first
  ones of the value filled up with zeros; the payload length fits it, and the value buffer of the query node
  is released.
\<close>

theorem nat_hash_update:
  assumes "query_ok h t" and "i_query inst = Some (qt_addr t)"
    and "single_attr t IKE_SA_INIT_RESPONSE name s" and "string_update s v"
    and "(name, n_type notify, received) \<in>
      {(''nat_detection_destination_ip'', NAT_DETECTION_DESTINATION_IP, i_rcvd_dst_hash inst),
       (''nat_detection_source_ip'', NAT_DETECTION_SOURCE_IP, i_rcvd_src_hash inst)}"
  shows "\<exists>n. qh_mem h (qt_addr s) = Some n \<and>
    process_notify h inst notify =
      Inr (COMPLETED, set_notification_data notify
             (if take 8 v = ''received'' then received else take 20 v @ replicate (20 - length v) NUL),
           store h (qt_addr s) (n\<lparr>q_value := CFreed\<rparr>))"
proof -
  have inst: "installed h inst t" using assms(1,2) by (simp add: installed_def)
  have at: "tree_at t IKE_SA_INIT_RESPONSE [name] = Some s" using single_attr_at [OF assms(3)] by simp
  obtain n where n: "qh_mem h (qt_addr s) = Some n" "data_of n = qt_data s"
    using tree_at_node [OF assms(1) at] by blast
  then have v: "q_value n = CBuf v" using assms(4) by (simp add: string_update_def truncate_fields flip: n(2))
  have hash: "nat_hash received (CBuf v) (int (length v)) =
      Inr (if take 8 v = ''received'' then received else take 20 v @ replicate (20 - length v) NUL)"
    by (auto simp: nat_hash_def value_is_def strncmp_eq_take value_bytes_def zeros_def
        dest: arg_cong [where f = length])
  have "name \<noteq> []" using assms(5) by auto
  then have "notify_block h inst name (nat_hash received) (notify, None) =
      Inr (set_notification_data notify
        (if take 8 v = ''received'' then received else take 20 v @ replicate (20 - length v) NUL), Some (qt_addr s))"
    using assms(4) at hash
    by (simp add: notify_block_def when_update_rep [OF inst] tree_update_def string_update_def)
  then show ?thesis
    using assms(5) n(1) v by (auto simp: process_notify_def free_value_def)
qed

definition nat_source :: "qdata list" where
  "nat_source = [attr_data ''nat_detection_source_ip'' OP_TYPE_UPDATE VAL_TYPE_STRING ''abc'']"

definition example_notify :: notify_payload_t where
  "example_notify = \<lparr>n_type = NAT_DETECTION_SOURCE_IP, n_header_length = 8, n_data = replicate 20 (CHR ''h''),
     n_payload_length = 28\<rparr>"

theorem nat_hash_update_witness:
  "\<exists>h'. process_notify (path_heap (block_data IKE_SA_INIT_RESPONSE # nat_source)) path_inst example_notify =
     Inr (COMPLETED, example_notify\<lparr>n_data := ''abc'' @ replicate 17 NUL\<rparr>, h')"
proof -
  let ?t = "path_tree 0 (block_data IKE_SA_INIT_RESPONSE) nat_source"
    and ?s = "path_tree 1 (attr_data ''nat_detection_source_ip'' OP_TYPE_UPDATE VAL_TYPE_STRING ''abc'') []"
  have q: "query_ok (path_heap (block_data IKE_SA_INIT_RESPONSE # nat_source)) ?t \<and> i_query path_inst = Some (qt_addr ?t)"
    by (rule path_installed) (simp add: nat_source_def)
  have t: "single_attr ?t IKE_SA_INIT_RESPONSE ''nat_detection_source_ip'' ?s" "string_update ?s ''abc''"
    by (simp_all add: nat_source_def string_update_def single_attr_def)
  show ?thesis
    using nat_hash_update [OF conjunct1 [OF q] conjunct2 [OF q] t, of example_notify "i_rcvd_src_hash path_inst"]
    by (auto simp: example_notify_def set_notification_data_def)
qed

section \<open>The responder's SPI\<close>

text \<open>
  C39: The loop of the responder's SPI. A query that updates the SPI of the responder with a decimal number
  ends normally exactly when the first entry of the row of the table of initial messages has the hash of
  the instance, whose entry then gets the new SPI; an empty row leads to a NULL dereference and any other
  first entry to a loop that never ends.
\<close>

theorem responder_spi_update:
  assumes "query_ok h t" and "i_query inst = Some (qt_addr t)"
    and "single_attr t m ''responder_spi'' s" and "m \<in> set hdr_messages"
    and "q_op (qt_data s) = OP_TYPE_UPDATE" and "q_vtype (qt_data s) = VAL_TYPE_UINT64"
    and "q_value (qt_data s) = CBuf v" and "\<forall>c\<in>set v. is_digit c"
    and row: "row = and (ch (i_init_hash inst)) (unat (i_table_mask inst))"
    and spi: "spi = scast (word_of_nat (number_of_digits 10 (map digit_val v)) :: 32 word)"
  shows "case hs_table st row of
      [] \<Rightarrow> process_ike_header ch h inst st = Inl NullDeref
    | (hash, old) # items \<Rightarrow>
        if hash = i_init_hash inst
        then \<exists>st' h'. process_ike_header ch h inst st = Inr (COMPLETED, st', h') \<and>
               h_responder_spi (hs_header st') = spi \<and> id_responder_spi (hs_said st') = spi \<and>
               hs_table st' = (hs_table st)(row := (hash, spi) # items)
        else process_ike_header ch h inst st = Inl Diverges"
proof -
  have inst: "installed h inst t" using assms(1,2) by (simp add: installed_def)
  have m: "m \<noteq> []" "named m t" using assms(3,4) hdr_messages_distinct(2) by (auto simp: single_attr_def)
  have at: "tree_at t m [''responder_spi''] = Some s" using single_attr_at [OF assms(3)] by simp
  obtain n where n: "qh_mem h (qt_addr s) = Some n" "data_of n = qt_data s"
    using tree_at_node [OF assms(1) at] by blast
  then have q: "q_value n = CBuf v" using assms(7) by (simp add: truncate_fields flip: n(2))
  have v: "value_int (q_value (qt_data s)) (q_vlen (qt_data s)) 10
      = Inr (word_of_nat (number_of_digits 10 (map digit_val v)))"
    using value_int_digits [OF assms(8)] assms(7) single_attr_length [OF inst assms(3,7)] by simp
  note blocks = responder_spi_blocks [OF inst assms(3) m(1) assms(5,6) v, folded spi]
  show ?thesis
    using n(1) q
    by (auto simp: process_ike_header_def hdr_message_only [OF inst m(2) assms(4)] blocks set_our_spi_def
        row [symmetric] free_value_def split: list.splits)
qed

definition spi_path :: "qdata list" where
  "spi_path = [attr_data ''responder_spi'' OP_TYPE_UPDATE VAL_TYPE_UINT64 ''5'']"

theorem responder_spi_update_witness:
  "process_ike_header (\<lambda>_. 0) (path_heap (block_data IKE_SA_INIT_RESPONSE # spi_path)) path_inst
     (example_header\<lparr>hs_table := (\<lambda>_. [(''other'', 2)])\<rparr>) = Inl Diverges"
proof -
  let ?t = "path_tree 0 (block_data IKE_SA_INIT_RESPONSE) spi_path"
    and ?s = "path_tree 1 (attr_data ''responder_spi'' OP_TYPE_UPDATE VAL_TYPE_UINT64 ''5'') []"
  have q: "query_ok (path_heap (block_data IKE_SA_INIT_RESPONSE # spi_path)) ?t \<and> i_query path_inst = Some (qt_addr ?t)"
    by (rule path_installed) (simp add: spi_path_def)
  have t: "single_attr ?t IKE_SA_INIT_RESPONSE ''responder_spi'' ?s" "IKE_SA_INIT_RESPONSE \<in> set hdr_messages"
    "q_op (qt_data ?s) = OP_TYPE_UPDATE" "q_vtype (qt_data ?s) = VAL_TYPE_UINT64" "q_value (qt_data ?s) = CBuf ''5''"
    "\<forall>c\<in>set ''5''. is_digit c"
    by (simp_all add: spi_path_def single_attr_def hdr_messages_def example_attr)
  show ?thesis
    using responder_spi_update [OF conjunct1 [OF q] conjunct2 [OF q] t refl refl,
        of "\<lambda>_. 0" "example_header\<lparr>hs_table := (\<lambda>_. [(''other'', 2)])\<rparr>"]
    by (simp add: path_inst_def init_instance_def)
qed

section \<open>EAP payloads\<close>

text \<open>
  What an update of an EAP-AKA attribute writes. If the attributes start at the seventh byte, where the
  code looks for them, a query with the value min, max or median fills the first attribute of the named type
  behind its two reserved bytes with the byte 0, 255 or 136, and changes no other byte.
\<close>

theorem eap_update_fills_attribute:
  assumes "query_ok h t" and "i_query inst = Some (qt_addr t)" and "named m t" and "m \<in> set eap_messages"
    and "path_query t [''extensible_authentication'', ''eap_aka_attribute'', name] s"
    and "(name, at) \<in> set aka_names" and "string_update s v" and "fill_byte v = Some c"
    and "length pre = EHDR_SIZE" and "\<forall>a\<in>set as. aka_ok a \<and> fst a \<noteq> at" and "aka_ok (at, body)"
  shows "process_extensible_authentication h inst \<lparr>eap_data = pre @ aka_attrs as @ aka_attr at body @ post\<rparr> =
    Inr (COMPLETED,
      \<lparr>eap_data = pre @ aka_attrs as @ aka_attr at (take 2 body @ replicate (length body - 2) c) @ post\<rparr>)"
proof -
  have inst: "installed h inst t" using assms(1,2) by (simp add: installed_def)
  have m: "m \<noteq> []" using eap_messages_distinct(2) [OF assms(4)] .
  have name: "name \<noteq> []" using assms(6) by (auto simp: aka_names_def)
  have d: "q_vtype (qt_data s) = VAL_TYPE_STRING" "q_op (qt_data s) = OP_TYPE_UPDATE"
    "q_value (qt_data s) = CBuf v" "q_vlen (qt_data s) = int (length v)"
    using assms(7) by (simp_all add: string_update_def)
  show ?thesis
    using process_eap_message [OF inst assms(3,4)] eap_blocks_single [OF inst assms(3) m assms(5,6)]
      eap_attribute_block_hit [OF inst assms(3) m name assms(5) d assms(8-11)]
    by simp
qed

definition max_mac :: "qdata list" where
  "max_mac = [block_data ''extensible_authentication'', block_data ''eap_aka_attribute'',
     attr_data ''at_mac'' OP_TYPE_UPDATE VAL_TYPE_STRING ''max'']"

definition max_mac_node :: qtree where
  "max_mac_node = path_tree 3 (attr_data ''at_mac'' OP_TYPE_UPDATE VAL_TYPE_STRING ''max'') []"

lemma max_mac_query:
  "query_ok (path_heap (block_data IKE_AUTH_1_RESPONSE # max_mac)) (path_tree 0 (block_data IKE_AUTH_1_RESPONSE) max_mac)"
  "i_query path_inst = Some (qt_addr (path_tree 0 (block_data IKE_AUTH_1_RESPONSE) max_mac))"
  "named IKE_AUTH_1_RESPONSE (path_tree 0 (block_data IKE_AUTH_1_RESPONSE) max_mac)"
  "IKE_AUTH_1_RESPONSE \<in> set eap_messages"
  "path_query (path_tree 0 (block_data IKE_AUTH_1_RESPONSE) max_mac)
     [''extensible_authentication'', ''eap_aka_attribute'', ''at_mac''] max_mac_node"
  "(''at_mac'', AKA_TYPE_AT_MAC) \<in> set aka_names" "string_update max_mac_node ''max''"
  using path_installed [of max_mac IKE_AUTH_1_RESPONSE]
  by (simp_all add: max_mac_def eap_messages_def aka_names_def string_update_def numeral_3_eq_3 max_mac_node_def)

theorem eap_update_fills_attribute_witness:
  "process_extensible_authentication (path_heap (block_data IKE_AUTH_1_RESPONSE # max_mac)) path_inst
     \<lparr>eap_data = replicate 7 NUL @ aka_attr AKA_TYPE_AT_MAC (replicate 6 NUL)\<rparr> =
   Inr (COMPLETED,
     \<lparr>eap_data = replicate 7 NUL @ aka_attr AKA_TYPE_AT_MAC (replicate 2 NUL @ replicate 4 (CHR 0xFF))\<rparr>)"
proof -
  have "aka_ok (AKA_TYPE_AT_MAC, replicate 6 NUL)" by (auto simp: aka_ok_def intro: exI [of _ 1])
  from eap_update_fills_attribute [OF max_mac_query _ _ _ this, of "CHR 0xFF" "replicate 7 NUL" "[]" "[]"]
  show ?thesis by (simp add: fill_byte_def)
qed

text \<open>
  On a real challenge the search misses every attribute. An EAP-AKA challenge has a header of eight
  bytes, one more than the structure the code casts it to. On a challenge that starts with AT_RAND and whose
  random bytes start with a zero, no query for an attribute changes anything, whatever its operator and value.
\<close>

theorem eap_challenge_unchanged:
  assumes "query_ok h t" and "i_query inst = Some (qt_addr t)" and "named m t" and "m \<in> set eap_messages"
    and "path_query t [''extensible_authentication'', ''eap_aka_attribute'', name] s"
    and "(name, at) \<in> set aka_names"
    and "length rand = 16" and "hd rand = NUL" and "length rest \<le> 228"
  shows "process_extensible_authentication h inst \<lparr>eap_data = aka_challenge ident rand rest\<rparr> =
    Inr (COMPLETED, \<lparr>eap_data = aka_challenge ident rand rest\<rparr>)"
proof -
  have inst: "installed h inst t" using assms(1,2) by (simp add: installed_def)
  have m: "m \<noteq> []" using eap_messages_distinct(2) [OF assms(4)] .
  have name: "name \<noteq> []" "at \<noteq> 0" using assms(6) by (auto simp: aka_names_def)
  show ?thesis
    using process_eap_message [OF inst assms(3,4)] eap_blocks_single [OF inst assms(3) m assms(5,6)]
      eap_attribute_block_misaligned [OF inst m name(1) assms(7-9) name(2)]
    by simp
qed

theorem eap_challenge_unchanged_witness:
  "process_extensible_authentication (path_heap (block_data IKE_AUTH_1_RESPONSE # max_mac)) path_inst
     \<lparr>eap_data = aka_challenge 1 (replicate 16 NUL) (aka_attr AKA_TYPE_AT_MAC (replicate 18 NUL))\<rparr> =
   Inr (COMPLETED, \<lparr>eap_data = aka_challenge 1 (replicate 16 NUL) (aka_attr AKA_TYPE_AT_MAC (replicate 18 NUL))\<rparr>)"
  by (rule eap_challenge_unchanged [OF max_mac_query(1-6)]) simp_all

text \<open>
  Updating the code, the identifier or the type of an EAP payload calls a method that the payload never
  got: the processing ends with a NULL dereference for every number of decimal digits.
\<close>

theorem eap_header_update_faults:
  assumes "query_ok h t" and "i_query inst = Some (qt_addr t)" and "named m t" and "m \<in> set eap_messages"
    and "path_query t [''extensible_authentication'', name] s" and "name \<in> {''code'', ''id'', ''type''}"
    and "q_vtype (qt_data s) = VAL_TYPE_UINT8" and "q_op (qt_data s) = OP_TYPE_UPDATE"
    and "q_value (qt_data s) = CBuf v" and "q_vlen (qt_data s) = int (length v)" and "\<forall>c\<in>set v. is_digit c"
  shows "process_extensible_authentication h inst eap = Inl NullDeref"
  using eap_byte_block_crash [of h inst t m name s] value_int_digits [OF assms(11)] assms by (simp add: installed_def)

definition eap_code :: "qdata list" where
  "eap_code = [block_data ''extensible_authentication'', attr_data ''code'' OP_TYPE_UPDATE VAL_TYPE_UINT8 ''5'']"

theorem eap_header_update_faults_witness:
  "process_extensible_authentication (path_heap (block_data IKE_AUTH_1_RESPONSE # eap_code)) path_inst
     \<lparr>eap_data = aka_challenge 1 (replicate 16 NUL) []\<rparr> = Inl NullDeref"
proof -
  let ?t = "path_tree 0 (block_data IKE_AUTH_1_RESPONSE) eap_code"
    and ?s = "path_tree 2 (attr_data ''code'' OP_TYPE_UPDATE VAL_TYPE_UINT8 ''5'') []"
  have q: "query_ok (path_heap (block_data IKE_AUTH_1_RESPONSE # eap_code)) ?t \<and> i_query path_inst = Some (qt_addr ?t)"
    by (rule path_installed) (simp add: eap_code_def)
  have t: "named IKE_AUTH_1_RESPONSE ?t" "IKE_AUTH_1_RESPONSE \<in> set eap_messages"
    "path_query ?t [''extensible_authentication'', ''code''] ?s"
    by (simp_all add: eap_code_def eap_messages_def)
  show ?thesis
    by (rule eap_header_update_faults [OF conjunct1 [OF q] conjunct2 [OF q] t, of "''5''"]) (simp_all add: example_attr)
qed

section \<open>The binding of the instance\<close>

text \<open>The answers to a sequence of checks with SPIs and the flag for updates.\<close>

primrec check_all :: "instance_t option \<Rightarrow> (64 word \<times> 64 word \<times> bool) list \<Rightarrow> bool list \<times> instance_t option" where
  "check_all instance [] = ([], instance)"
| "check_all instance (c # cs) =
     (case check_instance instance (fst c) (fst (snd c)) (snd (snd c)) of
        (ret, instance') \<Rightarrow> case check_all instance' cs of (rets, final) \<Rightarrow> (ret # rets, final))"

lemma check_instance_bound:
  assumes "i_ispi inst \<noteq> 0 \<or> i_rspi inst \<noteq> 0"
  shows "\<exists>inst'. snd (check_instance (Some inst) ispi rspi upd) = Some inst' \<and>
    i_ispi inst' = i_ispi inst \<and> i_rspi inst' = i_rspi inst \<and>
    (fst (check_instance (Some inst) ispi rspi upd) \<longrightarrow> ispi = i_ispi inst \<and> rspi \<in> {i_rspi inst, 0})"
  using assms by (auto simp: check_instance_def)

text \<open>
  C35: One test follows one IKE_SA. Once an instance is bound to a pair of SPIs, no sequence of checks, with
  or without updates, changes the pair, and every check that succeeds is for the initiator's SPI of the pair
  with the responder's SPI of the pair or zero.
\<close>

theorem instance_follows_one_sa:
  assumes "i_ispi inst \<noteq> 0 \<or> i_rspi inst \<noteq> 0" and "check_all (Some inst) calls = (rets, final)"
  shows "\<exists>inst'. final = Some inst' \<and> i_ispi inst' = i_ispi inst \<and> i_rspi inst' = i_rspi inst \<and>
    length rets = length calls \<and>
    (\<forall>i<length calls. rets ! i \<longrightarrow> fst (calls ! i) = i_ispi inst \<and> fst (snd (calls ! i)) \<in> {i_rspi inst, 0})"
  using assms
proof (induction calls arbitrary: inst rets)
  case (Cons c cs)
  obtain inst1 where i: "snd (check_instance (Some inst) (fst c) (fst (snd c)) (snd (snd c))) = Some inst1"
    "i_ispi inst1 = i_ispi inst" "i_rspi inst1 = i_rspi inst"
    "fst (check_instance (Some inst) (fst c) (fst (snd c)) (snd (snd c))) \<longrightarrow>
       fst c = i_ispi inst \<and> fst (snd c) \<in> {i_rspi inst, 0}"
    using check_instance_bound [OF Cons.prems(1)] by blast
  obtain rets' where r: "check_all (Some inst1) cs = (rets', final)"
    "rets = fst (check_instance (Some inst) (fst c) (fst (snd c)) (snd (snd c))) # rets'"
    using Cons.prems(2) i(1) by (auto split: prod.splits)
  show ?case
    using Cons.IH [OF _ r(1)] Cons.prems(1) i(2-4) r(2) by (auto simp: nth_Cons split: nat.splits)
qed auto

theorem instance_follows_one_sa_witness:
  "\<exists>inst'. snd (check_all (Some ((init_instance 3)\<lparr>i_ispi := 7, i_rspi := 9\<rparr>)) [(8, 9, True), (7, 0, False)]) = Some inst' \<and>
     i_ispi inst' = 7 \<and> i_rspi inst' = 9 \<and>
     fst (check_all (Some ((init_instance 3)\<lparr>i_ispi := 7, i_rspi := 9\<rparr>)) [(8, 9, True), (7, 0, False)]) = [False, True]"
proof -
  let ?i = "(init_instance 3)\<lparr>i_ispi := 7, i_rspi := 9\<rparr>"
  have c: "check_all (Some ?i) [(8, 9, True), (7, 0, False)] = ([False, True], Some (?i\<lparr>i_pispi := 7\<rparr>))"
    by (simp add: check_instance_def init_instance_def)
  from instance_follows_one_sa [OF _ c] show ?thesis unfolding c by simp
qed

end
