(* ===== verification/Report_Properties.thy ===== *)
theory Report_Properties
  imports Report_Proofs Payload_Properties
begin

text \<open>
  The properties of the generation of messages and of the reports of the ePDG, and of their
  composition in the building of a response.
\<close>

section \<open>Generation\<close>


definition bound_inst :: instance_t where
  "bound_inst = path_inst\<lparr>i_ispi := 1, i_rspi := 2, i_initiated := True\<rparr>"


section \<open>Responses\<close>

text \<open>
  C8: A query has no effect on the generation of the response it was installed for. When the daemon is
  bound to the IKE_SA after its tasks, a generated response consists of exactly the header and the
  payloads that the tasks built, whatever the query asks to update or to drop, and no query is installed
  any more: the end of the response releases the query before the message is generated.
\<close>

theorem response_ignores_query:
  assumes "build_response uninit tasks ch h inst ispi rspi exchange env = Inr (Generated out h' inst')"
    and "start_response uninit h inst ispi rspi exchange env = Inr (Building h1 inst1)"
    and "tasks h1 inst1 = Inr (h2, inst2, header, ps, next_type, delete)"
    and "fst (bound inst2 ispi rspi)" and "\<forall>q\<in>set (header # ps). plain_payload q = q"
  shows "out = chained header ps next_type \<and> i_query inst' = None"
proof -
  from assms(1-3) obtain h3 inst3 rspi' where f: "finish_response h2 inst2 ispi rspi = Inr (h3, inst3)"
    and g: "generate_message ch h3 inst3 ispi rspi' header ps next_type = Inr (out, h', inst')"
    by (auto simp: build_response_def bindE_Inr_iff)
  have "i_query inst3 = None" by (rule finish_response_releases [OF f assms(4)])
  from generate_message_plain [OF this assms(5), of ch h3 ispi rspi' next_type] g show ?thesis by auto
qed

definition example_tasks ::
  "qheap \<Rightarrow> instance_t \<Rightarrow> (qheap \<times> instance_t \<times> payload_t \<times> payload_t list \<times> int \<times> bool) cres" where
  "example_tasks h inst = Inr (h, inst, P_Header example_header, [P_Other 33, P_Nonce example_nonce], 0, False)"

theorem response_ignores_query_witness:
  "\<exists>h' inst'. build_response (Inr ()) example_tasks (\<lambda>_. 0) (path_heap (example_root # drop_nonce)) bound_inst 1 2
     IKE_SA_INIT [] =
       Inr (Generated [(P_Header example_header, 33), (P_Other 33, 40), (P_Nonce example_nonce, 0)] h' inst')"
proof -
  let ?h = "path_heap (example_root # drop_nonce)"
  let ?b = "build_response (Inr ()) example_tasks (\<lambda>_. 0) ?h bound_inst 1 2 IKE_SA_INIT []"
  let ?s = "start_response (Inr ()) ?h bound_inst 1 2 IKE_SA_INIT []"
  have "case ?b of Inr (Generated out h' inst') \<Rightarrow> True | _ \<Rightarrow> False" by code_simp
  then obtain out h' inst' where b: "?b = Inr (Generated out h' inst')"
    by (auto split: sum.splits response_result.splits)
  have "case ?s of Inr (Building h1 inst1) \<Rightarrow> fst (bound inst1 1 2) | _ \<Rightarrow> False" by code_simp
  then obtain h1 inst1 where s: "?s = Inr (Building h1 inst1)" "fst (bound inst1 1 2)"
    by (auto split: sum.splits start_result.splits)
  have "\<forall>q\<in>set [P_Header example_header, P_Other 33, P_Nonce example_nonce]. plain_payload q = q"
    by (simp add: plain_payload_def example_header_def)
  with response_ignores_query [OF b s(1) example_tasks_def s(2)] b show ?thesis by simp
qed

lemma reply_symbol_length:
  assumes "reply_symbol h query sprev exchange = Inr (symbol, p)" shows "length symbol \<le> MAX_MESSAGE_LEN"
proof -
  have l: "\<forall>s\<in>set response_steps. length (fst s) \<le> MAX_MESSAGE_LEN" by code_simp
  show ?thesis
    using assms l auth_response_cases [of h query sprev response_steps symbol p]
    by (auto simp: reply_symbol_def bindE_Inr_iff split: exchange_type_t.splits if_splits)
qed

text \<open>
  The answer to a query. The first of the eighteen error names that the query has as a sub-query
  decides: the response is announced and closed, and the error notification of that name goes out in its
  place, with the query still installed. Without such a sub-query every response goes through the print
  of a pointer that was never assigned.
\<close>

theorem error_notification:
  assumes "query_ok h t" and "i_query inst = Some (qt_addr t)"
    and "queue_wf inst" and "length (queue_contents inst) + 2 \<le> MAX_QUEUE_LEN"
    and "reply_symbol h (i_query inst) (i_sprev inst) exchange = Inr (symbol, p)"
  shows "case find (\<lambda>e. \<exists>s\<in>set (qt_subs t). named (fst e) s) error_notifies of
           None \<Rightarrow> announce_response (Inl UninitRead) h inst exchange = Inl UninitRead
         | Some e \<Rightarrow> \<exists>inst'. announce_response uninit h inst exchange = Inr (Notified (snd e) h inst') \<and>
             queue_contents inst' = queue_contents inst @
               [report_msg inst MSG_TYPE_BLOCK_START (Some symbol), report_msg inst MSG_TYPE_BLOCK_END None] \<and>
             i_query inst' = i_query inst \<and> i_sprev inst' = Some p"
proof -
  have e: "\<forall>e\<in>set error_notifies. fst e \<noteq> []" by code_simp
  have f: "find_error h (i_query inst) error_notifies =
      Inr (map_option snd (find (\<lambda>e. \<exists>s\<in>set (qt_subs t). named (fst e) s) error_notifies))"
    by (rule find_error_rep [OF _ e]) (use assms(1,2) in \<open>simp add: installed_def\<close>)
  let ?i = "inst\<lparr>i_sprev := Some p\<rparr>"
  obtain i1 where i1: "report ?i MSG_TYPE_BLOCK_START (Some symbol) = Inr i1" "queue_wf i1"
    "queue_contents i1 = queue_contents inst @ [report_msg ?i MSG_TYPE_BLOCK_START (Some symbol)]"
    using report_queues [of ?i "Some symbol" MSG_TYPE_BLOCK_START] assms(3,4) reply_symbol_length [OF assms(5)]
    by auto
  obtain i2 where i2: "report i1 MSG_TYPE_BLOCK_END None = Inr i2"
    "queue_contents i2 = queue_contents i1 @ [report_msg i1 MSG_TYPE_BLOCK_END None]"
    using report_queues [OF i1(2), of None MSG_TYPE_BLOCK_END] i1(3) assms(4) by auto
  have m: "report_msg ?i MSG_TYPE_BLOCK_START (Some symbol) = report_msg inst MSG_TYPE_BLOCK_START (Some symbol)"
    "report_msg i1 MSG_TYPE_BLOCK_END None = report_msg inst MSG_TYPE_BLOCK_END None"
    using report_keeps(5,6) [OF i1(1)] by (simp_all add: report_msg_def)
  have k: "i_query i2 = i_query inst" "i_sprev i2 = Some p"
    using report_keeps(1,2) [OF i1(1)] report_keeps(1,2) [OF i2(1)] by simp_all
  show ?thesis
  proof (cases "find (\<lambda>e. \<exists>s\<in>set (qt_subs t). named (fst e) s) error_notifies")
    case None
    then show ?thesis using f by (simp add: announce_response_def)
  next
    case (Some e)
    then have "announce_response uninit h inst exchange = Inr (Notified (snd e) h i2)"
      using f assms(5) i1(1) i2(1) by (simp add: announce_response_def)
    then show ?thesis using Some i1(3) i2(2) m k by simp
  qed
qed

definition error_path :: "qdata list" where
  "error_path = [attr_data ''invalid_syntax'' 0 0 []]"

theorem error_notification_witness:
  "\<exists>inst'. announce_response (Inl UninitRead) (path_heap (example_root # error_path)) bound_inst IKE_SA_INIT =
     Inr (Notified 7 (path_heap (example_root # error_path)) inst') \<and> length (queue_contents inst') = 2"
proof -
  have q: "query_ok (path_heap (example_root # error_path)) (path_tree 0 example_root error_path)"
    by (rule query_ok_path) (simp add: error_path_def example_root_def)
  have w: "queue_wf bound_inst" "queue_contents bound_inst = []" "i_query bound_inst = Some 0"
    by (simp_all add: queue_wf_def queue_contents_def bound_inst_def path_inst_def init_instance_def)
  have r: "reply_symbol (path_heap (example_root # error_path)) (i_query bound_inst) (i_sprev bound_inst) IKE_SA_INIT =
      Inr (''ike_sa_init_response'', ''ike_sa_init_response'')"
    by code_simp
  have n: "find (\<lambda>e. \<exists>s\<in>set (qt_subs (path_tree 0 example_root error_path)). named (fst e) s) error_notifies =
      Some (''invalid_syntax'', 7)"
    by code_simp
  show ?thesis
    using error_notification [OF q _ w(1) _ r, of "Inl UninitRead"] w n by (auto simp: error_path_def)
qed

definition protocol_order :: "string list" where
  "protocol_order =
     [''ike_sa_init_response'', ''ike_auth_1_response'', ''ike_auth_2_response'', ''ike_auth_3_response'',
      ''ike_auth_4_response'', ''ike_auth_5_response'']"

lemma protocol_steps: "k < 5 \<Longrightarrow> (protocol_order ! Suc k, protocol_order ! k) \<in> set response_steps"
proof -
  have "\<forall>k<5. (protocol_order ! Suc k, protocol_order ! k) \<in> set response_steps" by code_simp
  then show "k < 5 \<Longrightarrow> (protocol_order ! Suc k, protocol_order ! k) \<in> set response_steps" by blast
qed

text \<open>
  C9: The order of the responses. In every reachable state of the daemon a numbered IKE_AUTH response
  was announced only directly after the response before it: number one after the response of IKE_SA_INIT,
  number two after number one, and so on, whatever queries the controller installed.
\<close>

theorem responses_in_order:
  assumes "epdg_reachable (h, inst, log)" and "k < 5" and "i < length log" and "log ! i = protocol_order ! Suc k"
  shows "0 < i \<and> log ! (i - 1) = protocol_order ! k"
  using epdg_reachable_ok [OF assms(1)] protocol_steps [OF assms(2)] assms(3,4) by (auto simp: log_ok_def in_order_def)

text \<open>Announcing the response of a query without error names.\<close>

lemma announce_building:
  assumes "installed h inst t" and "\<forall>e\<in>set error_notifies. \<forall>s\<in>set (qt_subs t). \<not> named (fst e) s"
    and "queue_wf inst" and "length (queue_contents inst) < MAX_QUEUE_LEN"
    and "reply_symbol h (i_query inst) (i_sprev inst) exchange = Inr (symbol, p)"
  shows "\<exists>inst'. announce_response (Inr ()) h inst exchange = Inr (Building h inst') \<and> queue_wf inst' \<and>
    length (queue_contents inst') = length (queue_contents inst) + 1 \<and> i_sprev inst' = Some p"
proof -
  have e: "\<forall>e\<in>set error_notifies. fst e \<noteq> []" by code_simp
  have "find (\<lambda>e. \<exists>s\<in>set (qt_subs t). named (fst e) s) error_notifies = None"
    using assms(2) by (fastforce simp: find_None_iff)
  then have f: "find_error h (i_query inst) error_notifies = Inr None"
    using find_error_rep [OF assms(1) e] by simp
  obtain i1 where "report (inst\<lparr>i_sprev := Some p\<rparr>) MSG_TYPE_BLOCK_START (Some symbol) = Inr i1" "queue_wf i1"
    "length (queue_contents i1) = length (queue_contents inst) + 1"
    using report_queues [of "inst\<lparr>i_sprev := Some p\<rparr>" "Some symbol" MSG_TYPE_BLOCK_START] assms(3,4)
      reply_symbol_length [OF assms(5)] by auto
  then show ?thesis using f assms(5) report_keeps(2) by (auto simp: announce_response_def)
qed

definition query_of :: "string \<Rightarrow> qheap" where
  "query_of m = path_heap [block_data m]"

lemma query_of_installed: "installed (query_of m) (set_query inst (Some 0)) (path_tree 0 (block_data m) [])"
  using query_ok_path [of "block_data m" "[]"] by (simp add: installed_def query_of_def set_query_def)

lemma reachable_announce:
  assumes "epdg_reachable (h, inst, log)" and "queue_wf inst" and "length (queue_contents inst) < MAX_QUEUE_LEN"
    and "reply_symbol (query_of m) (Some 0) (i_sprev inst) exchange = Inr (symbol, p)"
  shows "\<exists>inst'. epdg_reachable (query_of m, inst', log @ [symbol]) \<and> queue_wf inst' \<and>
    length (queue_contents inst') = length (queue_contents inst) + 1 \<and> i_sprev inst' = Some p"
proof -
  let ?i = "set_query inst (Some 0)"
  have w: "queue_wf ?i" "queue_contents ?i = queue_contents inst" "i_sprev ?i = i_sprev inst" "i_query ?i = Some 0"
    using assms(2) by (simp_all add: queue_wf_def queue_contents_def set_query_def)
  from announce_building [OF query_of_installed [of m inst] _ w(1), of exchange symbol p] assms(3,4) w obtain inst' where
    i: "announce_response (Inr ()) (query_of m) ?i exchange = Inr (Building (query_of m) inst')" "queue_wf inst'"
    "length (queue_contents inst') = length (queue_contents inst) + 1" "i_sprev inst' = Some p" by auto
  have "epdg_step (query_of m, ?i, log) (query_of m, inst', log @ [symbol])"
    by (rule epdg_step.announce [OF _ _ i(1)]) (use assms(4) w in auto)
  then show ?thesis
    using i epdg_reachable.step [OF epdg_reachable.step [OF assms(1) epdg_step.install]] by blast
qed

theorem responses_in_order_witness:
  "\<exists>h inst. epdg_reachable (h, inst, [''ike_sa_init_response'', ''ike_auth_1_response'']) \<and>
     [''ike_sa_init_response'', ''ike_auth_1_response''] ! (1 - 1) = ''ike_sa_init_response''"
proof -
  have w: "queue_wf (init_instance 3)" "length (queue_contents (init_instance 3)) < MAX_QUEUE_LEN"
    by (simp_all add: queue_wf_init queue_contents_init)
  have "reply_symbol (query_of ''ike_sa_init_response'') (Some 0) (i_sprev (init_instance 3)) IKE_SA_INIT =
      Inr (''ike_sa_init_response'', ''ike_sa_init_response'')" by code_simp
  from reachable_announce [OF epdg_reachable.init w this] obtain i1 where
    i1: "epdg_reachable (query_of ''ike_sa_init_response'', i1, [''ike_sa_init_response''])" "queue_wf i1"
    "length (queue_contents i1) = 1" "i_sprev i1 = Some ''ike_sa_init_response''"
    by (auto simp: queue_contents_init)
  have "reply_symbol (query_of ''ike_auth_1_response'') (Some 0) (Some ''ike_sa_init_response'') IKE_AUTH =
      Inr (''ike_auth_1_response'', ''ike_auth_1_response'')" by code_simp
  with reachable_announce [OF i1(1,2), of "''ike_auth_1_response''" IKE_AUTH] i1(3,4) obtain i2 where
    i2: "epdg_reachable (query_of ''ike_auth_1_response'', i2, [''ike_sa_init_response'', ''ike_auth_1_response''])"
    by auto
  from responses_in_order [OF i2, of 0 1] i2 show ?thesis by (auto simp: protocol_order_def)
qed

section \<open>Requests\<close>

definition request_names :: "string list" where
  "request_names =
     [''ike_sa_init_request'', ''ike_auth_1_request'', ''ike_auth_2_request'', ''ike_auth_3_request'',
      ''ike_auth_4_request'', ''ike_auth_5_request'']"

lemma auth_request_next:
  "k < 5 \<Longrightarrow> auth_request (Some (request_names ! k)) = Inr (request_names ! Suc k, request_names ! Suc k) \<and>
   length (request_names ! Suc k) \<le> MAX_MESSAGE_LEN"
proof -
  have "\<forall>k<5. auth_request (Some (request_names ! k)) = Inr (request_names ! Suc k, request_names ! Suc k) \<and>
      length (request_names ! Suc k) \<le> MAX_MESSAGE_LEN"
    by code_simp
  then show "k < 5 \<Longrightarrow> ?thesis" by simp
qed



section \<open>Failures\<close>

lemma bound_match: "i_ispi inst = c \<Longrightarrow> i_rspi inst = d \<Longrightarrow> c \<noteq> 0 \<or> d \<noteq> 0 \<Longrightarrow> fst (bound inst c d)"
  by (auto simp: bound_def check_instance_def)



end
