(* ===== verification/Controller_Properties.thy ===== *)
theory Controller_Properties
  imports Controller_Main Report_Properties
begin

text \<open>
  The properties of the main controller: what it reads from JSON, what it sends when a test is repeated,
  what it makes of the reports of the ePDG, how a test starts, and what the oracles say.
\<close>

section \<open>Testcases\<close>

text \<open>
  C31: The types of testcases. Whatever JSON object a testcase is read from, the result is well-typed: the
  outermost testcase is a message, below it a testcase is a payload exactly if it has sub-testcases and an
  attribute otherwise, no list of sub-testcases is empty, and a value comes with its type. There is
  at least one message, and the test has the identifier of the first.
\<close>

theorem testcases_well_typed:
  assumes "parse_testcases show_json obj = Inr (messages, tid)"
  shows "messages \<noteq> [] \<and> (\<forall>m\<in>set messages. well_typed True m) \<and> tid = jt_id (hd messages)"
proof -
  obtain vs where vs: "cast_array (json_get obj ''testcase'') = Inr (Some vs)"
    using assms unfolding parse_testcases_def bindX_Inr_iff by (auto split: option.split_asm)
  then obtain ms where ms: "mapX (parse_testcase show_json True) vs = Inr ms"
    "(case ms of [] \<Rightarrow> Inl IndexOutOfBounds | m # _ \<Rightarrow> Inr (ms, jt_id m)) = Inr (messages, tid)"
    using assms unfolding parse_testcases_def by (auto simp: bindX_Inr_iff)
  obtain m ms' where "ms = m # ms'" using ms(2) by (cases ms) simp_all
  then have m: "ms = messages" "messages \<noteq> []" "tid = jt_id (hd messages)" using ms(2) by auto
  have "\<forall>t\<in>set ms. well_typed True t"
    using parse_well_typed by (intro mapX_ball [OF ms(1)]) blast
  then show ?thesis using m by simp
qed

definition example_json :: json where
  "example_json = JObj
     [(''name'', JStr ''ike_sa_init_response''), (''receiver'', JStr ''epdg''), (''reporter'', JStr ''epdg''),
      (''id'', JStr ''1''),
      (''sub'', JArr [JObj [(''name'', JStr ''nonce''), (''op'', JStr ''drop'')],
                      JObj [(''name'', JStr ''message_id''), (''op'', JStr ''update''), (''type'', JStr ''uint32''),
                            (''value'', JNum ''5'')]])]"

definition example_messages :: "jtestcase list" where
  "example_messages =
     [JTestcase TC_MESSAGE (Some ''ike_sa_init_response'') (Some ''epdg'') (Some ''epdg'') (Some ''1'') None None None
        (Some [JTestcase TC_ATTRIBUTE (Some ''nonce'') None None None (Some ''drop'') None None None,
               JTestcase TC_ATTRIBUTE (Some ''message_id'') None None None (Some ''update'') (Some VT_UINT32)
                 (Some ''5'') None])]"

theorem testcases_well_typed_witness:
  "parse_testcases (\<lambda>_. []) [(''testcase'', JArr [example_json])] = Inr (example_messages, Some ''1'') \<and>
     list_all (well_typed True) example_messages"
proof -
  have p: "parse_testcases (\<lambda>_. []) [(''testcase'', JArr [example_json])] = Inr (example_messages, Some ''1'')"
    by code_simp
  from testcases_well_typed [OF this] p show ?thesis by (simp add: list_all_iff)
qed

text \<open>
  A repeated test is sent without its modifications. Once a message was sent, sending it again gives
  only the line that names it and the line that ends it, because the iterators over its sub-testcases
  are at their end and the reset of the test does not set them back; after a reset of the testcase
  itself, as before a retransmission, all of it is sent again.
\<close>

theorem repeated_message_is_bare:
  "fst (send_iter ispi' rspi' True (snd (send_iter ispi rspi True (fresh_iter tc)))) =
     sendMessage ispi' rspi' True (Testcase (tc_name tc) (tc_op tc) (tc_value tc) None) \<and>
   fst (send_iter ispi' rspi' True (reset_iter (snd (send_iter ispi rspi True (fresh_iter tc))))) =
     sendMessage ispi' rspi' True tc"
  using send_iter_spent [OF send_iter_spends, of ispi' rspi' ispi rspi True "fresh_iter tc"]
  by (simp add: send_iter_keeps fresh_iter_fields reset_send_iter reset_fresh send_iter_fresh)

section \<open>Reports\<close>

lemma result_loop_short:
  "\<forall>a\<in>set acks. length a \<le> 16 \<Longrightarrow> result_loop (map Line acks @ es) z d = result_loop es z d"
  by (induction acks) auto

lemma result_loop_line:
  "16 < length l \<Longrightarrow> result_line l z d = (Inr (z', d'), text) \<Longrightarrow> result_loop (Line l # es) z d =
    (if d' \<noteq> 0 then result_loop es (Some z') d' else (Inr (fst z'), es, replicate (2 * d) (CHR '' '') @ text))"
  by simp

lemma sender_line_start:
  assumes "length symbol \<le> 1400"
  shows "sender_line (report_msg inst MSG_TYPE_BLOCK_START (Some symbol)) =
    Inr ((char_of (2 :: nat) # hex16 (i_ispi inst) @ hex16 (i_rspi inst) @ symbol) @ [NL])"
  using assms by (cases symbol) (simp_all add: sender_line_def report_msg_def)

lemma sender_line_end:
  assumes "length symbol \<le> 1400"
  shows "sender_line (report_msg inst MSG_TYPE_BLOCK_END None) =
    Inr ((char_of (3 :: nat) # hex16 (i_ispi inst) @ hex16 (i_rspi inst)) @ [NL])"
    "sender_line (report_msg inst MSG_TYPE_BLOCK_END (Some symbol)) =
    Inr ((char_of (3 :: nat) # hex16 (i_ispi inst) @ hex16 (i_rspi inst) @ symbol) @ [NL])"
  using assms by (cases symbol; simp add: sender_line_def report_msg_def)+

text \<open>
  C16: A report reaches the controller. The two lines that the sender of the ePDG writes for a reported
  message are read back as one message with the same name and with both SPIs of the instance in
  hexadecimal, also when short lines such as acknowledgements come in between, and nothing behind them
  is consumed.
\<close>

theorem report_received:
  assumes "symbol \<noteq> []" and "CHR '':'' \<notin> set symbol" and "length symbol \<le> 1400"
    and "\<forall>a\<in>set (acks @ acks'). length a \<le> 16"
  shows "\<exists>l1 l2 text. sender_line (report_msg inst MSG_TYPE_BLOCK_START (Some symbol)) = Inr (l1 @ [NL]) \<and>
    sender_line (report_msg inst MSG_TYPE_BLOCK_END None) = Inr (l2 @ [NL]) \<and>
    result_loop (map Line acks @ Line l1 # map Line acks' @ Line l2 # es) None 0 =
      (Inr (MLog ML_MESSAGE (Some (hex16 (i_ispi inst))) (Some (hex16 (i_rspi inst))) (Some symbol) VT_NONE None []),
       es, text)"
proof -
  let ?i = "hex16 (i_ispi inst)" and ?r = "hex16 (i_rspi inst)"
  let ?l1 = "char_of (2 :: nat) # ?i @ ?r @ symbol" and ?l2 = "char_of (3 :: nat) # ?i @ ?r"
  let ?m = "MLog ML_MESSAGE (Some ?i) (Some ?r) (Some symbol) VT_NONE None []"
  have "result_loop (map Line acks @ Line ?l1 # map Line acks' @ Line ?l2 # es) None 0 =
      result_loop (Line ?l1 # map Line acks' @ Line ?l2 # es) None 0"
    by (rule result_loop_short) (use assms(4) in simp)
  also have "\<dots> = result_loop (map Line acks' @ Line ?l2 # es) (Some (?m, [])) 1"
    by (subst result_loop_line [OF _ result_line_start]) (use assms in simp_all)
  also have "\<dots> = result_loop (Line ?l2 # es) (Some (?m, [])) 1"
    by (rule result_loop_short) (use assms(4) in simp)
  also have "\<dots> = (Inr ?m, es, replicate (2 * 1) (CHR '' '') @ [])"
    by (subst result_loop_line [OF _ result_line_end]) simp_all
  finally have "result_loop (map Line acks @ Line ?l1 # map Line acks' @ Line ?l2 # es) None 0 =
      (Inr ?m, es, replicate (2 * 1) (CHR '' '') @ [])" .
  then show ?thesis using sender_line_start [OF assms(3), of inst] sender_line_end(1) [OF assms(3), of inst] by blast
qed

theorem report_received_witness:
  "\<exists>l1 l2. sender_line (report_msg bound_inst MSG_TYPE_BLOCK_START (Some ''ike_auth_1_request'')) = Inr (l1 @ [NL]) \<and>
     sender_line (report_msg bound_inst MSG_TYPE_BLOCK_END None) = Inr (l2 @ [NL]) \<and>
     (case result_loop [Line ''ACK'', Line l1, Line l2] None 0 of
        (Inr m, es, _) \<Rightarrow> ml_name m = Some ''ike_auth_1_request'' \<and> es = [] | _ \<Rightarrow> False)"
proof -
  have "\<forall>a\<in>set ([''ACK''] @ []). length a \<le> 16" by simp
  from report_received [of "''ike_auth_1_request''" "[''ACK'']" "[]" bound_inst "[]", OF _ _ _ this]
  obtain l1 l2 shown where l: "sender_line (report_msg bound_inst MSG_TYPE_BLOCK_START (Some ''ike_auth_1_request'')) = Inr (l1 @ [NL])"
    "sender_line (report_msg bound_inst MSG_TYPE_BLOCK_END None) = Inr (l2 @ [NL])"
    and r: "result_loop (map Line [''ACK''] @ Line l1 # map Line [] @ Line l2 # []) None 0 =
      (Inr (MLog ML_MESSAGE (Some (hex16 (i_ispi bound_inst))) (Some (hex16 (i_rspi bound_inst)))
         (Some ''ike_auth_1_request'') VT_NONE None []), [], shown)"
    by auto
  have c: "case result_loop [Line ''ACK'', Line l1, Line l2] None 0 of
      (Inr m, es, _) \<Rightarrow> ml_name m = Some ''ike_auth_1_request'' \<and> es = [] | _ \<Rightarrow> False"
    using r by (simp del: result_loop.simps)
  show ?thesis by (intro exI [of _ l1] exI [of _ l2] conjI l c)
qed

lemma read_result_remark:
  assumes "symbol \<noteq> []" and "CHR '':'' \<notin> set symbol" and "b \<noteq> []" and "CHR '':'' \<notin> set (a @ b)"
  shows "\<exists>m. result_loop
      (Line (char_of (2 :: nat) # hex16 i @ hex16 r @ symbol) #
       Line (char_of (3 :: nat) # hex16 i' @ hex16 r' @ a @ CHR '':'' # b) # es) None 0 =
    (Inr m, es, replicate 2 (CHR '' '') @ a @ CHR '':'' # b)"
proof -
  let ?m = "\<lambda>n. MLog ML_MESSAGE (Some (hex16 i)) (Some (hex16 r)) (Some n) VT_NONE None []"
  let ?l2 = "char_of (3 :: nat) # hex16 i' @ hex16 r' @ a @ CHR '':'' # b"
  have "result_loop (Line (char_of (2 :: nat) # hex16 i @ hex16 r @ symbol) # Line ?l2 # es) None 0 =
      result_loop (Line ?l2 # es) (Some (?m symbol, [])) 1"
    by (subst result_loop_line [OF _ result_line_start]) (use assms in simp_all)
  also have "\<dots> = (Inr (?m a), es, replicate (2 * 1) (CHR '' '') @ a @ CHR '':'' # b)"
    by (subst result_loop_line [OF _ result_line_end_text]) (use assms in simp_all)
  finally show ?thesis by auto
qed

text \<open>The state after a report of the ePDG was read.\<close>

definition rest_of :: "ctrl_t \<Rightarrow> read_event list \<Rightarrow> ctrl_t" where
  "rest_of s es = s\<lparr>c_in := (c_in s)(EPDG := es), c_timed := (c_timed s)(EPDG := True)\<rparr>"

lemma rest_of_fields [simp]:
  "c_in (rest_of s es) = (c_in s)(EPDG := es)" "c_out (rest_of s es) = c_out s"
  by (simp_all add: rest_of_def)

lemma read_result_EPDG:
  "result_loop (c_in s EPDG) None 0 = (Inr l, es, shown) \<Longrightarrow> read_result EPDG s = (Inr (l, shown), rest_of s es)"
  by (simp add: read_result_def Let_def rest_of_def bindJ_def setSoTimeout_def returnJ_def)

lemma read_remark:
  assumes "c_in s EPDG = Line (char_of (2 :: nat) # hex16 i @ hex16 r @ symbol) #
      Line (char_of (3 :: nat) # hex16 i' @ hex16 r' @ a @ CHR '':'' # b) # es"
    and "symbol \<noteq> []" and "CHR '':'' \<notin> set symbol" and "b \<noteq> []" and "CHR '':'' \<notin> set (a @ b)"
  shows "\<exists>l. processResult m (Some ''epdg'') s =
    remark m l (''  '' @ a @ CHR '':'' # b) (rest_of s es)"
proof -
  obtain l where "result_loop (c_in s EPDG) None 0 = (Inr l, es, replicate 2 (CHR '' '') @ a @ CHR '':'' # b)"
    using read_result_remark [OF assms(2-5), of i r i' r' es] assms(1) by auto
  then have "read_result EPDG s = (Inr (l, ''  '' @ a @ CHR '':'' # b), rest_of s es)"
    by (simp add: read_result_EPDG numeral_2_eq_2)
  then show ?thesis by (auto simp: processResult_def reporter_peer_def bindJ_def)
qed

lemma reboot_answered:
  assumes "c_in s UE = Line x # Line y # us"
  shows "\<exists>b. rebootUE s = (Inr b, s\<lparr>c_in := (c_in s)(UE := us), c_timed := (c_timed s)(UE := True),
    c_out := (c_out s)(UE := c_out s UE @ [''wifi_off'' @ [NL], ''ue_reboot'' @ [NL]])\<rparr>)"
  using assms
  by (auto simp: rebootUE_def sendDisableWiFi_def wifi_def ask_def has_ack_def bindJ_def tryJ_def writeLine_def
      readLine_def returnJ_def setSoTimeout_def)

text \<open>
  A failed exchange is repeated. When the line that ends a response carries the remark of the ePDG on
  a failed authentication, the controller reboots the UE and asks for the whole test again; on a
  rejected proposal or key exchange it asks for the message again, with the iterators of the testcase set
  back. The lines of the response are consumed, and nothing else of it is kept.
\<close>

theorem failed_exchange_repeats:
  assumes "sender_line (report_msg inst MSG_TYPE_BLOCK_START (Some symbol)) = Inr (l1 @ [NL])"
    and "sender_line (report_msg inst' MSG_TYPE_BLOCK_END (Some text)) = Inr (l2 @ [NL])"
    and "symbol \<noteq> []" and "CHR '':'' \<notin> set symbol" and "length symbol \<le> 1400"
    and "c_in s EPDG = Line l1 # Line l2 # es" and "c_in s UE = Line x # Line y # us"
  shows "(text = ''retest_required:auth_failed'' \<longrightarrow>
           (\<exists>s'. processResult m (Some ''epdg'') s = (Inr (named_mlog ''retest'', m), s') \<and> c_in s' EPDG = es \<and>
              c_out s' UE = c_out s UE @ [''wifi_off'' @ [NL], ''ue_reboot'' @ [NL]])) \<and>
         (text = ''retransmission:no_proposal_chosen'' \<or> text = ''retransmission:invalid_ke_payload'' \<longrightarrow>
           processResult m (Some ''epdg'') s =
             (Inr (named_mlog ''retransmission'', m\<lparr>tm_tc := reset_iter (tm_tc m)\<rparr>), rest_of s es))"
proof -
  let ?s = "rest_of s es"
  have l1: "l1 = char_of (2 :: nat) # hex16 (i_ispi inst) @ hex16 (i_rspi inst) @ symbol"
    using assms(1) sender_line_start [OF assms(5), of inst] by simp
  have l2: "l2 = char_of (3 :: nat) # hex16 (i_ispi inst') @ hex16 (i_rspi inst') @ text" if "length text \<le> 1400"
    using assms(2) sender_line_end(2) [OF that, of inst'] by simp
  have u: "c_in ?s UE = Line x # Line y # us" using assms(7) by simp
  have run: "\<exists>l. processResult m (Some ''epdg'') s = remark m l (''  '' @ a @ CHR '':'' # b) ?s"
    if t: "text = a @ CHR '':'' # b" "b \<noteq> []" "CHR '':'' \<notin> set (a @ b)" "length text \<le> 1400" for a b
    using read_remark [of s "i_ispi inst" "i_rspi inst" symbol "i_ispi inst'" "i_rspi inst'" a b es m]
      assms(3,4,6) l1 l2 [OF t(4)] t(1-3) by simp
  show ?thesis
  proof (intro conjI impI)
    assume "text = ''retest_required:auth_failed''"
    then obtain l where r: "processResult m (Some ''epdg'') s = remark m l ''  retest_required:auth_failed'' ?s"
      using run [of "''retest_required''" "''auth_failed''"] by auto
    have "strstr ''  retest_required:auth_failed'' ''retest_required:auth_failed''" by code_simp
    then show "\<exists>s'. processResult m (Some ''epdg'') s = (Inr (named_mlog ''retest'', m), s') \<and> c_in s' EPDG = es \<and>
        c_out s' UE = c_out s UE @ [''wifi_off'' @ [NL], ''ue_reboot'' @ [NL]]"
      using r reboot_answered [OF u] by (auto simp: remark_def bindJ_def returnJ_def)
  next
    assume "text = ''retransmission:no_proposal_chosen'' \<or> text = ''retransmission:invalid_ke_payload''"
    then consider l where "processResult m (Some ''epdg'') s = remark m l ''  retransmission:no_proposal_chosen'' ?s"
      | l where "processResult m (Some ''epdg'') s = remark m l ''  retransmission:invalid_ke_payload'' ?s"
      using run [of "''retransmission''" "''no_proposal_chosen''"] run [of "''retransmission''" "''invalid_ke_payload''"]
      by auto
    moreover have "\<not> strstr ''  retransmission:no_proposal_chosen'' ''retest_required:auth_failed''"
      "strstr ''  retransmission:no_proposal_chosen'' ''retransmission:no_proposal_chosen''"
      "\<not> strstr ''  retransmission:invalid_ke_payload'' ''retest_required:auth_failed''"
      "strstr ''  retransmission:invalid_ke_payload'' ''retransmission:invalid_ke_payload''" by code_simp+
    ultimately show "processResult m (Some ''epdg'') s =
        (Inr (named_mlog ''retransmission'', m\<lparr>tm_tc := reset_iter (tm_tc m)\<rparr>), ?s)"
      by cases (simp_all add: remark_def returnJ_def)
  qed
qed

definition example_ctrl :: "(peer \<Rightarrow> read_event list) \<Rightarrow> ctrl_t" where
  "example_ctrl es = \<lparr>c_in = es, c_timed = (\<lambda>_. False), c_out = (\<lambda>_. []), c_conns = (\<lambda>_. []), c_runs = [], c_model = None\<rparr>"

definition example_message :: message_t where
  "example_message =
     \<lparr>tm_tc = fresh_iter (Testcase ''ike_sa_init_response'' None None None), tm_receiver = Some ''epdg'',
      tm_reporter = Some ''epdg'', tm_ispi = None, tm_rspi = None\<rparr>"

theorem failed_exchange_repeats_witness:
  "\<exists>l1 l2 s'. sender_line (report_msg bound_inst MSG_TYPE_BLOCK_START (Some ''ike_sa_init_response'')) = Inr (l1 @ [NL]) \<and>
     sender_line (report_msg bound_inst MSG_TYPE_BLOCK_END (Some ''retest_required:auth_failed'')) = Inr (l2 @ [NL]) \<and>
     processResult example_message (Some ''epdg'')
       (example_ctrl ((\<lambda>_. [])(EPDG := [Line l1, Line l2], UE := [Line ''ACK'', Line ''ACK'']))) =
     (Inr (named_mlog ''retest'', example_message), s')"
proof -
  obtain l1 l2 where l: "sender_line (report_msg bound_inst MSG_TYPE_BLOCK_START (Some ''ike_sa_init_response'')) = Inr (l1 @ [NL])"
    "sender_line (report_msg bound_inst MSG_TYPE_BLOCK_END (Some ''retest_required:auth_failed'')) = Inr (l2 @ [NL])"
    using sender_line_start [of "''ike_sa_init_response''" bound_inst]
      sender_line_end(2) [of "''retest_required:auth_failed''" bound_inst] by auto
  let ?s = "example_ctrl ((\<lambda>_. [])(EPDG := [Line l1, Line l2], UE := [Line ''ACK'', Line ''ACK'']))"
  have "c_in ?s EPDG = [Line l1, Line l2]" "c_in ?s UE = [Line ''ACK'', Line ''ACK'']"
    by (simp_all add: example_ctrl_def)
  from failed_exchange_repeats [OF l _ _ _ this, of example_message] l show ?thesis by auto
qed

section \<open>Starting a test\<close>

lemmas prog_simps = bindJ_def tryJ_def returnJ_def throwJ_def writeLine_def readLine_def ask_def has_ack_def caught_def
  setSoTimeout_def

lemma initEPDG_line:
  "c_in s EPDG = Line a # es \<Longrightarrow> initEPDG s =
    (Inr (strstr a ''ACK''), s\<lparr>c_out := (c_out s)(EPDG := c_out s EPDG @ [''init'' @ [NL]]), c_in := (c_in s)(EPDG := es)\<rparr>)"
  by (simp add: initEPDG_def prog_simps)

lemma initEPDG_closed:
  "c_in s EPDG = Eof # es \<Longrightarrow> initEPDG s =
    (Inl NullPointer, s\<lparr>c_out := (c_out s)(EPDG := c_out s EPDG @ [''init'' @ [NL]]), c_in := (c_in s)(EPDG := Eof # es)\<rparr>)"
  by (simp add: initEPDG_def prog_simps)

lemma third_trial:
  assumes "c_in s EPDG = Line a # Line b # Line c # es" and "\<not> strstr a ''ACK''" and "\<not> strstr b ''ACK''"
  shows "fst (reset_once s) = Inl (Exit 1)"
  using assms
  by (simp add: reset_once_def try_init_def numeral_3_eq_3 initEPDG_line bindJ_def tryJ_def returnJ_def throwJ_def
      caught_def)

lemma reset_closed:
  assumes "c_in s EPDG = Eof # es"
  shows "\<exists>s'. reset_once s = (Inr False, s') \<and> c_in s' EPDG = Eof # es"
  using assms
  by (simp add: reset_once_def try_init_def numeral_3_eq_3 initEPDG_closed bindJ_def tryJ_def returnJ_def throwJ_def
      caught_def)

text \<open>
  How the start of a test fails. When the ePDG does not acknowledge the first two resets, the
  controller exits after the third one, even if that one is acknowledged; and when the ePDG has closed
  the connection, the controller never leaves the loop that resets it.
\<close>

theorem start_of_test_fails:
  "(c_in s EPDG = Line a # Line b # Line c # es \<longrightarrow> \<not> strstr a ''ACK'' \<longrightarrow> \<not> strstr b ''ACK'' \<longrightarrow>
      fst (pre (Suc fuel) buffered s) = Inl (Exit 1)) \<and>
   (c_in s EPDG = Eof # es \<longrightarrow> fst (pre fuel buffered s) = Inl Forever)"
proof (intro conjI impI)
  assume "c_in s EPDG = Line a # Line b # Line c # es" "\<not> strstr a ''ACK''" "\<not> strstr b ''ACK''"
  from third_trial [OF this] show "fst (pre (Suc fuel) buffered s) = Inl (Exit 1)"
    by (cases "reset_once s") (simp add: pre_def bindJ_def)
next
  assume "c_in s EPDG = Eof # es"
  then have "fst (reset_loop fuel s) = Inl Forever"
  proof (induction fuel arbitrary: s)
    case (Suc fuel)
    from reset_closed [OF Suc.prems] obtain s' where "reset_once s = (Inr False, s')" "c_in s' EPDG = Eof # es" by blast
    with Suc.IH [of s'] show ?case by (simp add: bindJ_def)
  qed (simp add: throwJ_def)
  then show "fst (pre fuel buffered s) = Inl Forever" by (cases "reset_loop fuel s") (simp add: pre_def bindJ_def)
qed

theorem start_of_test_fails_witness:
  "fst (pre 5 (\<lambda>_. 0) (example_ctrl ((\<lambda>_. [])(EPDG := [Line ''busy'', Line ''busy'', Line ''ACK'', Line ''ACK''])))) =
     Inl (Exit 1)"
proof -
  let ?s = "example_ctrl ((\<lambda>_. [])(EPDG := [Line ''busy'', Line ''busy'', Line ''ACK'', Line ''ACK'']))"
  have "c_in ?s EPDG = [Line ''busy'', Line ''busy'', Line ''ACK'', Line ''ACK'']" "\<not> strstr ''busy'' ''ACK''"
    by (simp_all add: example_ctrl_def)
  then show ?thesis
    using start_of_test_fails [of ?s "''busy''" "''busy''" "''ACK''" "[Line ''ACK'']" 4 "\<lambda>_. 0"] by simp
qed

lemma wifi_silent:
  "c_in s UE = [] \<Longrightarrow> wifi cmd s =
    (Inr False, s\<lparr>c_out := (c_out s)(UE := c_out s UE @ [cmd @ [NL]]), c_in := (c_in s)(UE := []),
      c_timed := (c_timed s)(UE := True)\<rparr>)"
  by (simp add: wifi_def prog_simps)

lemma enable_loop_silent:
  assumes "c_in s UE = []"
  shows "\<exists>s'. enable_loop n s = (Inr False, s') \<and> c_in s' UE = [] \<and>
    c_out s' UE = c_out s UE @ replicate n (''wifi_off'' @ [NL]) \<and> c_out s' EPDG = c_out s EPDG"
  using assms
proof (induction n arbitrary: s)
  case (Suc n)
  let ?t = "s\<lparr>c_out := (c_out s)(UE := c_out s UE @ [''wifi_off'' @ [NL]]), c_in := (c_in s)(UE := []),
      c_timed := (c_timed s)(UE := True)\<rparr>"
  have "enable_loop (Suc n) s = enable_loop n ?t"
    using wifi_silent [OF Suc.prems, of "''wifi_off''"] by (simp add: sendDisableWiFi_def bindJ_def returnJ_def)
  with Suc.IH [of ?t] show ?case by auto
qed (simp add: returnJ_def)

text \<open>
  A silent UE counts as enabled. When the UE controller answers nothing, the method that enables
  VoWiFi returns as after a success, although the radio was never switched on, no server was reset and
  the reboot was not acknowledged: the exception of the last read is caught before the exit.
\<close>

theorem silent_ue_counts_as_enabled:
  assumes "c_in s UE = []"
  shows "\<exists>s'. sendEnableVoWiFi s = (Inr (), s') \<and>
    c_out s' UE = c_out s UE @ replicate 3 (''wifi_off'' @ [NL]) @ [''ue_reboot'' @ [NL]] \<and>
    c_out s' EPDG = c_out s EPDG"
proof -
  from enable_loop_silent [OF assms, of 3] obtain s' where "enable_loop 3 s = (Inr False, s')" "c_in s' UE = []"
    "c_out s' UE = c_out s UE @ replicate 3 (''wifi_off'' @ [NL])" "c_out s' EPDG = c_out s EPDG" by blast
  then show ?thesis by (simp add: sendEnableVoWiFi_def prog_simps)
qed

theorem silent_ue_counts_as_enabled_witness:
  "fst (sendEnableVoWiFi (example_ctrl (\<lambda>_. []))) = Inr ()"
  using silent_ue_counts_as_enabled [of "example_ctrl (\<lambda>_. [])"] by (auto simp: example_ctrl_def)

section \<open>A whole conversation\<close>

text \<open>The two lines of a report as the controller reads them.\<close>

definition report_events :: "string \<Rightarrow> string \<Rightarrow> string \<Rightarrow> read_event list" where
  "report_events ispi rspi name =
     [Line (char_of (2 :: nat) # ispi @ rspi @ name), Line (char_of (3 :: nat) # ispi @ rspi)]"

definition plain_name :: "string \<Rightarrow> bool" where
  "plain_name name \<longleftrightarrow> name \<noteq> [] \<and> CHR '':'' \<notin> set name \<and>
     name \<notin> {''retest'', ''retransmission'', ''timeout'', ''exception''}"

definition report_log :: "string \<Rightarrow> string \<Rightarrow> string \<Rightarrow> mlog" where
  "report_log ispi rspi name = MLog ML_MESSAGE (Some ispi) (Some rspi) (Some name) VT_NONE None []"

lemma processResult_report:
  assumes "c_in s EPDG = report_events ispi rspi name @ es" and "length ispi = 16" and "length rspi = 16"
    and "plain_name name"
  shows "processResult m (Some ''epdg'') s = (Inr (report_log ispi rspi name, m), rest_of s es)"
proof -
  have n: "name \<noteq> []" "CHR '':'' \<notin> set name" using assms(4) by (simp_all add: plain_name_def)
  have "result_loop (report_events ispi rspi name @ es) None 0 =
      result_loop (Line (char_of (3 :: nat) # ispi @ rspi) # es) (Some (report_log ispi rspi name, [])) 1"
    unfolding report_events_def report_log_def append_Cons append_Nil
    by (subst result_loop_line [OF _ result_line_start]) (use assms(2,3) n in simp_all)
  also have "\<dots> = (Inr (report_log ispi rspi name), es, replicate (2 * 1) (CHR '' '') @ [])"
    unfolding report_log_def by (subst result_loop_line [OF _ result_line_end]) (use assms(2,3) in simp_all)
  finally have "read_result EPDG s = (Inr (report_log ispi rspi name, ''  ''), rest_of s es)"
    using assms(1) by (simp add: read_result_EPDG numeral_2_eq_2)
  then show ?thesis by (simp add: processResult_def reporter_peer_def remark_def bindJ_def returnJ_def)
qed

definition epdg_message :: "message_t \<Rightarrow> bool" where
  "epdg_message m \<longleftrightarrow> tm_receiver m = Some ''epdg'' \<and> tm_reporter m = Some ''epdg'' \<and> \<not> is_epsilon m"

lemma step_conversation:
  assumes "epdg_message m" and "c_in s EPDG = report_events i r q @ report_events i r a @ es"
    and "length i = 16" and "length r = 16" and "plain_name q" and "plain_name a"
  shows "\<exists>m' s'. step m s = (Inr (Some (report_log i r q, Some (report_log i r a)), m'), s') \<and> c_in s' = (c_in s)(EPDG := es)"
proof -
  obtain m1 s1 where m1: "send_msg EPDG m s = (Inr m1, s1)" "c_in s1 = c_in s"
    "tm_reporter m1 = Some ''epdg''"
    using assms(1,2)
    by (cases "send_iter (spi_text (tm_ispi m)) (spi_text (tm_rspi m)) True (tm_tc m)")
      (auto simp: send_msg_def epdg_message_def)
  have e1: "c_in s1 EPDG = report_events i r q @ report_events i r a @ es" using m1(2) assms(2) by simp
  let ?s2 = "rest_of s1 (report_events i r a @ es)"
  have "send_query m s = (Inr (report_log i r q, m1), ?s2)"
    using assms(1) m1(1) processResult_report [OF e1 assms(3-5), of m1]
    by (simp add: send_query_def epdg_message_def bindJ_def)
  moreover have "processResult m1 (tm_reporter m1) ?s2 = (Inr (report_log i r a, m1), rest_of ?s2 es)"
    unfolding m1(3) by (rule processResult_report) (use assms in simp_all)
  ultimately show ?thesis
    using assms(5,6) m1(2)
    by (simp add: step_def bindJ_def name_is_def report_log_def returnJ_def plain_name_def)
qed

text \<open>
  The messages of a conversation: every message goes to the ePDG, which reports its response and the
  request that follows.
\<close>

lemma conversation_gives_pairs:
  assumes "\<forall>(m, q, a)\<in>set conv. epdg_message m \<and> plain_name q \<and> plain_name a"
    and "c_in s EPDG = concat (map (\<lambda>(m, q, a). report_events i r q @ report_events i r a) conv) @ es"
    and "length i = 16" and "length r = 16" and "0 < fuel"
  shows "\<exists>ps ms' s'. message_loop fuel (map fst conv) ispi rspi False s = (Inr (Completed ps, ms'), s') \<and>
    map (\<lambda>p. (getQueryName p, getReplyName p)) ps = map (\<lambda>(m, q, a). (Some q, Some a)) conv \<and> c_in s' = (c_in s)(EPDG := es)"
  using assms(1,2)
proof (induction conv arbitrary: s ispi rspi)
  case (Cons c conv)
  obtain m q a where c: "c = (m, q, a)" by (cases c)
  let ?m = "put_spis ispi rspi m"
  have m: "epdg_message ?m" "plain_name q" "plain_name a" "\<not> is_epsilon ?m"
    using Cons.prems(1) c by (auto simp: epdg_message_def put_spis_def is_epsilon_def)
  have "c_in s EPDG = report_events i r q @ report_events i r a @
      concat (map (\<lambda>(m, q, a). report_events i r q @ report_events i r a) conv) @ es"
    using Cons.prems(2) c by simp
  from step_conversation [OF m(1) this assms(3,4) m(2,3)] obtain m' s1 where
    st: "step ?m s = (Inr (Some (report_log i r q, Some (report_log i r a)), m'), s1)"
    "c_in s1 = (c_in s)(EPDG := concat (map (\<lambda>(m, q, a). report_events i r q @ report_events i r a) conv) @ es)" by blast
  then have e1: "c_in s1 EPDG = concat (map (\<lambda>(m, q, a). report_events i r q @ report_events i r a) conv) @ es" by simp
  obtain k where "fuel = Suc k" using assms(5) by (cases fuel) simp_all
  then have sl: "step_loop fuel ?m s = (Inr ((report_log i r q, Some (report_log i r a)), m'), s1)"
    using st(1) by (simp add: bindJ_def returnJ_def)
  have names: "q \<noteq> ''retest''" "a \<notin> {''retest'', ''exception'', ''timeout''}" using m(2,3) by (auto simp: plain_name_def)
  obtain ps ms' s' where ml: "message_loop fuel (map fst conv) (if ispi = None then Some i else ispi)
      (if rspi = None then Some r else rspi) False s1 = (Inr (Completed ps, ms'), s')"
    "map (\<lambda>p. (getQueryName p, getReplyName p)) ps = map (\<lambda>(m, q, a). (Some q, Some a)) conv" "c_in s' = (c_in s1)(EPDG := es)"
    using Cons.IH [OF _ e1] Cons.prems(1) by (metis (no_types, lifting) list.set_intros(2))
  have "message_loop fuel (map fst (c # conv)) ispi rspi False s =
      (Inr (Completed ((report_log i r q, Some (report_log i r a)) # ps), m' # ms'), s')"
    using c m(4) sl names ml(1)
    by (simp add: Let_def bindJ_def returnJ_def getQueryName_def getReplyName_def report_log_def add_pair_def
        cong: if_cong)
  then show ?case using ml(2,3) st(2) c by (auto simp: getQueryName_def getReplyName_def report_log_def)
qed (auto simp: returnJ_def)

section \<open>The oracles\<close>

definition names_ok :: "pair_t \<Rightarrow> bool" where
  "names_ok p \<longleftrightarrow> (\<exists>q r. names_of p = Inr (q, r))"

lemma names_of_Inr: "names_of p = Inr (q, r) \<longleftrightarrow> getQueryName p = Some q \<and> getReplyName p = Some r"
  by (auto simp: names_of_def split: option.splits)

lemma live_loop_result:
  assumes "\<forall>p\<in>set pairs. names_ok p" and "ret = 0 \<or> ret = 1"
  shows "live_loop ret pairs = Inr
    (if \<exists>p\<in>set pairs. \<exists>r. getReplyName p = Some r \<and> strstr r ''client_error'' then 2
     else if ret = 1 \<or> (\<exists>p\<in>set pairs. \<exists>q r. names_of p = Inr (q, r) \<and> \<not> live_pair q r) then 1 else 0)"
  using assms
proof (induction pairs arbitrary: ret)
  case (Cons p pairs)
  obtain q r where n: "names_of p = Inr (q, r)" using Cons.prems(1) by (auto simp: names_ok_def)
  then have r: "getReplyName p = Some r" by (simp add: names_of_Inr)
  show ?case
  proof (cases "strstr r ''client_error''")
    case True
    then show ?thesis using n r by simp
  next
    case False
    have "live_loop (if live_pair q r then ret else 1) pairs = Inr
      (if \<exists>p\<in>set pairs. \<exists>r. getReplyName p = Some r \<and> strstr r ''client_error'' then 2
       else if (if live_pair q r then ret else 1) = 1 \<or> (\<exists>p\<in>set pairs. \<exists>q r. names_of p = Inr (q, r) \<and> \<not> live_pair q r)
       then 1 else 0)"
      using Cons.prems by (intro Cons.IH) auto
    then show ?thesis using n r False by auto
  qed
qed auto


definition example_pairs :: "pair_t list" where
  "example_pairs =
     [(named_mlog ''enable_vowifi'', Some (named_mlog ''ike_sa_init_request'')),
      (named_mlog ''ike_sa_init_response'', Some (named_mlog ''ike_auth_1_request''))]"


section \<open>A whole test\<close>

lemma pre_acks:
  assumes "c_in s EPDG = Line a # Line b # es" and "strstr a ''ACK''" and "strstr b ''ACK''"
    and "c_in s IMS = Line c # Line d # js" and "strstr d ''ACK''" and "0 < fuel"
  shows "\<exists>s'. pre fuel (\<lambda>_. 0) s = (Inr (), s') \<and> c_in s' = (c_in s)(EPDG := es, IMS := js)"
proof -
  obtain k where k: "fuel = Suc k" using assms(6) by (cases fuel) simp_all
  have "\<exists>s'. reset_once s = (Inr True, s') \<and> c_in s' = (c_in s)(EPDG := es, IMS := js)"
    using assms(1-5)
    by (auto simp: reset_once_def try_init_def numeral_3_eq_3 initEPDG_def initIMS_def isEPDGAlive_def isIMSAlive_def greet_def
        prog_simps fun_eq_iff)
  then show ?thesis unfolding k by (auto simp: pre_def bindJ_def returnJ_def fun_eq_iff)
qed

lemma wifi_line:
  "c_in s UE = Line x # us \<Longrightarrow> \<exists>s'. sendDisableWiFi s = (Inr (strstr x ''ACK''), s') \<and> c_in s' = (c_in s)(UE := us)"
  by (auto simp: sendDisableWiFi_def wifi_def prog_simps)

lemma post_line:
  assumes "c_in s UE = Line x # us"
  shows "\<exists>s'. post s = (Inr (), s') \<and> c_in s' = (c_in s)(UE := us)"
  using wifi_line [OF assms] by (auto simp: post_def finEPDG_def finIMS_def bindJ_def returnJ_def writeLine_def)

lemma names_of_pairs:
  assumes "map (\<lambda>p. (getQueryName p, getReplyName p)) ps = map (\<lambda>(m, q, a). (Some q, Some a)) conv"
  shows "ps = [] \<longleftrightarrow> conv = []"
    and "conv = (m, q, a) # conv' \<Longrightarrow> first_timed_out ps = Inr (strstr q ''enable_vowifi'' \<and> strstr a ''timeout'')"
    and "any_client_error ps = Inr (\<exists>(m, q, a)\<in>set conv. strstr a ''client_error'')"
    and "conv \<noteq> [] \<Longrightarrow> last conv = (m, q, a) \<Longrightarrow> getFunctionalOracleResult ps =
      Inr (if strstr a ''timeout'' then 0 else if isNormalSequence q a then 2 else 1)"
proof -
  show e: "ps = [] \<longleftrightarrow> conv = []" using arg_cong [OF assms, of length] by auto
  show "conv = (m, q, a) # conv' \<Longrightarrow> first_timed_out ps = Inr (strstr q ''enable_vowifi'' \<and> strstr a ''timeout'')"
    using assms by (cases ps) (auto simp: first_timed_out_def)
  show "any_client_error ps = Inr (\<exists>(m, q, a)\<in>set conv. strstr a ''client_error'')"
    using assms by (induction ps arbitrary: conv) (auto simp: Cons_eq_map_conv)
  assume c: "conv \<noteq> []" "last conv = (m, q, a)"
  have "last (map (\<lambda>p. (getQueryName p, getReplyName p)) ps) = last (map (\<lambda>(m, q, a). (Some q, Some a)) conv)"
    using assms by simp
  then have "getQueryName (last ps) = Some q" "getReplyName (last ps) = Some a" using c e by (simp_all add: last_map)
  then show "getFunctionalOracleResult ps = Inr (if strstr a ''timeout'' then 0 else if isNormalSequence q a then 2 else 1)"
    using c e by (simp add: getFunctionalOracleResult_def)
qed

definition conversation_events :: "string \<Rightarrow> string \<Rightarrow> (message_t \<times> string \<times> string) list \<Rightarrow> read_event list" where
  "conversation_events i r conv = concat (map (\<lambda>(m, q, a). report_events i r q @ report_events i r a) conv)"

definition acknowledged :: "read_event list \<Rightarrow> bool" where
  "acknowledged es \<longleftrightarrow> (\<forall>e\<in>set es. \<exists>l. e = Line l \<and> strstr l ''ACK'')"

lemma acknowledged_Cons: "acknowledged (e # es) \<longleftrightarrow> (\<exists>l. e = Line l \<and> strstr l ''ACK'') \<and> acknowledged es"
  by (simp add: acknowledged_def)

lemma execute_conversation:
  assumes "\<forall>(m, q, a)\<in>set conv. epdg_message m \<and> plain_name q \<and> plain_name a" and "conv \<noteq> []"
    and "c_in s EPDG = [x1, x2] @ conversation_events i r conv @ es" and "c_in s IMS = [x3, x4] @ js"
    and "c_in s UE = x5 # us" and "acknowledged [x1, x2, x3, x4, x5]"
    and "length i = 16" and "length r = 16" and "0 < fuel"
  shows "\<exists>ps ms' s'. executeTestcase fuel (\<lambda>_. 0) (map fst conv) s = (Inr (Some ps, ms'), s') \<and>
    map (\<lambda>p. (getQueryName p, getReplyName p)) ps = map (\<lambda>(m, q, a). (Some q, Some a)) conv \<and>
    c_in s' = (c_in s)(EPDG := es, IMS := js, UE := us)"
proof -
  obtain a b c d e where x: "x1 = Line a" "x2 = Line b" "x3 = Line c" "x4 = Line d" "x5 = Line e" "strstr a ''ACK''"
    "strstr b ''ACK''" "strstr d ''ACK''"
    using assms(6) by (auto simp: acknowledged_Cons)
  obtain s1 where s1: "pre fuel (\<lambda>_. 0) s = (Inr (), s1)" "c_in s1 = (c_in s)(EPDG := conversation_events i r conv @ es, IMS := js)"
    using pre_acks [of s a b _ c d js fuel] assms(3,4,9) x by auto
  then have "c_in s1 EPDG = concat (map (\<lambda>(m, q, a). report_events i r q @ report_events i r a) conv) @ es"
    by (simp add: conversation_events_def)
  from conversation_gives_pairs [OF assms(1) this assms(7-9)] obtain ps ms' s2 where
    l: "message_loop fuel (map fst conv) None None False s1 = (Inr (Completed ps, ms'), s2)"
    "map (\<lambda>p. (getQueryName p, getReplyName p)) ps = map (\<lambda>(m, q, a). (Some q, Some a)) conv"
    "c_in s2 = (c_in s1)(EPDG := es)" by blast
  have u: "c_in s2 UE = Line e # us" using l(3) s1(2) assms(5) x by simp
  obtain s3 where "post s2 = (Inr (), s3)" "c_in s3 = (c_in s2)(UE := us)" using post_line [OF u] by blast
  moreover have "ps \<noteq> []" using names_of_pairs(1) [OF l(2)] assms(2) by simp
  ultimately show ?thesis using s1 l
    by (simp add: executeTestcase_def bindJ_def returnJ_def fun_upd_twist)
qed

lemma run_conversation:
  assumes "\<forall>(m, q, a)\<in>set conv. epdg_message m \<and> plain_name q \<and> plain_name a \<and> \<not> strstr a ''client_error''"
    and "conv = (m1, q1, a1) # conv'" and "\<not> (strstr q1 ''enable_vowifi'' \<and> strstr a1 ''timeout'')"
    and "last conv = (m2, q2, a2)"
    and "c_in s EPDG = [x1, x2] @ conversation_events i r conv @ es" and "c_in s IMS = [x3, x4] @ js"
    and "c_in s UE = [x5, x6] @ us" and "acknowledged [x1, x2, x3, x4, x5, x6]"
    and "length i = 16" and "length r = 16" and "0 < fuel"
  shows "\<exists>ps ms' s'. run_test fuel (\<lambda>_. 0) (map fst conv) None s =
      (Inr (ps, (if strstr a2 ''timeout'' then 0 else if isNormalSequence q2 a2 then 2 else 1), 0, ms', None), s') \<and>
    map (\<lambda>p. (getQueryName p, getReplyName p)) ps = map (\<lambda>(m, q, a). (Some q, Some a)) conv \<and>
    c_in s' = (c_in s)(EPDG := es, IMS := js, UE := us)"
proof -
  have ack: "acknowledged [x1, x2, x3, x4, x5]" "c_in s UE = x5 # x6 # us" using assms(7,8) by (simp_all add: acknowledged_Cons)
  have conv: "\<forall>(m, q, a)\<in>set conv. epdg_message m \<and> plain_name q \<and> plain_name a" "conv \<noteq> []" using assms(1,2) by auto
  obtain ps ms' s1 where e: "executeTestcase fuel (\<lambda>_. 0) (map fst conv) s = (Inr (Some ps, ms'), s1)"
    "map (\<lambda>p. (getQueryName p, getReplyName p)) ps = map (\<lambda>(m, q, a). (Some q, Some a)) conv"
    "c_in s1 = (c_in s)(EPDG := es, IMS := js, UE := x6 # us)"
    using execute_conversation [OF conv assms(5,6) ack(2,1) assms(9-11)] by blast
  note n = names_of_pairs [OF e(2)]
  have f: "first_timed_out ps = Inr False" using n(2) [OF assms(2)] assms(3) by simp
  have c: "any_client_error ps = Inr False" using n(3) assms(1) by auto
  obtain k where "fuel = Suc k" using assms(11) by (cases fuel) simp_all
  then have t: "repeat_test fuel fuel (\<lambda>_. 0) (map fst conv) s = (Inr (ps, ms'), s1)"
    using e(1) f by (simp add: bindJ_def returnJ_def liftX_def)
  obtain l where "x6 = Line l" using assms(8) by (auto simp: acknowledged_Cons)
  then obtain s2 b where "sendDisableWiFi s1 = (Inr b, s2)" "c_in s2 = (c_in s1)(UE := us)"
    using wifi_line [of s1 l us] e(3) by auto
  then show ?thesis using t c n(4) [OF conv(2) assms(4)] e(2,3)
    by (simp add: run_test_def bindJ_def returnJ_def liftX_def)
qed


definition example_run :: ctrl_t where
  "example_run = example_ctrl ((\<lambda>_. replicate 2 (Line ''ACK''))(EPDG := replicate 2 (Line ''ACK'') @
     conversation_events ''0123456789abcdef'' ''0123456789abcdef'' [(example_message, ''ike_sa_init_response'', ''ike_auth_1_request'')]))"

lemma example_run_hyps:
  "\<forall>(m, q, a)\<in>set [(example_message, ''ike_sa_init_response'', ''ike_auth_1_request'')].
     epdg_message m \<and> plain_name q \<and> plain_name a \<and> \<not> strstr a ''client_error''"
  "\<not> (strstr ''ike_sa_init_response'' ''enable_vowifi'' \<and> strstr ''ike_auth_1_request'' ''timeout'')"
  "c_in example_run EPDG = [Line ''ACK'', Line ''ACK''] @ conversation_events ''0123456789abcdef'' ''0123456789abcdef''
     [(example_message, ''ike_sa_init_response'', ''ike_auth_1_request'')] @ []"
  "c_in example_run IMS = [Line ''ACK'', Line ''ACK''] @ []" "c_in example_run UE = [Line ''ACK'', Line ''ACK''] @ []"
  "acknowledged [Line ''ACK'', Line ''ACK'', Line ''ACK'', Line ''ACK'', Line ''ACK'', Line ''ACK'']"
  "length ''0123456789abcdef'' = 16" "(0 :: nat) < 1"
  by (simp_all add: epdg_message_def plain_name_def example_message_def is_epsilon_def acknowledged_def example_run_def
      example_ctrl_def numeral_2_eq_2)

lemma example_verdict:
  "(if strstr ''ike_auth_1_request'' ''timeout'' then 0
    else if isNormalSequence ''ike_sa_init_response'' ''ike_auth_1_request'' then 2 else 1) = (2 :: int)"
  by code_simp

lemma last_single: "last [x] = x"
  by simp

lemma example_run_result:
  "\<exists>ps ms' s'. run_test 1 (\<lambda>_. 0) [example_message] None example_run = (Inr (ps, 2, 0, ms', None), s') \<and> ps \<noteq> []"
  using run_conversation [OF example_run_hyps(1) refl example_run_hyps(2) last_single example_run_hyps(3-7,7,8)]
  unfolding example_verdict by auto


section \<open>The results\<close>


definition example_test :: "string \<Rightarrow> test_t" where
  "example_test tid = (Some tid, ''{}'', [example_message])"


end
