(* ===== verification/Ue_Properties.thy ===== *)
theory Ue_Properties
  imports Ue_Controller Controller_Properties
begin

text \<open>
  Properties of the UE controller: it switches the radio of a phone that behaves as its commands expect,
  its wait for a reboot ends, and what the main controller learns from its answers.
\<close>

section \<open>Switching the radio\<close>

lemma run_all_fields [simp]:
  "u_cmds (run_all cmds s) = u_cmds s @ cmds" "u_sent (run_all cmds s) = u_sent s" "u_open (run_all cmds s) = u_open s"
  "u_clock (run_all cmds s) = u_clock s"
  by (simp_all add: run_all_def)

lemma run_cmd_fields [simp]:
  "fst (run_cmd phone cmd s) = phone (u_cmds s) cmd" "u_cmds (snd (run_cmd phone cmd s)) = u_cmds s @ [cmd]"
  "u_sent (snd (run_cmd phone cmd s)) = u_sent s" "u_open (snd (run_cmd phone cmd s)) = u_open s"
  "u_clock (snd (run_cmd phone cmd s)) = u_clock s"
  by (simp_all add: run_cmd_def)

text \<open>
  What the commands rely on: \<open>radio\<close> tells from the commands run so far whether the radio is on. The report
  of the phone says so, the key 23 presses the switch of the settings, the service commands set the
  radio, and the other commands leave it alone.
\<close>

definition wifi_phone :: "phone_t \<Rightarrow> (command list \<Rightarrow> bool) \<Rightarrow> bool" where
  "wifi_phone phone radio \<longleftrightarrow>
     (\<forall>h. strstr (phone h dumpsys_wifi) ''enabled'' = radio h \<and> strstr (phone h dumpsys_wifi) ''disabled'' = (\<not> radio h)) \<and>
     (\<forall>h. radio (h @ [keyevent ''23'']) = (\<not> radio h)) \<and>
     (\<forall>h. \<not> radio (h @ [[''adb'', ''shell'', ''su'', ''-c'', ''svc'', ''wifi'', ''disable'']]) \<and>
          \<not> radio (h @ [[''adb'', ''shell'', ''svc'', ''wifi'', ''disable'']])) \<and>
     (\<forall>h. radio (h @ [[''adb'', ''shell'', ''su'', ''-c'', ''svc'', ''wifi'', ''enable'']]) \<and>
          radio (h @ [[''adb'', ''shell'', ''svc'', ''wifi'', ''enable'']])) \<and>
     (\<forall>h. \<forall>c\<in>{dumpsys_wifi, keyevent ''224'', keyevent ''82'',
                start_activity ''com.android.settings/.wifi.WifiSettings''}. radio (h @ [c]) = radio h)"

lemma wifi_phoneD:
  assumes "wifi_phone phone radio"
  shows "strstr (phone h dumpsys_wifi) ''enabled'' = radio h" "strstr (phone h dumpsys_wifi) ''disabled'' = (\<not> radio h)"
    "radio (h @ [keyevent ''23'']) = (\<not> radio h)" "radio (h @ [dumpsys_wifi]) = radio h"
    "radio (h @ [keyevent ''224'']) = radio h" "radio (h @ [keyevent ''82'']) = radio h"
    "radio (h @ [start_activity ''com.android.settings/.wifi.WifiSettings'']) = radio h"
  using assms by (simp_all add: wifi_phone_def)

lemma radio_neutral:
  assumes "wifi_phone phone radio"
  shows "set cs \<subseteq> {dumpsys_wifi, keyevent ''224'', keyevent ''82'', start_activity ''com.android.settings/.wifi.WifiSettings''}
    \<Longrightarrow> radio (h @ cs) = radio h"
proof (induction cs rule: rev_induct)
  case (snoc c cs)
  then have "radio ((h @ cs) @ [c]) = radio (h @ cs)" using wifi_phoneD(4-7) [OF assms, of "h @ cs"] by auto
  then show ?case using snoc by simp
qed simp

lemma toggle_wifi_switches:
  assumes "wifi_phone phone radio" and "\<And>h. strstr (phone h dumpsys_wifi) state = (radio h = b)"
  shows "radio (u_cmds (toggle_wifi phone state s)) = (\<not> b)"
proof -
  let ?h = "u_cmds s @ [dumpsys_wifi, keyevent ''224'', keyevent ''82'', start_activity ''com.android.settings/.wifi.WifiSettings'']"
  have n: "radio (h @ [dumpsys_wifi]) = radio h" for h using radio_neutral [OF assms(1), of "[dumpsys_wifi]"] by simp
  have h: "radio ?h = radio (u_cmds s)" by (rule radio_neutral [OF assms(1)]) simp
  have k: "radio (?h @ [keyevent ''23'']) = (\<not> radio (u_cmds s))"
    using wifi_phoneD(3) [OF assms(1), of ?h] h by (rule trans [OF _ arg_cong [of _ _ Not]])
  have kn: "radio ((?h @ [keyevent ''23'']) @ [dumpsys_wifi]) = (\<not> radio (u_cmds s))" using n k by (rule trans)
  have t: "u_cmds (toggle_wifi phone state s) = (if radio (u_cmds s) = b then (?h @ [keyevent ''23'']) @ [dumpsys_wifi]
      else u_cmds s @ [dumpsys_wifi])"
    using k by (auto simp: toggle_wifi_def Let_def run_cmd_def ue_wakeup_def assms(2))
  show ?thesis unfolding t using kn n [of "u_cmds s"] by (cases "radio (u_cmds s) = b") simp_all
qed

lemma turned_off: "wifi_phone phone radio \<Longrightarrow> \<not> radio (u_cmds (handle_turn_off_wifi_interface phone device s))"
  using toggle_wifi_switches [of phone radio "''enabled''" True s] wifi_phoneD(1) [of phone radio]
  by (simp add: handle_turn_off_wifi_interface_def wifi_phone_def)

lemma turned_on: "wifi_phone phone radio \<Longrightarrow> radio (u_cmds (handle_turn_on_wifi_interface phone device s))"
  using toggle_wifi_switches [of phone radio "''disabled''" False s] wifi_phoneD(2) [of phone radio]
  by (simp add: handle_turn_on_wifi_interface_def wifi_phone_def)

text \<open>
  The radio is switched. On a phone that behaves as the commands expect, for every device, the radio is
  off after the command that turns it off and on after the command that turns it on, whatever was run
  before.
\<close>

theorem radio_is_switched:
  assumes "wifi_phone phone radio"
  shows "\<not> radio (u_cmds (handle_turn_off_wifi_interface phone device s)) \<and>
    radio (u_cmds (handle_turn_on_wifi_interface phone device s))"
  using turned_off [OF assms] turned_on [OF assms] by blast

definition example_wifi :: "command list \<Rightarrow> bool" where
  "example_wifi h = foldl (\<lambda>w c. if c = keyevent ''23'' then \<not> w else if last c = ''disable'' then False
     else if last c = ''enable'' then True else w) False h"

definition example_phone :: phone_t where
  "example_phone h c =
     (if c = dumpsys_wifi then if example_wifi h then ''Wi-Fi is enabled'' else ''Wi-Fi is disabled''
      else if c = devices_cmd then ''model:A13_Pro'' else [])"

definition example_ue :: "int list \<Rightarrow> ue_t" where
  "example_ue clock = \<lparr>u_cmds = [], u_sent = [], u_open = True, u_clock = clock\<rparr>"

theorem radio_is_switched_witness:
  "wifi_phone example_phone example_wifi \<and>
   \<not> example_wifi (u_cmds (handle_turn_off_wifi_interface example_phone ''HTC_U11'' (example_ue []))) \<and>
   example_wifi (u_cmds (handle_turn_on_wifi_interface example_phone ''HTC_U11'' (example_ue [])))"
proof -
  have "wifi_phone example_phone example_wifi"
    by (auto simp: wifi_phone_def example_phone_def example_wifi_def keyevent_def dumpsys_wifi_def start_activity_def)
  then show ?thesis using radio_is_switched [of example_phone example_wifi] by blast
qed

section \<open>Rebooting\<close>

abbreviation reboots :: "ue_t \<Rightarrow> nat" where
  "reboots s \<equiv> count_list (u_cmds s) reboot_cmd"

lemma devices_reboot [simp]: "devices_cmd \<noteq> reboot_cmd"
  by (simp add: devices_cmd_def reboot_cmd_def)

lemma reboots_simps [simp]: "reboots (ue_reboot s) = reboots s + 1" "reboots (snd (run_cmd phone devices_cmd s)) = reboots s"
  by (simp_all add: ue_reboot_def)

lemma ue_reboot_fields [simp]: "u_sent (ue_reboot s) = u_sent s" "u_clock (ue_reboot s) = u_clock s"
  by (simp_all add: ue_reboot_def)

lemma reboot_loop_keeps:
  "reboot_loop phone device start clock cnt s = (r, clock', s') \<Longrightarrow> cnt \<le> 3 \<Longrightarrow>
   u_sent s' = u_sent s \<and> reboots s' + cnt \<le> reboots s + 3"
proof (induction clock arbitrary: cnt s)
  case Nil
  then show ?case by (auto simp: case_prod_beta' split: if_splits)
next
  case (Cons now clock)
  show ?case
    using Cons.prems Cons.IH [of "cnt + 1" "ue_reboot (snd (run_cmd phone devices_cmd s))"]
      Cons.IH [of cnt "snd (run_cmd phone devices_cmd s)"]
    by (auto simp: case_prod_beta' split: if_splits)
qed

lemma reboot_loop_late:
  "\<forall>now\<in>set clock. REBOOT_TIMEOUT \<le> now - start \<Longrightarrow> 4 \<le> length clock + cnt \<Longrightarrow> cnt \<le> 3 \<Longrightarrow>
   fst (reboot_loop phone device start clock cnt s) \<noteq> None"
proof (induction clock arbitrary: cnt s)
  case (Cons now clock)
  then show ?case by (auto simp: case_prod_beta')
qed simp

lemma reboot_loop_ends:
  "\<forall>now\<in>set late. REBOOT_TIMEOUT \<le> now - start \<Longrightarrow> 4 \<le> length late \<Longrightarrow> cnt \<le> 3 \<Longrightarrow>
   fst (reboot_loop phone device start (early @ late) cnt s) \<noteq> None"
proof (induction early arbitrary: cnt s)
  case Nil
  then show ?case using reboot_loop_late [of late start cnt] by simp
next
  case (Cons now early)
  then show ?case by (auto simp: case_prod_beta')
qed

text \<open>The readings of a clock in a loop that pauses for seven seconds.\<close>

definition ticks :: "int \<Rightarrow> int list \<Rightarrow> bool" where
  "ticks start clock \<longleftrightarrow> (\<forall>i<length clock. start + 7 * int i \<le> clock ! i)"

lemma ticks_late: "ticks start clock \<Longrightarrow> now \<in> set (drop 18 clock) \<Longrightarrow> REBOOT_TIMEOUT \<le> now - start"
proof -
  assume t: "ticks start clock" and "now \<in> set (drop 18 clock)"
  then obtain i where i: "i < length clock - 18" "now = clock ! (18 + i)" by (auto simp: in_set_conv_nth)
  then have "18 + i < length clock" by simp
  from t [unfolded ticks_def, rule_format, OF this] show ?thesis using i(2) by simp
qed

lemma reboot_loop_ticks:
  assumes "ticks start clock" and "22 \<le> length clock"
  shows "\<exists>b clock' s'. reboot_loop phone device start clock 0 s = (Some b, clock', s')"
proof -
  have "fst (reboot_loop phone device start (take 18 clock @ drop 18 clock) 0 s) \<noteq> None"
    using assms by (intro reboot_loop_ends) (auto dest: ticks_late)
  then show ?thesis by (cases "reboot_loop phone device start clock 0 s") auto
qed

text \<open>
  C33: The wait for a reboot ends. However the phone behaves, when the loop pauses for seven seconds between
  two looks at the clock, the handler returns after at most 22 of them, has sent exactly one answer, and
  has rebooted the phone at most four times.
\<close>

theorem reboot_wait_ends:
  assumes "u_clock s = start # clock" and "ticks start clock" and "22 \<le> length clock"
  shows "\<exists>s'. handle_ue_reboot phone device s = Some s' \<and>
    (u_sent s' = u_sent s @ [ACK] \<or> u_sent s' = u_sent s @ [FAIL]) \<and> reboots s' \<le> reboots s + 4"
proof -
  obtain b clock' s1 where r: "reboot_loop phone device start clock 0 (ue_reboot s) = (Some b, clock', s1)"
    using reboot_loop_ticks [OF assms(2,3)] by blast
  from reboot_loop_keeps [OF this] have k: "u_sent s1 = u_sent s" "reboots s1 \<le> reboots s + 4" by simp_all
  have "reboot_cmd \<notin> set ([''adb'', ''shell'', ''svc'', ''power'', ''stayon'', ''true''] # init_config_cmds device)"
    by (auto simp: reboot_cmd_def init_config_cmds_def keyevent_def start_activity_def)
  then have "count_list ([''adb'', ''shell'', ''svc'', ''power'', ''stayon'', ''true''] # init_config_cmds device) reboot_cmd = 0"
    by (rule count_notin)
  then show ?thesis using assms(1) r k
    by (simp add: handle_ue_reboot_def Let_def client_send_def handle_init_config_def del: count_list.simps)
qed

theorem reboot_wait_ends_witness:
  "\<exists>s'. handle_ue_reboot (\<lambda>_ _. []) ''HTC_U11'' (example_ue (0 # map (\<lambda>i. 7 * int i) [0..<22])) = Some s' \<and>
     (u_sent s' = [ACK] \<or> u_sent s' = [FAIL])"
proof -
  have "ticks 0 (map (\<lambda>i. 7 * int i) [0..<22])" by (simp add: ticks_def)
  from reboot_wait_ends [OF _ this, of "example_ue (0 # map (\<lambda>i. 7 * int i) [0..<22])" "\<lambda>_ _. []" "''HTC_U11''"]
  show ?thesis by (auto simp: example_ue_def)
qed

section \<open>What the main controller learns\<close>

text \<open>Handling a line of the main controller.\<close>

lemma connection_line:
  assumes "\<forall>c\<in>set l. of_char c < (128 :: nat) \<and> c \<noteq> NL"
  shows "handle_client_connection phone device (l @ NL # cs) opcode s =
    (case handle_opcode phone device (py_strip (opcode @ l @ [NL])) s of
       Returned s' \<Rightarrow> handle_client_connection phone device cs [] s'
     | Raised s' \<Rightarrow> Closed (close_client phone device s')
     | Not_Returned \<Rightarrow> Rebooting)"
  using assms by (induction l arbitrary: opcode) auto

lemma client_send_fields [simp]:
  "u_cmds (client_send l s) = u_cmds s" "u_sent (client_send l s) = u_sent s @ [l]" "u_clock (client_send l s) = u_clock s"
  by (simp_all add: client_send_def)

lemma toggle_wifi_fields [simp]:
  "u_sent (toggle_wifi phone state s) = u_sent s" "u_clock (toggle_wifi phone state s) = u_clock s"
  "u_open (toggle_wifi phone state s) = u_open s"
  by (simp_all add: toggle_wifi_def Let_def case_prod_beta' ue_wakeup_def)

lemma turn_off_fields [simp]:
  "u_sent (handle_turn_off_wifi_interface phone device s) = u_sent s"
  "u_clock (handle_turn_off_wifi_interface phone device s) = u_clock s"
  "u_open (handle_turn_off_wifi_interface phone device s) = u_open s"
  by (simp_all add: handle_turn_off_wifi_interface_def)

lemma turn_on_fields [simp]:
  "u_sent (handle_turn_on_wifi_interface phone device s) = u_sent s"
  "u_clock (handle_turn_on_wifi_interface phone device s) = u_clock s"
  by (simp_all add: handle_turn_on_wifi_interface_def)

lemma ue_wakeup_fields [simp]: "u_sent (ue_wakeup s) = u_sent s" "u_clock (ue_wakeup s) = u_clock s"
  by (simp_all add: ue_wakeup_def)

lemma opcodes:
  "py_strip (''wifi_off'' @ [NL]) = ''wifi_off''" "py_strip (''ue_reboot'' @ [NL]) = ''ue_reboot''"
  "py_strip (''reset'' @ [NL]) = ''reset''"
  by code_simp+

lemma ascii_opcodes:
  "\<forall>c\<in>set ''wifi_off''. of_char c < (128 :: nat) \<and> c \<noteq> NL" "\<forall>c\<in>set ''ue_reboot''. of_char c < (128 :: nat) \<and> c \<noteq> NL"
  "\<forall>c\<in>set ''reset''. of_char c < (128 :: nat) \<and> c \<noteq> NL"
  by code_simp+

text \<open>A phone that always lists the same devices: the first look decides, or the wait fails.\<close>

lemma reboot_loop_listed:
  assumes "\<And>h. phone h devices_cmd = listed"
  shows "fst (reboot_loop phone device start clock cnt s) = Some b \<Longrightarrow> b = strstr listed device"
proof (induction clock arbitrary: cnt s)
  case (Cons now clock)
  then show ?case by (auto simp: case_prod_beta' assms split: if_splits)
qed (auto simp: case_prod_beta' assms split: if_splits)

lemma reboot_answer:
  assumes "\<And>h. phone h devices_cmd = listed" and "u_clock s = start # clock" and "ticks start clock" and "22 \<le> length clock"
  shows "\<exists>s'. handle_ue_reboot phone device s = Some s' \<and>
    u_sent s' = u_sent s @ [if strstr listed device then ACK else FAIL]"
proof -
  obtain b clock' s1 where r: "reboot_loop phone device start clock 0 (ue_reboot s) = (Some b, clock', s1)"
    using reboot_loop_ticks [OF assms(3,4)] by blast
  have "b = strstr listed device" using reboot_loop_listed [of phone listed device start clock 0 "ue_reboot s" b] assms(1) r by simp
  moreover have "u_sent s1 = u_sent s" using reboot_loop_keeps [OF r] by simp
  ultimately show ?thesis using assms(2) r by (simp add: handle_ue_reboot_def Let_def handle_init_config_def)
qed

lemma handle_opcodes:
  "handle_opcode phone device ''wifi_off'' s = Returned (client_send ACK (handle_turn_off_wifi_interface phone device (ue_wakeup s)))"
  "handle_opcode phone device ''ue_reboot'' s =
     (case handle_ue_reboot phone device (ue_wakeup s) of None \<Rightarrow> Not_Returned | Some s' \<Rightarrow> Returned s')"
  "handle_opcode phone device ''reset'' s = Raised (handle_reset phone device (ue_wakeup s))"
  by (simp_all add: handle_opcode_def Let_def)

lemmas connection_lines = connection_line [OF ascii_opcodes(1)] connection_line [OF ascii_opcodes(2)]
  connection_line [OF ascii_opcodes(3)]

definition reboot_bytes :: string where
  "reboot_bytes = ''wifi_off'' @ NL # ''ue_reboot'' @ NL # []"

lemma reboot_connection:
  assumes "handle_ue_reboot phone device
    (ue_wakeup (client_send ACK (handle_turn_off_wifi_interface phone device (ue_wakeup u)))) = Some u'"
  shows "handle_client_connection phone device reboot_bytes [] u = Waiting_For_Client u'"
  unfolding reboot_bytes_def connection_lines append_Nil opcodes handle_opcodes ue_result.case assms option.case
    handle_client_connection.simps(1) by (rule refl)

lemma rebootUE_answers:
  assumes "c_in s UE = [Line x, Line y]"
  shows "\<exists>s'. rebootUE s = (Inr (strstr y ''ACK''), s') \<and> c_in s' UE = [] \<and>
    c_out s' UE = c_out s UE @ [''wifi_off'' @ [NL], ''ue_reboot'' @ [NL]]"
  using assms by (simp add: rebootUE_def sendDisableWiFi_def wifi_def prog_simps)



lemma strstr_trans: "strstr a b \<Longrightarrow> strstr b c \<Longrightarrow> strstr a c"
  unfolding strstr_iff by (metis append.assoc)

text \<open>
  Which devices are recognised again. The model that the UE controller keeps for the devices listed at
  its start is found in that list, except for five models that are kept under another name than the one
  searched for; for three of them, the list that led to the model need not contain it.
\<close>

theorem model_recognised:
  "(model_of listed \<in> {''SM_G920T'', ''T-mobile_Revvl4'', ''Redmi_Note2'', ''Motorola_Edge_30_Pro'', ''others''} \<or>
     strstr listed (model_of listed)) \<and>
   (\<exists>listed. model_of listed = ''T-mobile_Revvl4'' \<and> \<not> strstr listed ''T-mobile_Revvl4'') \<and>
   (\<exists>listed. model_of listed = ''Redmi_Note2'' \<and> \<not> strstr listed ''Redmi_Note2'') \<and>
   (\<exists>listed. model_of listed = ''Motorola_Edge_30_Pro'' \<and> \<not> strstr listed ''Motorola_Edge_30_Pro'')"
proof (intro conjI)
  have table: "\<forall>(pat, device)\<in>set device_models.
      device \<in> {''SM_G920T'', ''T-mobile_Revvl4'', ''Redmi_Note2'', ''Motorola_Edge_30_Pro''} \<or> strstr pat device"
    by code_simp
  show "model_of listed \<in> {''SM_G920T'', ''T-mobile_Revvl4'', ''Redmi_Note2'', ''Motorola_Edge_30_Pro'', ''others''} \<or>
      strstr listed (model_of listed)"
  proof (cases "find (\<lambda>(pat, device). strstr listed pat) device_models")
    case (Some e)
    obtain pat device where e: "e = (pat, device)" by (cases e)
    have m: "model_of listed = device" using Some e by (simp add: model_of_def)
    obtain i where "i < length device_models" "device_models ! i = (pat, device)" "strstr listed pat"
      using Some e by (auto simp: find_Some_iff)
    then have "(pat, device) \<in> set device_models" "strstr listed pat" using nth_mem [of i device_models] by simp_all
    then show ?thesis using bspec [OF table] strstr_trans [of listed pat device] m by auto
  qed (simp add: model_of_def)
next
  have "model_of ''model:5062W'' = ''T-mobile_Revvl4'' \<and> \<not> strstr ''model:5062W'' ''T-mobile_Revvl4''" by code_simp
  then show "\<exists>listed. model_of listed = ''T-mobile_Revvl4'' \<and> \<not> strstr listed ''T-mobile_Revvl4''" by blast
next
  have "model_of ''model:2201117TG'' = ''Redmi_Note2'' \<and> \<not> strstr ''model:2201117TG'' ''Redmi_Note2''" by code_simp
  then show "\<exists>listed. model_of listed = ''Redmi_Note2'' \<and> \<not> strstr listed ''Redmi_Note2''" by blast
next
  have "model_of ''model:motorola_edge_30_pro'' = ''Motorola_Edge_30_Pro'' \<and>
      \<not> strstr ''model:motorola_edge_30_pro'' ''Motorola_Edge_30_Pro''" by code_simp
  then show "\<exists>listed. model_of listed = ''Motorola_Edge_30_Pro'' \<and> \<not> strstr listed ''Motorola_Edge_30_Pro''" by blast
qed

text \<open>
  A reset is never acknowledged. The handler of the command raises before it answers: the UE controller
  closes the connection, with the radio off and nothing sent, whatever follows in its input; on the
  closed connection the method of the main controller that asked for the reset throws.
\<close>

theorem reset_closes_connection:
  "(\<exists>u'. handle_client_connection phone device (''reset'' @ NL # cs) [] u = Closed u' \<and>
      u_sent u' = u_sent u \<and> \<not> u_open u' \<and> (wifi_phone phone radio \<longrightarrow> \<not> radio (u_cmds u'))) \<and>
   (c_in s UE = [Eof] \<longrightarrow> fst (resetUE s) = Inl NullPointer)"
proof -
  let ?u = "close_client phone device (handle_reset phone device (ue_wakeup u))"
  have "handle_client_connection phone device (''reset'' @ NL # cs) [] u = Closed ?u"
    unfolding connection_lines append_Nil opcodes handle_opcodes ue_result.case by (rule refl)
  moreover have "u_sent ?u = u_sent u" by (simp add: close_client_def handle_reset_def)
  moreover have "\<not> u_open ?u" by (simp add: close_client_def)
  moreover have "wifi_phone phone radio \<Longrightarrow> \<not> radio (u_cmds ?u)"
    using turned_off by (simp add: close_client_def)
  moreover have "c_in s UE = [Eof] \<Longrightarrow> fst (resetUE s) = Inl NullPointer"
    by (simp add: resetUE_def prog_simps)
  ultimately show ?thesis by blast
qed

theorem reset_closes_connection_witness:
  "fst (resetUE (example_ctrl (\<lambda>_. [Eof]))) = Inl NullPointer"
  using reset_closes_connection [where s = "example_ctrl (\<lambda>_. [Eof])"] by (simp add: example_ctrl_def)

end
