(* ===== verification/Sip_Instance.thy ===== *)
theory Sip_Instance
  imports Epdg_Instance
begin

text \<open>
  The test instance of the IMS server (\<^verbatim>\<open>sip_instance.c\<close>, \<^verbatim>\<open>sip_instance.h\<close>): its state, the send queue
  and the sender thread. Names carry the prefix \<open>sip_\<close> where the ePDG has a function of the same name.
  The instance lies in shared memory, messages are allocated there; allocation never fails.
\<close>

section \<open>State\<close>

abbreviation SIP_MAX_QUEUE_LEN :: nat where "SIP_MAX_QUEUE_LEN \<equiv> 8"
abbreviation MAX_VALUE_LEN :: nat where "MAX_VALUE_LEN \<equiv> 256"
abbreviation MAX_NAME_LEN :: nat where "MAX_NAME_LEN \<equiv> 256"

text \<open>The arrays \<^verbatim>\<open>key\<close> and \<^verbatim>\<open>val\<close> are part of a message; \<open>sm_val\<close> has \<^verbatim>\<open>MAX_VALUE_LEN\<close> bytes.\<close>

record sip_msg_t =
  sm_mtype :: "8 word"
  sm_key :: string
  sm_klen :: int
  sm_vtype :: int
  sm_val :: string
  sm_vlen :: int

record sip_instance_t =
  si_asock :: int
  si_slast :: int
  si_sendq :: "sip_msg_t option list"
  si_query :: "addr option"
  si_pid :: int
  si_rprev :: string
  si_sprev :: string
  si_running :: int
  si_finished :: bool

definition IKE_AUTH_3_REQUEST :: string where "IKE_AUTH_3_REQUEST = ''ike_auth_3_request''"
definition IKE_AUTH_3_REPLY :: string where "IKE_AUTH_3_REPLY = ''ike_auth_3_response''"

section \<open>Operations\<close>

definition sip_init_instance :: "int \<Rightarrow> int \<Rightarrow> sip_instance_t" where
  "sip_init_instance asock pid =
     \<lparr>si_asock = asock, si_slast = 0, si_sendq = replicate SIP_MAX_QUEUE_LEN None, si_query = None,
      si_pid = pid, si_rprev = IKE_AUTH_3_REQUEST, si_sprev = IKE_AUTH_3_REPLY, si_running = 1,
      si_finished = False\<rparr>"

text \<open>The process of the instance or one whose number is at most five away.\<close>

definition sip_check_instance :: "int \<Rightarrow> sip_instance_t option \<Rightarrow> bool" where
  "sip_check_instance pid instance =
     (case instance of
        None \<Rightarrow> False
      | Some inst \<Rightarrow> si_pid inst - 5 \<le> pid \<and> pid \<le> si_pid inst + 5)"

definition sip_add_message_to_send_queue ::
  "sip_instance_t \<Rightarrow> sip_msg_t \<Rightarrow> (sip_instance_t \<times> int) cres" where
  "sip_add_message_to_send_queue inst msg =
     (if si_slast inst < int SIP_MAX_QUEUE_LEN then
        (if 0 \<le> si_slast inst \<and> nat (si_slast inst) < length (si_sendq inst) then
           Inr (inst\<lparr>si_sendq := (si_sendq inst)[nat (si_slast inst) := Some msg],
                     si_slast := si_slast inst + 1\<rparr>, 1)
         else Inl OutOfBounds)
      else Inr (inst, - 1))"

text \<open>After the shift the slots from the new \<^verbatim>\<open>slast\<close> on are cleared.\<close>

definition sip_fetch_message_from_send_queue ::
  "sip_instance_t \<Rightarrow> (sip_msg_t option \<times> sip_instance_t) cres" where
  "sip_fetch_message_from_send_queue inst =
     (if 0 < si_slast inst then
        (case si_sendq inst of
           [] \<Rightarrow> Inl OutOfBounds
         | ret # _ \<Rightarrow>
             bindE (shift_loop (nat (si_slast inst) - 1) 1 (si_sendq inst)) (\<lambda>q.
               let last' = nat (si_slast inst) - 1
               in Inr (ret, inst\<lparr>si_sendq := take last' q @ replicate (SIP_MAX_QUEUE_LEN - last') None,
                                 si_slast := si_slast inst - 1\<rparr>)))
      else Inr (None, inst))"

definition sip_set_query :: "sip_instance_t \<Rightarrow> addr option \<Rightarrow> sip_instance_t" where
  "sip_set_query inst query = inst\<lparr>si_query := query\<rparr>"

text \<open>
  The value is copied with the length the message has at that moment, which is 0; the length is
  assigned afterwards.
\<close>

definition sip_init_message ::
  "int \<Rightarrow> string option \<Rightarrow> int \<Rightarrow> string option \<Rightarrow> int \<Rightarrow> sip_msg_t cres" where
  "sip_init_message mtype key vtype val vlen =
     (let k = (case key of None \<Rightarrow> [] | Some s \<Rightarrow> s)
      in if length k \<le> MAX_MESSAGE_LEN then
           Inr \<lparr>sm_mtype = word_of_int mtype, sm_key = k, sm_klen = int (length k), sm_vtype = vtype,
                sm_val = replicate MAX_VALUE_LEN NUL, sm_vlen = (if val = None then 0 else vlen)\<rparr>
         else Inl OutOfBounds)"

section \<open>The sender thread\<close>

definition sip_sender_value :: "sip_msg_t \<Rightarrow> string cres" where
  "sip_sender_value msg =
     (if sm_vtype msg = VAL_TYPE_INTEGER then
        bindE (read_bytes (Some (sm_val msg)) 4) (\<lambda>bs. int_to_char (le_signed32 bs) 10)
      else if sm_vtype msg = VAL_TYPE_UINT16 then
        bindE (read_bytes (Some (sm_val msg)) 2) (\<lambda>bs. int_to_char (le_value bs) 10)
      else if sm_vtype msg = VAL_TYPE_STRING then read_bytes (Some (sm_val msg)) (nat (sm_vlen msg))
      else Inr [])"

text \<open>The line has sixteen zeros in the place of each SPI.\<close>

definition sip_sender_line :: "sip_msg_t \<Rightarrow> string cres" where
  "sip_sender_line msg =
     bindE
       (if 0 < sm_vlen msg then
          bindE (int_to_char (sm_vtype msg) 10) (\<lambda>vt.
            bindE (sip_sender_value msg) (\<lambda>v. Inr ('':'' @ vt @ '':'' @ v)))
        else Inr [])
       (\<lambda>value.
          let line = char_of (unat (sm_mtype msg)) # replicate 16 (CHR ''0'') @ replicate 16 (CHR ''0'')
                     @ (if 0 < sm_klen msg then take (nat (sm_klen msg)) (sm_key msg) else [])
                     @ value @ [NL]
          in if length line \<le> MAX_MESSAGE_LEN then Inr line else Inl OutOfBounds)"

definition sip_sender_step :: "sip_instance_t \<Rightarrow> int list \<Rightarrow> (sip_instance_t \<times> string \<times> bool) cres" where
  "sip_sender_step inst rs =
     (if si_running inst = 0 then Inr (inst, [], False)
      else bindE (sip_fetch_message_from_send_queue inst) (\<lambda>(m, inst').
        case m of
          None \<Rightarrow> Inr (inst', [], True)
        | Some msg \<Rightarrow> bindE (sip_sender_line msg) (\<lambda>line.
            case write_loop line rs of (out, fin) \<Rightarrow> Inr (inst', out, fin))))"

section \<open>The queue implements the contract\<close>

definition sip_queue_wf :: "sip_instance_t \<Rightarrow> bool" where
  "sip_queue_wf inst \<longleftrightarrow> length (si_sendq inst) = SIP_MAX_QUEUE_LEN \<and> 0 \<le> si_slast inst \<and>
     si_slast inst \<le> int SIP_MAX_QUEUE_LEN \<and> None \<notin> set (take (nat (si_slast inst)) (si_sendq inst))"

definition sip_queue_contents :: "sip_instance_t \<Rightarrow> sip_msg_t list" where
  "sip_queue_contents inst = map the (take (nat (si_slast inst)) (si_sendq inst))"

lemma length_sip_queue_contents:
  "sip_queue_wf inst \<Longrightarrow> length (sip_queue_contents inst) = nat (si_slast inst)"
  by (auto simp: sip_queue_wf_def sip_queue_contents_def)

lemma sip_add_message_room:
  assumes wf: "sip_queue_wf inst" and room: "length (sip_queue_contents inst) < SIP_MAX_QUEUE_LEN"
  shows "\<exists>inst'. sip_add_message_to_send_queue inst msg = Inr (inst', 1) \<and> sip_queue_wf inst' \<and>
           sip_queue_contents inst' = sip_queue_contents inst @ [msg]"
proof -
  define n where "n = nat (si_slast inst)"
  have n: "si_slast inst = int n" "n < length (si_sendq inst)" "length (si_sendq inst) = SIP_MAX_QUEUE_LEN"
    using wf room by (auto simp: n_def sip_queue_wf_def sip_queue_contents_def)
  have tk: "take (Suc n) ((si_sendq inst)[n := Some msg]) = take n (si_sendq inst) @ [Some msg]"
    using n(2) by (simp add: take_Suc_conv_app_nth)
  have "nat (int n + 1) = Suc n" by simp
  then show ?thesis
    using wf n tk
    by (auto simp: sip_add_message_to_send_queue_def sip_queue_wf_def sip_queue_contents_def)
qed

lemma sip_fetch_message_first:
  assumes wf: "sip_queue_wf inst" and c: "sip_queue_contents inst = x # xs"
  shows "\<exists>inst'. sip_fetch_message_from_send_queue inst = Inr (Some x, inst') \<and> sip_queue_wf inst' \<and>
           sip_queue_contents inst' = xs"
proof -
  obtain n where n: "si_slast inst = int (Suc n)"
    using wf c by (metis length_Cons length_sip_queue_contents nat_0_le sip_queue_wf_def)
  then have len: "Suc n \<le> length (si_sendq inst)" "length (si_sendq inst) = SIP_MAX_QUEUE_LEN"
    using wf by (auto simp: sip_queue_wf_def)
  then obtain y ys where q: "si_sendq inst = y # ys" by (cases "si_sendq inst") auto
  have y: "y = Some x" and ys: "xs = map the (take n ys)" and none: "None \<notin> set (take n ys)"
    using wf c n q by (auto simp: sip_queue_wf_def sip_queue_contents_def nat_add_distrib)
  have sh: "shift_loop n 1 (si_sendq inst) = Inr (take n ys @ drop n (y # ys))"
    using shift_loop_tail [of 1 n "si_sendq inst"] len q by simp
  have tk: "take n (take n ys @ drop n (y # ys)) = take n ys" and ln: "length (take n ys) = n"
    using len q by auto
  show ?thesis
    using n q y ys none len sh tk ln
    by (auto simp: sip_fetch_message_from_send_queue_def sip_queue_wf_def sip_queue_contents_def
        nat_add_distrib Let_def)
qed

interpretation ims_queue: bounded_fifo sip_add_message_to_send_queue sip_fetch_message_from_send_queue
  sip_queue_contents sip_queue_wf SIP_MAX_QUEUE_LEN
proof unfold_locales
  fix q :: sip_instance_t and m
  assume "sip_queue_wf q" and "\<not> length (sip_queue_contents q) < SIP_MAX_QUEUE_LEN"
  then show "sip_add_message_to_send_queue q m = Inr (q, - 1)"
    by (auto simp: length_sip_queue_contents sip_add_message_to_send_queue_def)
next
  fix q :: sip_instance_t
  assume "sip_queue_wf q" and "sip_queue_contents q = []"
  then show "sip_fetch_message_from_send_queue q = Inr (None, q)"
    using length_sip_queue_contents [of q] by (simp add: sip_fetch_message_from_send_queue_def)
qed (simp_all add: sip_add_message_room sip_fetch_message_first)

lemma sip_queue_wf_init: "sip_queue_wf (sip_init_instance asock pid)"
  by (simp add: sip_queue_wf_def sip_init_instance_def)

lemma sip_queue_contents_init: "sip_queue_contents (sip_init_instance asock pid) = []"
  by (simp add: sip_queue_contents_def sip_init_instance_def)

end
