(* ===== verification/Sip_Query.thy ===== *)
theory Sip_Query
  imports Sip_Instance Epdg_Listener
begin

text \<open>
  The queries and the listener thread of the IMS server (\<^verbatim>\<open>sip_instance.c\<close>). A node holds its name and
  its value in arrays of 256 bytes instead of separate buffers; apart from that the operations are
  those of the ePDG, on a heap of their own.
\<close>

section \<open>The heap\<close>

text \<open>\<open>sq_name\<close> and \<open>sq_value\<close> are the contents of the two arrays, 256 bytes each.\<close>

record squery_t =
  sq_name :: string
  sq_nlen :: int
  sq_op :: int
  sq_vtype :: int
  sq_value :: string
  sq_vlen :: int
  sq_parent :: "addr option"
  sq_sub :: "addr option"
  sq_next :: "addr option"

record sheap =
  sh_mem :: "addr \<Rightarrow> squery_t option"
  sh_fresh :: addr

definition empty_sheap :: sheap where
  "empty_sheap = \<lparr>sh_mem = (\<lambda>_. None), sh_fresh = 0\<rparr>"

definition sderef :: "sheap \<Rightarrow> addr option \<Rightarrow> squery_t cres" where
  "sderef h p =
     (case p of
        None \<Rightarrow> Inl NullDeref
      | Some a \<Rightarrow> (case sh_mem h a of None \<Rightarrow> Inl UseAfterFree | Some n \<Rightarrow> Inr n))"

definition sstore :: "sheap \<Rightarrow> addr \<Rightarrow> squery_t \<Rightarrow> sheap" where
  "sstore h a n = h\<lparr>sh_mem := (sh_mem h)(a := Some n)\<rparr>"

definition supdate_node :: "sheap \<Rightarrow> addr option \<Rightarrow> (squery_t \<Rightarrow> squery_t) \<Rightarrow> sheap cres" where
  "supdate_node h p f = bindE (sderef h p) (\<lambda>n. Inr (sstore h (the p) (f n)))"

section \<open>Operations\<close>

definition sip_char_to_int :: "string \<Rightarrow> int \<Rightarrow> 32 word \<Rightarrow> 32 word cres" where
  "sip_char_to_int str slen base =
     (if slen = 0 then Inr 0 else char_to_int_loop base (nat slen) str 0)"

definition null_squery :: squery_t where
  "null_squery =
     \<lparr>sq_name = replicate MAX_NAME_LEN NUL, sq_nlen = 0, sq_op = 0, sq_vtype = 0,
      sq_value = replicate MAX_VALUE_LEN NUL, sq_vlen = 0, sq_parent = None, sq_sub = None, sq_next = None\<rparr>"

definition sip_init_query :: "sheap \<Rightarrow> addr \<times> sheap" where
  "sip_init_query h =
     (sh_fresh h, (sstore h (sh_fresh h) null_squery)\<lparr>sh_fresh := Suc (sh_fresh h)\<rparr>)"

definition sip_has_query_parent :: "sheap \<Rightarrow> addr option \<Rightarrow> bool cres" where
  "sip_has_query_parent h query = bindE (sderef h query) (\<lambda>n. Inr (sq_parent n \<noteq> None))"

definition sip_get_query_parent :: "sheap \<Rightarrow> addr option \<Rightarrow> addr option cres" where
  "sip_get_query_parent h query = bindE (sderef h query) (\<lambda>n. Inr (sq_parent n))"

definition sip_set_query_parent :: "sheap \<Rightarrow> addr option \<Rightarrow> addr option \<Rightarrow> sheap cres" where
  "sip_set_query_parent h query parent = supdate_node h query (\<lambda>n. n\<lparr>sq_parent := parent\<rparr>)"

definition sip_add_query_sub_message ::
  "sheap \<Rightarrow> addr option \<Rightarrow> int \<Rightarrow> int \<Rightarrow> (addr option \<times> sheap) cres" where
  "sip_add_query_sub_message h query ptype ctype =
     bindE
       (if ctype = MSG_TYPE_ATTRIBUTE \<and> ptype = MSG_TYPE_ATTRIBUTE then
          bindE (sip_has_query_parent h query) (\<lambda>b.
            if b then sip_get_query_parent h query else Inl (Exited 1))
        else Inr query)
       (\<lambda>query.
          case sip_init_query h of (sub, h1) \<Rightarrow>
            bindE (sip_set_query_parent h1 (Some sub) query) (\<lambda>h2.
              bindE (sderef h2 query) (\<lambda>n.
                bindE (if sq_sub n \<noteq> None then supdate_node h2 (Some sub) (\<lambda>s. s\<lparr>sq_next := sq_sub n\<rparr>)
                       else Inr h2) (\<lambda>h3.
                  bindE (supdate_node h3 query (\<lambda>n. n\<lparr>sq_sub := Some sub\<rparr>)) (\<lambda>h4.
                    Inr (Some sub, h4))))))"

definition sip_get_query_name :: "sheap \<Rightarrow> addr option \<Rightarrow> (string \<times> int) cres" where
  "sip_get_query_name h query = bindE (sderef h query) (\<lambda>n. Inr (sq_name n, sq_nlen n))"

text \<open>The copy into an array of a node; a longer string is written past its end.\<close>

definition array_copy :: "string \<Rightarrow> string \<Rightarrow> string cres" where
  "array_copy arr s = (if length s \<le> length arr then Inr (s @ drop (length s) arr) else Inl OutOfBounds)"

definition sip_set_query_name :: "sheap \<Rightarrow> addr option \<Rightarrow> string \<Rightarrow> sheap cres" where
  "sip_set_query_name h query name =
     bindE (chomp_len name) (\<lambda>nlen.
       bindE (sderef h query) (\<lambda>n.
         bindE (array_copy (sq_name n) (take nlen name)) (\<lambda>arr.
           supdate_node h query (\<lambda>n. n\<lparr>sq_name := arr, sq_nlen := int nlen\<rparr>))))"

definition sip_get_query_operator :: "sheap \<Rightarrow> addr option \<Rightarrow> int cres" where
  "sip_get_query_operator h query = bindE (sderef h query) (\<lambda>n. Inr (sq_op n))"

definition sip_set_query_operator :: "sheap \<Rightarrow> addr option \<Rightarrow> int \<Rightarrow> sheap cres" where
  "sip_set_query_operator h query opr = supdate_node h query (\<lambda>n. n\<lparr>sq_op := opr\<rparr>)"

definition sip_get_query_value_type :: "sheap \<Rightarrow> addr option \<Rightarrow> int cres" where
  "sip_get_query_value_type h query = bindE (sderef h query) (\<lambda>n. Inr (sq_vtype n))"

definition sip_set_query_value_type :: "sheap \<Rightarrow> addr option \<Rightarrow> string \<Rightarrow> sheap cres" where
  "sip_set_query_value_type h query vtstr =
     bindE (sip_char_to_int (vtstr @ [NUL]) (int (length vtstr)) 10) (\<lambda>v.
       supdate_node h query (\<lambda>n. n\<lparr>sq_vtype := sint v\<rparr>))"

definition sip_get_query_value :: "sheap \<Rightarrow> addr option \<Rightarrow> (string \<times> int) cres" where
  "sip_get_query_value h query = bindE (sderef h query) (\<lambda>n. Inr (sq_value n, sq_vlen n))"

definition sip_set_query_value :: "sheap \<Rightarrow> addr option \<Rightarrow> string \<Rightarrow> sheap cres" where
  "sip_set_query_value h query value =
     bindE (chomp_len value) (\<lambda>vlen.
       bindE (sderef h query) (\<lambda>n.
         bindE (array_copy (sq_value n) (take vlen value)) (\<lambda>arr.
           supdate_node h query (\<lambda>n. n\<lparr>sq_value := arr, sq_vlen := int vlen\<rparr>))))"

text \<open>Release of the nodes, with the fuel of the ePDG's \<open>free_query\<close>.\<close>

fun sip_free_query_fuel :: "nat \<Rightarrow> sheap \<Rightarrow> addr option \<Rightarrow> sheap cres"
  and sip_free_subs_fuel :: "nat \<Rightarrow> sheap \<Rightarrow> addr option \<Rightarrow> sheap cres" where
  "sip_free_query_fuel 0 h query = Inl Diverges"
| "sip_free_query_fuel (Suc k) h query =
     (case query of
        None \<Rightarrow> Inr h
      | Some a \<Rightarrow>
          bindE (sderef h query) (\<lambda>n.
            bindE (sip_free_subs_fuel k h (sq_sub n)) (\<lambda>h'.
              case sh_mem h' a of
                None \<Rightarrow> Inl DoubleFree
              | Some _ \<Rightarrow> Inr (h'\<lparr>sh_mem := (sh_mem h')(a := None)\<rparr>))))"
| "sip_free_subs_fuel 0 h cur = Inl Diverges"
| "sip_free_subs_fuel (Suc k) h cur =
     (case cur of
        None \<Rightarrow> Inr h
      | Some a \<Rightarrow>
          bindE (sderef h cur) (\<lambda>n.
            bindE (sip_free_query_fuel k h cur) (\<lambda>h'. sip_free_subs_fuel k h' (sq_next n))))"

definition sip_free_query :: "sheap \<Rightarrow> addr option \<Rightarrow> sheap cres" where
  "sip_free_query h query = sip_free_query_fuel (2 * sh_fresh h + 2) h query"

text \<open>
  Printing: the indentation skips two bytes of the zeroed buffer per level, so that the C string that
  is printed below the outermost level is empty. The line must fit the buffer with it.
\<close>

definition sip_print_node_line :: "squery_t \<Rightarrow> nat \<Rightarrow> string cres" where
  "sip_print_node_line n depth =
     (let nm = (if 0 < sq_nlen n then take (nat (sq_nlen n)) (cstr (sq_name n)) else []);
          v = (if 0 < sq_vlen n then CHR '':'' # take (nat (sq_vlen n)) (cstr (sq_value n)) else [])
      in if (sq_nlen n \<le> 0 \<or> 2 * depth + nat (sq_nlen n) + 1 \<le> MAX_MESSAGE_LEN) \<and>
            (sq_vlen n \<le> 0 \<or> 2 * depth + nat (sq_nlen n) + nat (sq_vlen n) + 2 \<le> MAX_MESSAGE_LEN)
         then Inr (cstr (replicate (2 * depth) NUL @ nm @ v)) else Inl OutOfBounds)"

definition sip_end_line :: "nat \<Rightarrow> string cres" where
  "sip_end_line depth =
     (if 2 * depth + 3 \<le> MAX_MESSAGE_LEN then Inr (cstr (replicate (2 * depth) NUL @ ''end''))
      else Inl OutOfBounds)"

fun sip_print_query_fuel :: "nat \<Rightarrow> sheap \<Rightarrow> addr option \<Rightarrow> nat \<Rightarrow> string list cres"
  and sip_print_subs_fuel :: "nat \<Rightarrow> sheap \<Rightarrow> addr option \<Rightarrow> nat \<Rightarrow> string list cres" where
  "sip_print_query_fuel 0 h query depth = Inl Diverges"
| "sip_print_query_fuel (Suc k) h query depth =
     bindE (sderef h query) (\<lambda>n.
       bindE (sip_print_node_line n depth) (\<lambda>l.
         bindE (sip_print_subs_fuel k h (sq_sub n) (depth + 1)) (\<lambda>ls.
           bindE (sip_end_line depth) (\<lambda>e. Inr (l # ls @ [e])))))"
| "sip_print_subs_fuel 0 h sub depth = Inl Diverges"
| "sip_print_subs_fuel (Suc k) h sub depth =
     (case sub of
        None \<Rightarrow> Inr []
      | Some a \<Rightarrow>
          bindE (sip_print_query_fuel k h sub depth) (\<lambda>ls.
            bindE (sderef h sub) (\<lambda>n.
              bindE (sip_print_subs_fuel k h (sq_next n) depth) (\<lambda>ls'. Inr (ls @ ls')))))"

definition sip_print_query :: "sheap \<Rightarrow> addr option \<Rightarrow> string list cres" where
  "sip_print_query h query = sip_print_query_fuel (2 * sh_fresh h + 2) h query 0"

subsection \<open>Lookup\<close>

text \<open>The names compared with are constants of the code; neither pointer is tested.\<close>

definition sip_is_query_name :: "sheap \<Rightarrow> addr option \<Rightarrow> string \<Rightarrow> bool cres" where
  "sip_is_query_name h query name =
     bindE (sderef h query) (\<lambda>n.
       Inr (sq_nlen n = int (length name) \<and> strncmp_eq (cstr (sq_name n)) name (nat (sq_nlen n))))"

fun sip_find_sub_fuel :: "nat \<Rightarrow> sheap \<Rightarrow> string \<Rightarrow> addr option \<Rightarrow> addr option cres" where
  "sip_find_sub_fuel 0 h name cur = Inl Diverges"
| "sip_find_sub_fuel (Suc k) h name cur =
     (case cur of
        None \<Rightarrow> Inr None
      | Some a \<Rightarrow>
          bindE (sip_is_query_name h cur name) (\<lambda>b.
            if b then Inr cur
            else bindE (sderef h cur) (\<lambda>n. sip_find_sub_fuel k h name (sq_next n))))"

definition sip_get_sub_query_by_name :: "sheap \<Rightarrow> addr option \<Rightarrow> string \<Rightarrow> addr option cres" where
  "sip_get_sub_query_by_name h query name =
     bindE (sderef h query) (\<lambda>n. sip_find_sub_fuel (sh_fresh h + 1) h name (sq_sub n))"

definition sip_has_query :: "sip_instance_t \<Rightarrow> bool" where
  "sip_has_query inst \<longleftrightarrow> si_query inst \<noteq> None"

definition sip_is_query_finished :: "sip_instance_t \<Rightarrow> bool" where
  "sip_is_query_finished inst = si_finished inst"

definition sip_get_query :: "sip_instance_t \<Rightarrow> addr option" where
  "sip_get_query inst = si_query inst"

fun sip_sub_path :: "sheap \<Rightarrow> addr option \<Rightarrow> string list \<Rightarrow> addr option cres" where
  "sip_sub_path h query [] = Inr query"
| "sip_sub_path h query (name # names) =
     (case query of
        None \<Rightarrow> Inr None
      | Some a \<Rightarrow> bindE (sip_get_sub_query_by_name h query name) (\<lambda>q. sip_sub_path h q names))"

definition sip_query_at :: "sheap \<Rightarrow> sip_instance_t \<Rightarrow> string \<Rightarrow> string list \<Rightarrow> addr option cres" where
  "sip_query_at h inst mname names =
     (case sip_get_query inst of
        None \<Rightarrow> Inr None
      | Some a \<Rightarrow>
          bindE (sip_is_query_name h (Some a) mname) (\<lambda>b.
            if b then sip_sub_path h (Some a) names else Inr None))"

text \<open>The busy wait, on the states that its iterations observe; \<open>None\<close> when it still waits after them.\<close>

definition sip_must_wait :: "sheap \<Rightarrow> sip_instance_t \<Rightarrow> bool cres" where
  "sip_must_wait h inst =
     (if si_query inst = None then Inr True else sip_is_query_name h (sip_get_query inst) (si_sprev inst))"

primrec sip_next_query_loop :: "(sheap \<times> sip_instance_t) list \<Rightarrow> addr option option cres" where
  "sip_next_query_loop [] = Inr None"
| "sip_next_query_loop (s # env) =
     bindE (sip_must_wait (fst s) (snd s)) (\<lambda>wait.
       if wait \<and> \<not> si_finished (snd s) then sip_next_query_loop env
       else Inr (Some (sip_get_query (snd s))))"

definition sip_get_next_query ::
  "sheap \<Rightarrow> sip_instance_t \<Rightarrow> (sheap \<times> sip_instance_t) list \<Rightarrow> addr option option cres" where
  "sip_get_next_query h inst env =
     (if si_running inst \<noteq> 0 \<and> \<not> si_finished inst then sip_next_query_loop ((h, inst) # env)
      else Inr (Some None))"

primrec sip_wait_query :: "sip_instance_t list \<Rightarrow> bool option" where
  "sip_wait_query [] = None"
| "sip_wait_query (inst # env) = (if sip_has_query inst then Some True else sip_wait_query env)"

section \<open>The listener thread\<close>

record sip_listener_t =
  sl_heap :: sheap
  sl_inst :: sip_instance_t
  sl_query :: "addr option"
  sl_depth :: int
  sl_ptype :: int
  sl_sent :: string

definition sip_reset_instance :: "sip_instance_t \<Rightarrow> sip_instance_t" where
  "sip_reset_instance inst =
     inst\<lparr>si_query := None, si_finished := False, si_rprev := IKE_AUTH_3_REQUEST, si_sprev := IKE_AUTH_3_REPLY\<rparr>"

definition sip_finish_instance :: "sip_instance_t \<Rightarrow> sip_instance_t" where
  "sip_finish_instance inst =
     inst\<lparr>si_finished := True, si_query := None, si_rprev := IKE_AUTH_3_REQUEST, si_sprev := IKE_AUTH_3_REPLY\<rparr>"

definition sip_move_query ::
  "sheap \<Rightarrow> addr option \<Rightarrow> int \<Rightarrow> int \<Rightarrow> int \<Rightarrow> (sheap \<times> addr option \<times> int) cres" where
  "sip_move_query h query depth ptype mtype =
     (if mtype = MSG_TYPE_ATTRIBUTE then
        bindE (sip_add_query_sub_message h query ptype mtype) (\<lambda>(q, h'). Inr (h', q, depth))
      else if mtype = MSG_TYPE_BLOCK_START then
        (if query = None then (case sip_init_query h of (q, h') \<Rightarrow> Inr (h', Some q, depth + 1))
         else bindE (sip_add_query_sub_message h query ptype mtype) (\<lambda>(q, h'). Inr (h', q, depth + 1)))
      else if mtype = MSG_TYPE_BLOCK_END then
        bindE (sip_has_query_parent h query) (\<lambda>b.
          bindE (if b then sip_get_query_parent h query else Inr query) (\<lambda>q. Inr (h, q, depth - 1)))
      else Inr (h, query, depth))"

definition sip_apply_token :: "sheap \<Rightarrow> addr option \<Rightarrow> nat \<Rightarrow> string \<Rightarrow> sheap cres" where
  "sip_apply_token h query idx token =
     (if idx = 0 then sip_set_query_name h query token
      else if idx = 1 then
        bindE (if 6 \<le> length token \<and> strncmp_eq token ''update'' 6
               then sip_set_query_operator h query OP_TYPE_UPDATE
               else if 4 \<le> length token \<and> strncmp_eq token ''drop'' 4
               then sip_set_query_operator h query OP_TYPE_DROP
               else Inr h)
          (\<lambda>h'. bindE (sip_get_query_operator h' query) (\<lambda>_. Inr h'))
      else if idx = 2 then sip_set_query_value_type h query token
      else if idx = 3 then sip_set_query_value h query token
      else Inr h)"

primrec sip_apply_tokens :: "string list \<Rightarrow> sheap \<Rightarrow> addr option \<Rightarrow> nat \<Rightarrow> sheap cres" where
  "sip_apply_tokens [] h query idx = Inr h"
| "sip_apply_tokens (t # ts) h query idx =
     bindE (sip_apply_token h query idx t) (\<lambda>h'. sip_apply_tokens ts h' query (Suc idx))"

definition sip_line_type :: "string \<Rightarrow> int cres" where
  "sip_line_type line =
     bindE (sip_char_to_int line 1 10) (\<lambda>v. Inr (uint (ucast v :: 8 word)))"

definition sip_query_line :: "sip_listener_t \<Rightarrow> string \<Rightarrow> sip_listener_t cres" where
  "sip_query_line st line =
     bindE (sip_line_type line) (\<lambda>mtype.
     bindE (sip_move_query (sl_heap st) (sl_query st) (sl_depth st) (sl_ptype st) mtype) (\<lambda>(h, query, depth).
     bindE (if 34 < length line then
              (if length line < MAX_MESSAGE_LEN
               then sip_apply_tokens (strtok_all (\<lambda>c. c = CHR '':'') (cstr (drop 33 line))) h query 0
               else Inl OutOfBounds)
            else Inr h) (\<lambda>h'.
       if depth = 0 then
         bindE (sip_print_query h' query) (\<lambda>_.
           Inr (st\<lparr>sl_heap := h', sl_inst := sip_set_query (sl_inst st) query, sl_query := None,
                   sl_depth := depth, sl_ptype := mtype\<rparr>))
       else Inr (st\<lparr>sl_heap := h', sl_query := query, sl_depth := depth, sl_ptype := mtype\<rparr>))))"

definition sip_release_query :: "sheap \<Rightarrow> sip_instance_t \<Rightarrow> sheap cres" where
  "sip_release_query h inst = (if si_query inst \<noteq> None then sip_free_query h (si_query inst) else Inr h)"

definition sip_listener_line :: "sip_listener_t \<Rightarrow> string \<Rightarrow> sip_listener_t cres" where
  "sip_listener_line st line =
     (if line = HELLO_REQUEST then Inr (st\<lparr>sl_sent := sl_sent st @ ACK_RESPONSE\<rparr>)
      else if line = RESET_REQUEST then
        bindE (sip_release_query (sl_heap st) (sl_inst st)) (\<lambda>h.
          Inr (st\<lparr>sl_heap := h, sl_inst := sip_reset_instance (sl_inst st),
                  sl_sent := sl_sent st @ ACK_RESPONSE\<rparr>))
      else if line = FIN_REQUEST then
        bindE (sip_release_query (sl_heap st) (sl_inst st)) (\<lambda>h.
          Inr (st\<lparr>sl_heap := h, sl_inst := sip_finish_instance (sl_inst st)\<rparr>))
      else if line \<noteq> [] then sip_query_line st line
      else Inr st)"

primrec sip_listener_loop :: "nat \<Rightarrow> string \<Rightarrow> sip_listener_t \<Rightarrow> sip_listener_t cres" where
  "sip_listener_loop 0 input st = Inr st"
| "sip_listener_loop (Suc k) input st =
     (if si_running (sl_inst st) = 0 then Inr st
      else bindE (read_line input 0) (\<lambda>r.
        case r of
          None \<Rightarrow> Inr st
        | Some (line, rest) \<Rightarrow> bindE (sip_listener_line st line) (sip_listener_loop k rest)))"

definition sip_listener_run :: "string \<Rightarrow> sip_listener_t \<Rightarrow> sip_listener_t cres" where
  "sip_listener_run input st = sip_listener_loop (Suc (length input)) input st"

definition sip_init_listener :: "int \<Rightarrow> int \<Rightarrow> sip_listener_t" where
  "sip_init_listener asock pid =
     \<lparr>sl_heap = empty_sheap, sl_inst = sip_init_instance asock pid, sl_query = None, sl_depth = 0,
      sl_ptype = 0, sl_sent = []\<rparr>"

end
