(* ===== verification/Sip_Message.thy ===== *)
theory Sip_Message
  imports Prelude
begin

text \<open>
  SIP messages in the IMS server (\<^verbatim>\<open>sip_controller.c\<close>): the parser, the lists of headers and of
  their values with every operation on them, and the serialiser. Allocation never fails. A buffer
  that the code reads beyond its end is given together with the bytes that follow it in memory.
\<close>

section \<open>Data\<close>

abbreviation SC_BUF_LENGTH :: nat where "SC_BUF_LENGTH \<equiv> 16384"
abbreviation SC_SIP_REQUEST :: int where "SC_SIP_REQUEST \<equiv> 1"
abbreviation SC_SIP_RESPONSE :: int where "SC_SIP_RESPONSE \<equiv> 2"
abbreviation SC_SUCCESS :: int where "SC_SUCCESS \<equiv> 1"

definition SIP_VERSION_TOKEN :: string where "SIP_VERSION_TOKEN = ''SIP/2.0''"

text \<open>
  A value with its optional attribute; the length fields are the lengths of the strings, and 0 for
  a NULL pointer (\<open>None\<close>). The delimiter NUL stands for none.
\<close>

record val_t =
  v_attr :: "string option"
  v_val :: "string option"
  v_delimiter :: char
  v_space :: bool

record vlst_t =
  vl_num :: int
  vl_vals :: "val_t list"

text \<open>
  A header is a node of a linked list. It carries its address, because the message also holds a
  pointer to its last node; the list of nodes is the chain of \<^verbatim>\<open>next\<close> pointers from \<^verbatim>\<open>head\<close>.
\<close>

record kvp_t =
  k_addr :: nat
  k_key :: string
  k_vlst :: vlst_t

record sip_message_t =
  s_version :: "string option"
  s_mtype :: int
  s_mname :: "string option"
  s_additional :: "string option"
  s_num :: int
  s_kvps :: "kvp_t list"
  s_tail :: "nat option"

definition buf_len :: "string option \<Rightarrow> nat" where
  "buf_len b = (case b of None \<Rightarrow> 0 | Some s \<Rightarrow> length s)"

text \<open>\<^verbatim>\<open>len1 == len2 && !strncmp(b, s, len1)\<close> on a buffer without terminating NUL.\<close>

definition buf_is :: "string option \<Rightarrow> string \<Rightarrow> bool" where
  "buf_is b s \<longleftrightarrow> buf_len b = length s \<and> (case b of None \<Rightarrow> True | Some t \<Rightarrow> strncmp_eq t s (length s))"

section \<open>Values\<close>

text \<open>
  The loop of \<^verbatim>\<open>init_val\<close> on the bytes before \<^verbatim>\<open>val + len\<close>, with what \<^verbatim>\<open>tmp\<close> holds. At \<^verbatim>\<open>val + len\<close> the
  caller's buffer has a NUL; inside quotes it is appended to \<^verbatim>\<open>tmp\<close> and the value is never assigned.
\<close>

fun init_val_loop :: "string \<Rightarrow> string \<Rightarrow> bool \<Rightarrow> val_t \<Rightarrow> val_t cres" where
  "init_val_loop [] t inside v =
     (if \<not> inside then Inr (v\<lparr>v_val := Some t\<rparr>)
      else if length t < SC_BUF_LENGTH then Inr v
      else Inl OutOfBounds)"
| "init_val_loop (c # cs) t inside v =
     (if \<not> inside \<and> c = CHR ''='' then init_val_loop cs [] inside (v\<lparr>v_attr := Some t\<rparr>)
      else if length t < SC_BUF_LENGTH then
        init_val_loop cs (t @ [c]) (if c = CHR 0x22 then \<not> inside else inside) v
      else Inl OutOfBounds)"

definition init_val :: "string \<Rightarrow> char \<Rightarrow> bool \<Rightarrow> val_t cres" where
  "init_val val delimiter space =
     init_val_loop val [] False
       \<lparr>v_attr = None, v_val = None, v_delimiter = delimiter, v_space = space\<rparr>"

definition add_val_to_vlst :: "vlst_t \<Rightarrow> val_t \<Rightarrow> vlst_t" where
  "add_val_to_vlst vlst val = vlst\<lparr>vl_vals := vl_vals vlst @ [val]\<rparr>"

text \<open>One value is complete: it is made from \<^verbatim>\<open>tmp\<close>, which has a NUL after it unless it is full.\<close>

definition flush_val :: "vlst_t \<Rightarrow> string \<Rightarrow> char \<Rightarrow> bool \<Rightarrow> vlst_t cres" where
  "flush_val vlst tmp delimiter space =
     (if length tmp < SC_BUF_LENGTH then
        bindE (init_val tmp delimiter space) (\<lambda>val.
          Inr ((add_val_to_vlst vlst val)\<lparr>vl_num := vl_num vlst + 1\<rparr>))
      else Inl OutOfBounds)"

definition step_inside :: "char \<Rightarrow> bool \<Rightarrow> bool" where
  "step_inside c inside =
     (if c = CHR ''<'' then True
      else if c = CHR ''>'' then False
      else if c = CHR 0x22 then \<not> inside
      else inside)"

text \<open>
  The loop of \<^verbatim>\<open>init_vlst\<close> on the bytes before \<^verbatim>\<open>value + vlen\<close>; it also reads the byte \<open>past\<close> that follows
  the block. After a final comma followed by a space there the loop is left without a last value.
\<close>

function init_vlst_loop :: "string \<Rightarrow> char \<Rightarrow> string \<Rightarrow> bool \<Rightarrow> vlst_t \<Rightarrow> vlst_t cres" where
  "init_vlst_loop [] past tmp inside vlst =
     (if \<not> inside \<and> past = CHR '';'' then flush_val vlst tmp (CHR '';'') False
      else if \<not> inside then flush_val vlst tmp NUL False
      else if length tmp < SC_BUF_LENGTH then Inr vlst
      else Inl OutOfBounds)"
| "init_vlst_loop (c # cs) past tmp inside vlst =
     (if \<not> inside \<and> c = CHR '';'' then
        bindE (flush_val vlst tmp (CHR '';'') False) (init_vlst_loop cs past [] inside)
      else if \<not> inside \<and> c = CHR '' '' then
        bindE (flush_val vlst tmp NUL True) (init_vlst_loop cs past [] inside)
      else if \<not> inside \<and> c = CHR '','' then
        (case cs of
           [] \<Rightarrow> if past = CHR '' '' then flush_val vlst tmp (CHR '','') True
                 else bindE (flush_val vlst tmp (CHR '','') False) (init_vlst_loop [] past [] inside)
         | d # ds \<Rightarrow>
             if d = CHR '' '' then
               bindE (flush_val vlst tmp (CHR '','') True) (init_vlst_loop ds past [] inside)
             else bindE (flush_val vlst tmp (CHR '','') False) (init_vlst_loop cs past [] inside))
      else if length tmp < SC_BUF_LENGTH then
        init_vlst_loop cs past (tmp @ [c]) (step_inside c inside) vlst
      else Inl OutOfBounds)"
  by pat_completeness auto
termination
  by (relation "measure (\<lambda>(cs, past, tmp, inside, vlst). length cs)") auto

definition init_vlst :: "string \<Rightarrow> char \<Rightarrow> vlst_t cres" where
  "init_vlst value past = init_vlst_loop value past [] False \<lparr>vl_num = 0, vl_vals = []\<rparr>"

text \<open>What \<^verbatim>\<open>serialize_value\<close> writes for one value.\<close>

definition val_text :: "val_t \<Rightarrow> string" where
  "val_text v =
     (case v_attr v of None \<Rightarrow> [] | Some a \<Rightarrow> a @ ''='')
     @ (case v_val v of None \<Rightarrow> [] | Some t \<Rightarrow> t)
     @ (if v_delimiter v \<noteq> NUL then [v_delimiter v] else [])
     @ (if v_space v then '' '' else [])"

definition serialize_value :: "kvp_t \<Rightarrow> string cres" where
  "serialize_value kvp =
     (let text = concat (map val_text (vl_vals (k_vlst kvp)))
      in if length text \<le> SC_BUF_LENGTH then Inr text else Inl OutOfBounds)"

section \<open>Headers\<close>

definition init_kvp :: "nat \<Rightarrow> string \<Rightarrow> string \<Rightarrow> char \<Rightarrow> kvp_t cres" where
  "init_kvp addr key value past =
     (if key = [] \<or> value = [] then Inl AssertFail
      else bindE (init_vlst value past) (\<lambda>vlst.
        Inr \<lparr>k_addr = addr, k_key = key, k_vlst = vlst\<rparr>))"

definition key_is :: "kvp_t \<Rightarrow> string \<Rightarrow> bool" where
  "key_is kvp key \<longleftrightarrow> buf_is (Some (k_key kvp)) key"

text \<open>The asserts on the key that is searched for: not NULL and not empty.\<close>

definition assert_key :: "string \<Rightarrow> 'a cres \<Rightarrow> 'a cres" where
  "assert_key key r = (if key = [] then Inl AssertFail else r)"

definition get_num_of_kvps_from_sip_message :: "sip_message_t \<Rightarrow> string \<Rightarrow> nat cres" where
  "get_num_of_kvps_from_sip_message sip key =
     assert_key key (Inr (length (filter (\<lambda>k. key_is k key) (s_kvps sip))))"

text \<open>The loop with the counter \<^verbatim>\<open>idx\<close>: the position of the node it stops at.\<close>

fun find_kvp :: "string \<Rightarrow> int \<Rightarrow> kvp_t list \<Rightarrow> nat option" where
  "find_kvp key idx [] = None"
| "find_kvp key idx (k # ks) =
     (if key_is k key then
        (if idx - 1 < 0 then Some 0 else map_option Suc (find_kvp key (idx - 1) ks))
      else map_option Suc (find_kvp key idx ks))"

definition get_kvp_from_sip_message :: "sip_message_t \<Rightarrow> string \<Rightarrow> int \<Rightarrow> kvp_t option cres" where
  "get_kvp_from_sip_message sip key idx =
     assert_key key (Inr (map_option (\<lambda>i. s_kvps sip ! i) (find_kvp key idx (s_kvps sip))))"

definition del_kvp_from_sip_message :: "sip_message_t \<Rightarrow> string \<Rightarrow> int \<Rightarrow> sip_message_t cres" where
  "del_kvp_from_sip_message sip key idx =
     assert_key key
       (case find_kvp key idx (s_kvps sip) of
          None \<Rightarrow> Inr sip
        | Some i \<Rightarrow>
            let prev = (if i = 0 then None else Some (k_addr (s_kvps sip ! (i - 1))))
            in Inr (sip\<lparr>s_kvps := take i (s_kvps sip) @ drop (Suc i) (s_kvps sip),
                        s_tail := (if s_tail sip = Some (k_addr (s_kvps sip ! i)) then prev else s_tail sip),
                        s_num := s_num sip - 1\<rparr>))"

text \<open>Linking a node after the node at an address; a node that is not in the chain does not change it.\<close>

fun link_after :: "nat \<Rightarrow> kvp_t \<Rightarrow> kvp_t list \<Rightarrow> kvp_t list" where
  "link_after a kvp [] = []"
| "link_after a kvp (k # ks) = (if k_addr k = a then k # kvp # ks else k # link_after a kvp ks)"

definition add_kvp_to_sip_message ::
  "sip_message_t \<Rightarrow> kvp_t \<Rightarrow> string option \<Rightarrow> int \<Rightarrow> (int \<times> sip_message_t) cres" where
  "add_kvp_to_sip_message sip kvp key idx =
     bindE
       (case key of
          None \<Rightarrow> Inr (s_tail sip)
        | Some k \<Rightarrow> bindE (get_kvp_from_sip_message sip k idx) (\<lambda>r.
            Inr (case r of None \<Rightarrow> s_tail sip | Some p \<Rightarrow> Some (k_addr p))))
       (\<lambda>prev.
          let kvps = (case prev of
                        Some a \<Rightarrow> link_after a kvp (s_kvps sip)
                      | None \<Rightarrow> if s_kvps sip = [] then [kvp] else s_kvps sip)
          in Inr (SC_SUCCESS,
                  sip\<lparr>s_kvps := kvps,
                      s_tail := (if prev = None \<or> prev = s_tail sip then Some (k_addr kvp) else s_tail sip),
                      s_num := s_num sip + 1\<rparr>))"

section \<open>Values of a header\<close>

definition attr_is :: "val_t \<Rightarrow> string \<Rightarrow> bool" where
  "attr_is v attr \<longleftrightarrow> buf_is (v_attr v) attr"

definition is_attribute_included :: "kvp_t \<Rightarrow> string \<Rightarrow> bool cres" where
  "is_attribute_included kvp attr =
     assert_key attr (Inr (list_ex (\<lambda>v. attr_is v attr) (vl_vals (k_vlst kvp))))"

definition get_num_of_values_from_kvp :: "kvp_t \<Rightarrow> int" where
  "get_num_of_values_from_kvp kvp = vl_num (k_vlst kvp)"

definition val_bytes :: "val_t \<Rightarrow> string" where
  "val_bytes v = (case v_val v of None \<Rightarrow> [] | Some t \<Rightarrow> t)"

text \<open>The walks by index follow \<^verbatim>\<open>next\<close> without a test; the guard compares with the number of values.\<close>

definition get_value_from_kvp_by_idx :: "kvp_t \<Rightarrow> int \<Rightarrow> string option cres" where
  "get_value_from_kvp_by_idx kvp idx =
     (if idx < 0 then Inl AssertFail
      else if vl_num (k_vlst kvp) \<le> idx then Inr None
      else if nat idx < length (vl_vals (k_vlst kvp))
      then Inr (Some (val_bytes (vl_vals (k_vlst kvp) ! nat idx)))
      else Inl NullDeref)"

definition get_value_from_kvp_by_name :: "kvp_t \<Rightarrow> string \<Rightarrow> string option cres" where
  "get_value_from_kvp_by_name kvp attr =
     assert_key attr (Inr (map_option val_bytes (List.find (\<lambda>v. attr_is v attr) (vl_vals (k_vlst kvp)))))"

definition set_vals :: "kvp_t \<Rightarrow> val_t list \<Rightarrow> kvp_t" where
  "set_vals kvp vals = kvp\<lparr>k_vlst := (k_vlst kvp)\<lparr>vl_vals := vals\<rparr>\<rparr>"

definition change_value_from_kvp_by_idx :: "kvp_t \<Rightarrow> int \<Rightarrow> string \<Rightarrow> kvp_t cres" where
  "change_value_from_kvp_by_idx kvp idx value =
     (let vals = vl_vals (k_vlst kvp) in
      if idx < 0 \<or> value = [] then Inl AssertFail
      else if nat idx < length vals
      then Inr (set_vals kvp (vals[nat idx := (vals ! nat idx)\<lparr>v_val := Some value\<rparr>]))
      else if nat idx = length vals then Inr kvp
      else Inl NullDeref)"

definition change_value_from_kvp_by_name :: "kvp_t \<Rightarrow> string \<Rightarrow> string \<Rightarrow> kvp_t cres" where
  "change_value_from_kvp_by_name kvp attr value =
     (if attr = [] \<or> value = [] then Inl AssertFail
      else Inr (set_vals kvp (map (\<lambda>v. if attr_is v attr then v\<lparr>v_val := Some value\<rparr> else v)
                               (vl_vals (k_vlst kvp)))))"

text \<open>The deletions leave the number of values as it is, and read \<^verbatim>\<open>curr->next\<close> also when \<^verbatim>\<open>curr\<close> is NULL.\<close>

definition del_value_from_kvp_by_idx :: "kvp_t \<Rightarrow> int \<Rightarrow> kvp_t cres" where
  "del_value_from_kvp_by_idx kvp idx =
     (let vals = vl_vals (k_vlst kvp) in
      if idx < 0 then Inl AssertFail
      else if nat idx < length vals
      then Inr (set_vals kvp (take (nat idx) vals @ drop (Suc (nat idx)) vals))
      else Inl NullDeref)"

fun unlink_val :: "string \<Rightarrow> val_t list \<Rightarrow> val_t list cres" where
  "unlink_val attr [] = Inl NullDeref"
| "unlink_val attr (v # vs) =
     (if attr_is v attr then Inr vs else bindE (unlink_val attr vs) (\<lambda>vs'. Inr (v # vs')))"

definition del_value_from_kvp_by_name :: "kvp_t \<Rightarrow> string \<Rightarrow> kvp_t cres" where
  "del_value_from_kvp_by_name kvp attr =
     assert_key attr (bindE (unlink_val attr (vl_vals (k_vlst kvp))) (\<lambda>vals. Inr (set_vals kvp vals)))"

section \<open>Parsing\<close>

definition to_lower_char :: "char \<Rightarrow> char" where
  "to_lower_char c = (if 65 \<le> (of_char c :: nat) \<and> (of_char c :: nat) \<le> 90 then char_of ((of_char c :: nat) + 32) else c)"

definition to_lower :: "string \<Rightarrow> string" where
  "to_lower s = map to_lower_char s"

abbreviation is_space :: "char \<Rightarrow> bool" where "is_space c \<equiv> c = CHR '' ''"

definition at_space :: "string \<Rightarrow> bool" where
  "at_space p = (case p of [] \<Rightarrow> False | c # _ \<Rightarrow> is_space c)"

definition word_char :: "char \<Rightarrow> bool" where
  "word_char c \<longleftrightarrow> \<not> is_space c \<and> c \<noteq> NL"

text \<open>
  The first line, a C string given by its contents: the first word tells requests from responses,
  the second one is the additional information, and the rest of a response is its name.
\<close>

definition first_word :: "sip_message_t \<Rightarrow> string \<Rightarrow> sip_message_t" where
  "first_word sip tok =
     (if length tok = 7 \<and> strncmp_eq tok SIP_VERSION_TOKEN 7
      then sip\<lparr>s_version := Some SIP_VERSION_TOKEN, s_mtype := SC_SIP_RESPONSE\<rparr>
      else sip\<lparr>s_version := Some SIP_VERSION_TOKEN, s_mtype := SC_SIP_REQUEST,
               s_mname := Some (to_lower tok)\<rparr>)"

definition parse_sip_first_line :: "sip_message_t \<Rightarrow> string \<Rightarrow> sip_message_t" where
  "parse_sip_first_line sip line =
     (let p0 = dropWhile is_space line;
          p1 = dropWhile word_char p0;
          sip1 = (if at_space p1 then first_word sip (takeWhile word_char p0) else sip);
          p2 = dropWhile is_space p1;
          p3 = dropWhile word_char p2;
          sip2 = (if at_space p3 then sip1\<lparr>s_additional := Some (takeWhile word_char p2)\<rparr> else sip1);
          p4 = dropWhile is_space p3
      in if s_mtype sip2 = SC_SIP_RESPONSE
         then sip2\<lparr>s_mname := Some (to_lower (takeWhile (\<lambda>c. c \<noteq> CR \<and> c \<noteq> NL) p4))\<rparr>
         else sip2)"

text \<open>
  A header line, with what follows its terminating NUL in memory. Without a colon in the line the
  search runs on behind it, and no header comes out of it. \<open>past\<close> is the byte that will follow the
  copy of the value.
\<close>

definition parse_key_value_line :: "nat \<Rightarrow> string \<Rightarrow> string \<Rightarrow> char \<Rightarrow> kvp_t option cres" where
  "parse_key_value_line addr line after past =
     (if CHR '':'' \<in> set line then
        let key = takeWhile (\<lambda>c. c \<noteq> CHR '':'') line;
            value = dropWhile is_space (drop (Suc (length key)) line)
        in if value \<noteq> [] \<and> key \<noteq> [] then bindE (init_kvp addr key value past) (\<lambda>k. Inr (Some k))
           else Inr None
      else
        case dropWhile (\<lambda>c. c \<noteq> CHR '':'' \<and> c \<noteq> NL) after of
          [] \<Rightarrow> Inl OutOfBounds
        | _ # p \<Rightarrow> if dropWhile is_space p = [] then Inl OutOfBounds else Inr None)"

definition is_status_code_message :: "sip_message_t \<Rightarrow> string \<Rightarrow> bool" where
  "is_status_code_message sip code \<longleftrightarrow> s_mtype sip = SC_SIP_RESPONSE \<and> buf_is (s_additional sip) code"

definition is_register_message :: "sip_message_t \<Rightarrow> bool" where
  "is_register_message sip \<longleftrightarrow> buf_is (s_mname sip) ''register''"

definition is_401_unauthorized_message :: "sip_message_t \<Rightarrow> bool" where
  "is_401_unauthorized_message sip = is_status_code_message sip ''401''"

definition is_200_ok_message :: "sip_message_t \<Rightarrow> bool" where
  "is_200_ok_message sip = is_status_code_message sip ''200''"

definition crlf :: "char \<Rightarrow> bool" where
  "crlf c \<longleftrightarrow> c = CR \<or> c = NL"

text \<open>
  The loop over the lines that \<^verbatim>\<open>strtok\<close> delivers; \<open>mem\<close> is the memory behind the part that was
  searched so far, and \<open>pasts\<close> the bytes that happen to follow the successive copies of the values.
  The address of a new header is the number of lines seen before it.
\<close>

function parse_lines ::
  "nat \<Rightarrow> string \<Rightarrow> string \<Rightarrow> (nat \<Rightarrow> char) \<Rightarrow> sip_message_t \<Rightarrow> sip_message_t cres" where
  "parse_lines addr text mem pasts sip =
     (case strtok crlf text of
        None \<Rightarrow> Inr sip
      | Some (line, rest) \<Rightarrow>
          bindE (parse_key_value_line addr line (rest @ mem) (pasts addr)) (\<lambda>r.
            bindE (case r of
                     None \<Rightarrow> Inr sip
                   | Some kvp \<Rightarrow> bindE (add_kvp_to_sip_message sip kvp None 0) (\<lambda>x. Inr (snd x)))
              (parse_lines (Suc addr) rest mem pasts)))"
  by pat_completeness auto
termination
  by (relation "measure (\<lambda>(addr, text, mem, pasts, sip). length text)") (auto dest: strtok_rest_shorter)

declare parse_lines.simps [simp del]

definition null_sip_message :: sip_message_t where
  "null_sip_message =
     \<lparr>s_version = None, s_mtype = 0, s_mname = None, s_additional = None, s_num = 0, s_kvps = [],
      s_tail = None\<rparr>"

text \<open>
  The copy \<^verbatim>\<open>orig\<close> of the message has no terminating NUL of its own: the string that \<^verbatim>\<open>strtok\<close> works on
  ends with the first NUL in the message or in the memory \<open>mem\<close> behind the copy.
\<close>

definition init_sip_message :: "string \<Rightarrow> string \<Rightarrow> (nat \<Rightarrow> char) \<Rightarrow> sip_message_t cres" where
  "init_sip_message buf mem pasts =
     (if buf = [] then Inl AssertFail
      else if NUL \<notin> set (buf @ mem) then Inl OutOfBounds
      else
        let text = cstr (buf @ mem);
            behind = drop (length text) (buf @ mem)
        in case strtok crlf text of
             None \<Rightarrow> Inl NullDeref
           | Some (line, rest) \<Rightarrow>
               let sip = parse_sip_first_line null_sip_message line
               in if is_register_message sip \<or> is_401_unauthorized_message sip \<or> is_200_ok_message sip
                  then parse_lines 0 rest behind pasts sip
                  else Inr sip)"

section \<open>Serialisation\<close>

fun serialize_kvps :: "kvp_t list \<Rightarrow> string cres" where
  "serialize_kvps [] = Inr []"
| "serialize_kvps (k # ks) =
     bindE (serialize_value k) (\<lambda>v.
       bindE (serialize_kvps ks) (\<lambda>r. Inr (k_key k @ '': '' @ v @ [CR, NL] @ r)))"

definition opt_bytes :: "string option \<Rightarrow> string" where
  "opt_bytes b = (case b of None \<Rightarrow> [] | Some s \<Rightarrow> s)"

definition serialize_first_line :: "sip_message_t \<Rightarrow> string" where
  "serialize_first_line sip =
     (if s_mtype sip = SC_SIP_REQUEST
      then opt_bytes (s_mname sip) @ '' '' @ opt_bytes (s_additional sip) @ '' '' @ SIP_VERSION_TOKEN @ [CR, NL]
      else SIP_VERSION_TOKEN @ '' '' @ opt_bytes (s_additional sip) @ '' '' @ opt_bytes (s_mname sip) @ [CR, NL])"

definition serialize_sip_message :: "sip_message_t \<Rightarrow> string cres" where
  "serialize_sip_message sip =
     bindE (serialize_kvps (s_kvps sip)) (\<lambda>body.
       let text = serialize_first_line sip @ body @ [CR, NL]
       in if length text \<le> SC_BUF_LENGTH then Inr text else Inl OutOfBounds)"

end
