(* ===== verification/Sip_Process.thy ===== *)
theory Sip_Process
  imports Sip_Query Sip_Message
begin

text \<open>
  What the IMS server does with a SIP message during a test (\<^verbatim>\<open>process_query\<close> and \<^verbatim>\<open>report_message\<close> of
  \<^verbatim>\<open>sip_controller.c\<close>, and their callers in \<^verbatim>\<open>receive.c\<close> and \<^verbatim>\<open>tcp_main.c\<close>): the values of a response are
  changed as the query says, and the message is reported to the controller.
\<close>

section \<open>Changing a header\<close>

text \<open>Assignment through the pointer to a node of the list of headers.\<close>

definition put_kvp :: "sip_message_t \<Rightarrow> kvp_t \<Rightarrow> sip_message_t" where
  "put_kvp sip kvp = sip\<lparr>s_kvps := map (\<lambda>k. if k_addr k = k_addr kvp then kvp else k) (s_kvps sip)\<rparr>"

definition change_header :: "sip_message_t \<Rightarrow> kvp_t option \<Rightarrow> string \<Rightarrow> string \<Rightarrow> sip_message_t cres" where
  "change_header sip kvp attr value =
     (case kvp of
        None \<Rightarrow> Inr sip
      | Some k \<Rightarrow> bindE (change_value_from_kvp_by_name k attr value) (\<lambda>k'. Inr (put_kvp sip k')))"

definition drop_header :: "sip_message_t \<Rightarrow> kvp_t option \<Rightarrow> string \<Rightarrow> sip_message_t cres" where
  "drop_header sip kvp attr =
     (case kvp of
        None \<Rightarrow> Inr sip
      | Some k \<Rightarrow> bindE (del_value_from_kvp_by_name k attr) (\<lambda>k'. Inr (put_kvp sip k')))"

definition UNAUTHORIZED_401 :: string where "UNAUTHORIZED_401 = ''401_unauthorized''"
definition OK_200 :: string where "OK_200 = ''200_ok''"
definition WWW_AUTHENTICATE :: string where "WWW_AUTHENTICATE = ''WWW-Authenticate''"
definition SECURITY_SERVER :: string where "SECURITY_SERVER = ''Security-Server''"

section \<open>The values\<close>

definition value_eq :: "string \<Rightarrow> int \<Rightarrow> string \<Rightarrow> bool" where
  "value_eq tmp tlen s \<longleftrightarrow> tlen = int (length s) \<and> strncmp_eq (cstr tmp) s (nat tlen)"

text \<open>A character from the result of \<^verbatim>\<open>rand\<close>.\<close>

definition random_char :: "nat \<Rightarrow> char" where
  "random_char r = (let d = r mod 36 in char_of (if d < 10 then d + 48 else d + 55))"

text \<open>The new nonce of the length of the old one; its last character is overwritten.\<close>

definition nonce_fill :: "(nat \<Rightarrow> nat) \<Rightarrow> string \<Rightarrow> int \<Rightarrow> nat \<Rightarrow> string" where
  "nonce_fill rand tmp tlen vlen =
     (if value_eq tmp tlen ''max'' then replicate vlen (CHR ''F'')
      else if value_eq tmp tlen ''min'' then replicate vlen (CHR ''0'')
      else if value_eq tmp tlen ''median'' then replicate vlen (CHR ''8'')
      else if value_eq tmp tlen ''mean'' then replicate vlen (CHR ''8'')
      else if value_eq tmp tlen ''random'' then map (\<lambda>i. random_char (rand i)) [0..<vlen]
      else replicate vlen (CHR ''0''))"

definition algorithm_value :: "string \<Rightarrow> string" where
  "algorithm_value tmp =
     (if strstr tmp ''AKAv1'' then
        (if strstr tmp ''sess'' then ''AKAv1-MD5-sess''
         else if strstr tmp ''SHA-256'' then ''AKAv1-SHA-256''
         else ''AKAv1-MD5'')
      else if strstr tmp ''SHA-256'' then ''SHA-256''
      else ''MD5'')"

definition alg_value :: "string \<Rightarrow> string" where
  "alg_value tmp =
     (if strstr tmp ''hmac-md5-96'' then ''hmac-md5-96''
      else if strstr tmp ''hmac-sha-1-96'' then ''hmac-sha-1-96''
      else ''hmac-md5-96'')"

definition ealg_value :: "string \<Rightarrow> string" where
  "ealg_value tmp =
     (if strstr tmp ''des-ede3-cbc'' then ''des-ede3-cbc''
      else if strstr tmp ''null'' then ''null''
      else if strstr tmp ''aes256-cbc'' then ''aes256-cbc''
      else ''null'')"

definition prot_value :: "string \<Rightarrow> string" where
  "prot_value tmp =
     (if strstr tmp ''null'' then ''null''
      else if strstr tmp ''esp'' then ''esp''
      else if strstr tmp ''ah'' then ''ah''
      else if strstr tmp ''trans'' then ''trans''
      else ''null'')"

definition mod_value :: "string \<Rightarrow> string" where
  "mod_value tmp =
     (if strstr tmp ''trans'' then ''trans''
      else if strstr tmp ''null'' then ''null''
      else if strstr tmp ''tun'' then ''tun''
      else ''null'')"

section \<open>The blocks of process_query\<close>

text \<open>
  The nonce: the header must be there; without the attribute the length \<^verbatim>\<open>vlen\<close> of its value is not
  assigned.
\<close>

definition nonce_block ::
  "(nat \<Rightarrow> nat) \<Rightarrow> sheap \<Rightarrow> sip_instance_t \<Rightarrow> sip_message_t \<Rightarrow> sip_message_t cres" where
  "nonce_block rand h inst sip =
     bindE (sip_query_at h inst UNAUTHORIZED_401 [''www_authenticate'', ''nonce'']) (\<lambda>query.
       if query = None then Inr sip
       else
         bindE (get_kvp_from_sip_message sip WWW_AUTHENTICATE 0) (\<lambda>kvp.
         case kvp of
           None \<Rightarrow> Inl AssertFail
         | Some k \<Rightarrow>
             bindE (get_value_from_kvp_by_name k ''nonce'') (\<lambda>value.
             bindE (sip_get_query_value_type h query) (\<lambda>vtype.
             bindE (sip_get_query_operator h query) (\<lambda>opr.
               if vtype = VAL_TYPE_STRING \<and> opr = OP_TYPE_UPDATE then
                 bindE (sip_get_query_value h query) (\<lambda>(tmp, tlen).
                   case value of
                     None \<Rightarrow> Inl UninitRead
                   | Some old \<Rightarrow>
                       if old = [] then Inl OutOfBounds
                       else change_header sip kvp ''nonce''
                              ((nonce_fill rand tmp tlen (length old))[length old - 1 := CHR ''='']))
               else if opr = OP_TYPE_DROP then drop_header sip kvp ''nonce''
               else Inr sip)))))"

text \<open>The other attributes: the new value is chosen by the words that occur in the query's value.\<close>

definition attr_block ::
  "string list \<Rightarrow> string \<Rightarrow> string \<Rightarrow> (string \<Rightarrow> string) \<Rightarrow> sheap \<Rightarrow> sip_instance_t \<Rightarrow> sip_message_t \<Rightarrow>
   sip_message_t cres" where
  "attr_block path key attr pick h inst sip =
     bindE (sip_query_at h inst UNAUTHORIZED_401 path) (\<lambda>query.
       if query = None then Inr sip
       else
         bindE (get_kvp_from_sip_message sip key 0) (\<lambda>kvp.
         bindE (sip_get_query_value_type h query) (\<lambda>vtype.
         bindE (sip_get_query_operator h query) (\<lambda>opr.
           if vtype = VAL_TYPE_STRING \<and> opr = OP_TYPE_UPDATE then
             bindE (sip_get_query_value h query) (\<lambda>(tmp, tlen).
               change_header sip kvp attr (pick (cstr tmp)))
           else if opr = OP_TYPE_DROP then drop_header sip kvp attr
           else Inr sip))))"

text \<open>
  The block of the algorithm ends with a message of level error that prints the local \<^verbatim>\<open>val\<close>; only an
  update assigns it.
\<close>

definition algorithm_block :: "sheap \<Rightarrow> sip_instance_t \<Rightarrow> sip_message_t \<Rightarrow> sip_message_t cres" where
  "algorithm_block h inst sip =
     bindE (attr_block [''www_authenticate'', ''algorithm''] WWW_AUTHENTICATE ''algorithm'' algorithm_value
              h inst sip) (\<lambda>sip'.
     bindE (sip_query_at h inst UNAUTHORIZED_401 [''www_authenticate'', ''algorithm'']) (\<lambda>query.
       if query = None then Inr sip'
       else
         bindE (sip_get_query_value_type h query) (\<lambda>vtype.
         bindE (sip_get_query_operator h query) (\<lambda>opr.
           if vtype = VAL_TYPE_STRING \<and> opr = OP_TYPE_UPDATE then Inr sip' else Inl UninitRead))))"

definition alg_header_block :: "sheap \<Rightarrow> sip_instance_t \<Rightarrow> sip_message_t \<Rightarrow> sip_message_t cres" where
  "alg_header_block = attr_block [''security_server'', ''alg''] SECURITY_SERVER ''alg'' alg_value"

definition ealg_header_block :: "sheap \<Rightarrow> sip_instance_t \<Rightarrow> sip_message_t \<Rightarrow> sip_message_t cres" where
  "ealg_header_block = attr_block [''security_server'', ''ealg''] SECURITY_SERVER ''ealg'' ealg_value"

definition prot_header_block :: "sheap \<Rightarrow> sip_instance_t \<Rightarrow> sip_message_t \<Rightarrow> sip_message_t cres" where
  "prot_header_block = attr_block [''security_server'', ''prot''] SECURITY_SERVER ''prot'' prot_value"

definition mod_header_block :: "sheap \<Rightarrow> sip_instance_t \<Rightarrow> sip_message_t \<Rightarrow> sip_message_t cres" where
  "mod_header_block = attr_block [''security_server'', ''mod''] SECURITY_SERVER ''mod'' mod_value"

definition sip_process_query ::
  "(nat \<Rightarrow> nat) \<Rightarrow> sheap \<Rightarrow> sip_instance_t \<Rightarrow> sip_message_t \<Rightarrow> sip_message_t cres" where
  "sip_process_query rand h inst =
     seqE [nonce_block rand h inst, algorithm_block h inst, alg_header_block h inst,
           ealg_header_block h inst, prot_header_block h inst, mod_header_block h inst]"

section \<open>Reporting\<close>

text \<open>The symbol of a request, which also becomes the last request reported.\<close>

definition request_symbol :: "sip_instance_t \<Rightarrow> string \<Rightarrow> string" where
  "request_symbol inst mname =
     (if has_prefix mname ''register'' \<and> has_prefix (si_rprev inst) IKE_AUTH_3_REQUEST then ''register_1''
      else if has_prefix mname ''register'' \<and> has_prefix (si_rprev inst) ''register_1'' then ''register_2''
      else mname)"

text \<open>The symbol of a response, if the query that is waiting and the last response reported agree with it.\<close>

definition response_symbol ::
  "sheap \<Rightarrow> sip_instance_t \<Rightarrow> addr option \<Rightarrow> string \<Rightarrow> string option cres" where
  "response_symbol h inst query mname =
     bindE (sip_is_query_name h query UNAUTHORIZED_401) (\<lambda>b1.
       if b1 \<and> has_prefix mname ''unauthorized'' \<and> has_prefix (si_sprev inst) IKE_AUTH_3_REPLY
       then Inr (Some UNAUTHORIZED_401)
       else bindE (sip_is_query_name h query OK_200) (\<lambda>b2.
         Inr (if b2 \<and> has_prefix mname ''ok'' \<and> has_prefix (si_sprev inst) UNAUTHORIZED_401
              then Some OK_200 else None)))"

text \<open>Both messages of a report go to the send queue; whether there is room is not checked.\<close>

definition send_report :: "sip_instance_t \<Rightarrow> string option \<Rightarrow> sip_instance_t cres" where
  "send_report inst symbol =
     (case symbol of
        None \<Rightarrow> Inr inst
      | Some s \<Rightarrow>
          bindE (sip_init_message MSG_TYPE_BLOCK_START (Some s) VAL_TYPE_NONE None VAL_LENGTH_NONE) (\<lambda>m1.
          bindE (sip_add_message_to_send_queue inst m1) (\<lambda>(inst1, _).
          bindE (sip_init_message MSG_TYPE_BLOCK_END None VAL_TYPE_NONE None VAL_LENGTH_NONE) (\<lambda>m2.
          bindE (sip_add_message_to_send_queue inst1 m2) (\<lambda>(inst2, _). Inr inst2)))))"

text \<open>
  The wait for a query observes the states \<open>env\<close>; the state that ends it is the one the report goes on
  with. \<open>None\<close> when the wait goes on after all of them.
\<close>

primrec observed :: "(sheap \<times> sip_instance_t) list \<Rightarrow> (sheap \<times> sip_instance_t) option cres" where
  "observed [] = Inr None"
| "observed (s # env) =
     bindE (sip_must_wait (fst s) (snd s)) (\<lambda>wait.
       if wait \<and> \<not> si_finished (snd s) then observed env else Inr (Some s))"

definition report_request :: "sip_instance_t \<Rightarrow> string \<Rightarrow> sip_instance_t cres" where
  "report_request inst mname =
     (let symbol = request_symbol inst mname in send_report (inst\<lparr>si_rprev := symbol\<rparr>) (Some symbol))"

definition report_response ::
  "sheap \<Rightarrow> sip_instance_t \<Rightarrow> string option \<Rightarrow> (sheap \<times> sip_instance_t) list \<Rightarrow>
   (sheap \<times> sip_instance_t) option cres" where
  "report_response h inst mname env =
     (if si_running inst \<noteq> 0 \<and> \<not> si_finished inst then
        bindE (observed ((h, inst) # env)) (\<lambda>r.
          case r of
            None \<Rightarrow> Inr None
          | Some (h', inst') \<Rightarrow>
              (case sip_get_query inst' of
                 None \<Rightarrow> Inr (Some (h', inst'))
               | Some q \<Rightarrow>
                   (case mname of
                      None \<Rightarrow> Inl NullDeref
                    | Some nm \<Rightarrow>
                        bindE (response_symbol h' inst' (Some q) nm) (\<lambda>symbol.
                        bindE (send_report (case symbol of None \<Rightarrow> inst' | Some s \<Rightarrow> inst'\<lparr>si_sprev := s\<rparr>) symbol)
                          (\<lambda>inst''. Inr (Some (h', inst'')))))))
      else Inr (Some (h, inst)))"

definition report_message ::
  "sheap \<Rightarrow> sip_instance_t \<Rightarrow> sip_message_t \<Rightarrow> (sheap \<times> sip_instance_t) list \<Rightarrow>
   (sheap \<times> sip_instance_t) option cres" where
  "report_message h inst sip env =
     (if s_mtype sip = SC_SIP_REQUEST then
        (case s_mname sip of
           None \<Rightarrow> Inl NullDeref
         | Some mname \<Rightarrow> bindE (report_request inst mname) (\<lambda>inst'. Inr (Some (h, inst'))))
      else if s_mtype sip = SC_SIP_RESPONSE then report_response h inst (s_mname sip) env
      else Inr (Some (h, inst)))"

section \<open>The callers\<close>

text \<open>The part of \<^verbatim>\<open>receive_msg\<close> that reports a request that came in.\<close>

definition sip_receive ::
  "int \<Rightarrow> sheap \<Rightarrow> sip_instance_t \<Rightarrow> string \<Rightarrow> string \<Rightarrow> (nat \<Rightarrow> char) \<Rightarrow>
   (sheap \<times> sip_instance_t) option cres" where
  "sip_receive pid h inst buf mem pasts =
     (if sip_check_instance pid (Some inst) then
        bindE (init_sip_message buf mem pasts) (\<lambda>sip.
          if s_mtype sip = SC_SIP_REQUEST then report_message h inst sip [] else Inr (Some (h, inst)))
      else Inr (Some (h, inst)))"

text \<open>
  The part of \<^verbatim>\<open>tcp_send\<close> that reports a response, changes it and puts the serialised message in the
  place of the original one. The result also has the bytes that are sent; whether they fit the buffer
  of the caller, whose size the function does not know, is not part of the model.
\<close>

definition sip_tcp_send ::
  "(nat \<Rightarrow> nat) \<Rightarrow> int \<Rightarrow> sheap \<Rightarrow> sip_instance_t \<Rightarrow> string \<Rightarrow> string \<Rightarrow> (nat \<Rightarrow> char) \<Rightarrow>
   (sheap \<times> sip_instance_t) list \<Rightarrow> ((sheap \<times> sip_instance_t) \<times> string) option cres" where
  "sip_tcp_send rand pid h inst buf mem pasts env =
     (if sip_check_instance pid (Some inst) then
        bindE (init_sip_message buf mem pasts) (\<lambda>sip.
          if s_mtype sip = SC_SIP_RESPONSE then
            bindE (report_message h inst sip env) (\<lambda>r.
              case r of
                None \<Rightarrow> Inr None
              | Some (h', inst') \<Rightarrow>
                  bindE (sip_process_query rand h' inst' sip) (\<lambda>sip'.
                  bindE (serialize_sip_message sip') (\<lambda>out. Inr (Some ((h', inst'), out)))))
          else Inr (Some ((h, inst), buf)))
      else Inr (Some ((h, inst), buf)))"

end
