(* ===== verification/Sip_Roundtrip.thy ===== *)
theory Sip_Roundtrip
  imports Sip_Lists
begin

text \<open>
  When parsing and serialising gives back what was parsed: for a header value without a second
  unquoted equals sign between two delimiters, and for a response made of such headers, up to the
  letters of the reason phrase, which become small.
\<close>

section \<open>Values\<close>

text \<open>The state of \<^verbatim>\<open>init_val\<close> after some bytes: inside quotes, and the number of equals signs outside.\<close>

fun val_scan :: "string \<Rightarrow> bool \<Rightarrow> nat \<Rightarrow> bool \<times> nat" where
  "val_scan [] quoted n = (quoted, n)"
| "val_scan (c # cs) quoted n =
     (if \<not> quoted \<and> c = CHR ''='' then val_scan cs quoted (Suc n)
      else val_scan cs (if c = CHR 0x22 then \<not> quoted else quoted) n)"

lemma val_scan_snoc:
  "val_scan (cs @ [c]) quoted n =
     (case val_scan cs quoted n of (q, m) \<Rightarrow> val_scan [c] q m)"
  by (induction cs quoted n rule: val_scan.induct) auto

lemma val_scan_mono: "val_scan cs quoted n = (q, m) \<Longrightarrow> n \<le> m"
  by (induction cs quoted n rule: val_scan.induct) (auto split: if_splits)

lemma val_scan_shift: "val_scan cs quoted (Suc n) = (q, Suc m) \<longleftrightarrow> val_scan cs quoted n = (q, m)"
  by (induction cs quoted n rule: val_scan.induct) auto

lemma init_val_loop_plain:
  "val_scan cs quoted n = (False, n) \<Longrightarrow> length t + length cs < SC_BUF_LENGTH \<Longrightarrow>
   init_val_loop cs t quoted v = Inr (v\<lparr>v_val := Some (t @ cs)\<rparr>)"
  by (induction cs t quoted v rule: init_val_loop.induct)
    (auto split: if_splits dest: val_scan_mono)

lemma init_val_loop_skip:
  "val_scan cs quoted n = (False, n) \<Longrightarrow> length t + length cs < SC_BUF_LENGTH \<Longrightarrow>
   init_val_loop (cs @ ds) t quoted v = init_val_loop ds (t @ cs) False v"
  by (induction cs t quoted v rule: init_val_loop.induct) (auto split: if_splits dest: val_scan_mono)

lemma init_val_loop_attr:
  "val_scan cs quoted n = (False, Suc n) \<Longrightarrow> length t + length cs < SC_BUF_LENGTH \<Longrightarrow>
   \<exists>a b. init_val_loop cs t quoted v = Inr (v\<lparr>v_attr := Some a, v_val := Some b\<rparr>) \<and> t @ cs = a @ ''='' @ b"
proof (induction cs t quoted v rule: init_val_loop.induct)
  case (2 c cs t quoted v)
  show ?case
  proof (cases "\<not> quoted \<and> c = CHR ''=''")
    case True
    then have "init_val_loop cs [] quoted (v\<lparr>v_attr := Some t\<rparr>) = Inr (v\<lparr>v_attr := Some t, v_val := Some cs\<rparr>)"
      using 2(3,4) init_val_loop_plain [of cs quoted "Suc n" "[]"] by simp
    then show ?thesis using True by auto
  next
    case False
    then show ?thesis using 2(2) [OF False] 2(3,4) by auto
  qed
qed simp

lemma init_val_text:
  assumes "val_scan q False 0 = (False, n)" and "n \<le> 1" and "length q < SC_BUF_LENGTH"
  shows "\<exists>v. init_val q d sp = Inr v \<and>
    val_text v = q @ (if d \<noteq> NUL then [d] else []) @ (if sp then '' '' else [])"
proof (cases n)
  case 0
  then show ?thesis
    using assms init_val_loop_plain [of q False 0 "[]"] by (auto simp: init_val_def val_text_def)
next
  case (Suc m)
  then have "val_scan q False 0 = (False, Suc 0)" using assms by simp
  from init_val_loop_attr [OF this, of "[]"] assms(3) show ?thesis
    by (fastforce simp: init_val_def val_text_def)
qed

text \<open>
  A value whose parts between delimiters have balanced quotes and at most one equals sign outside of
  them, and that ends outside of quotes and angle brackets.
\<close>

fun value_clean :: "bool \<Rightarrow> bool \<Rightarrow> bool \<Rightarrow> string \<Rightarrow> bool" where
  "value_clean inside quoted seen [] \<longleftrightarrow> \<not> inside \<and> \<not> quoted"
| "value_clean inside quoted seen (c # cs) \<longleftrightarrow>
     (if \<not> inside \<and> (c = CHR '';'' \<or> c = CHR '' '' \<or> c = CHR '','')
      then \<not> quoted \<and> value_clean inside False False cs
      else if \<not> quoted \<and> c = CHR ''='' then \<not> seen \<and> value_clean inside quoted True cs
      else value_clean (step_inside c inside) (if c = CHR 0x22 then \<not> quoted else quoted) seen cs)"

definition vals_text :: "vlst_t \<Rightarrow> string" where
  "vals_text vl = concat (map val_text (vl_vals vl))"

lemma flush_val_text:
  assumes "val_scan tmp False 0 = (False, n)" and "n \<le> 1" and "length tmp < SC_BUF_LENGTH"
  shows "\<exists>vl'. flush_val vl tmp d sp = Inr vl' \<and>
    vals_text vl' = vals_text vl @ tmp @ (if d \<noteq> NUL then [d] else []) @ (if sp then '' '' else [])"
  using init_val_text [OF assms, of d sp] assms(3)
  by (auto simp: flush_val_def vals_text_def add_val_to_vlst_def)

lemma init_vlst_loop_text:
  assumes "value_clean inside quoted seen cs" and "val_scan tmp False 0 = (quoted, if seen then 1 else 0)"
    and "length tmp + length cs < SC_BUF_LENGTH" and "past \<noteq> CHR '';''" and "past \<noteq> CHR '' ''"
  shows "\<exists>vl'. init_vlst_loop cs past tmp inside vl = Inr vl' \<and> vals_text vl' = vals_text vl @ tmp @ cs"
  using assms
proof (induction "length cs" arbitrary: cs tmp inside quoted seen vl rule: less_induct)
  case less
  note prems = less.prems
  have flush: "\<exists>vl'. flush_val vl tmp d sp = Inr vl' \<and>
      vals_text vl' = vals_text vl @ tmp @ (if d \<noteq> NUL then [d] else []) @ (if sp then '' '' else [])"
    if "\<not> quoted" for d sp
    using flush_val_text [of tmp "if seen then 1 else 0"] prems(2,3) that by auto
  have after: "\<exists>vl''. init_vlst_loop ds past [] False vl' = Inr vl'' \<and> vals_text vl'' = vals_text vl' @ ds"
    if "length ds < length cs" and "value_clean False False False ds" for ds vl'
    using less.hyps [OF that(1) that(2), of "[]" vl'] that(1) prems(3,4,5) by simp
  show ?case
  proof (cases cs)
    case Nil
    then show ?thesis using prems flush [of NUL False] by auto
  next
    case (Cons c cs')
    consider "\<not> inside" "c = CHR '';''" | "\<not> inside" "c = CHR '' ''" | "\<not> inside" "c = CHR '',''"
      | "inside \<or> (c \<noteq> CHR '';'' \<and> c \<noteq> CHR '' '' \<and> c \<noteq> CHR '','')" by blast
    then show ?thesis
    proof cases
      case 1
      then have c: "\<not> quoted" "value_clean False False False cs'" using prems(1) Cons by auto
      obtain vl' where vl': "flush_val vl tmp (CHR '';'') False = Inr vl'" "vals_text vl' = vals_text vl @ tmp @ '';''"
        using flush [OF c(1), of "CHR '';''" False] by auto
      show ?thesis using after [of cs' vl'] c vl' 1 Cons by auto
    next
      case 2
      then have c: "\<not> quoted" "value_clean False False False cs'" using prems(1) Cons by auto
      obtain vl' where vl': "flush_val vl tmp NUL True = Inr vl'" "vals_text vl' = vals_text vl @ tmp @ '' ''"
        using flush [OF c(1), of NUL True] by auto
      show ?thesis using after [of cs' vl'] c vl' 2 Cons by auto
    next
      case 3
      then have c: "\<not> quoted" "value_clean False False False cs'" using prems(1) Cons by auto
      obtain vl1 where vl1: "flush_val vl tmp (CHR '','') False = Inr vl1" "vals_text vl1 = vals_text vl @ tmp @ '',''"
        using flush [OF c(1), of "CHR '',''" False] by auto
      obtain vl2 where vl2: "flush_val vl tmp (CHR '','') True = Inr vl2" "vals_text vl2 = vals_text vl @ tmp @ '', ''"
        using flush [OF c(1), of "CHR '',''" True] by auto
      show ?thesis
      proof (cases cs')
        case Nil
        then show ?thesis using after [of "[]" vl1] c vl1 3 Cons prems(5) by auto
      next
        case (Cons d ds)
        then have "d = CHR '' '' \<Longrightarrow> value_clean False False False ds" using c(2) by simp
        then show ?thesis
          using after [of cs' vl1] after [of ds vl2] c vl1 vl2 3 Cons \<open>cs = c # cs'\<close> by auto
      qed
    next
      case 4
      define seen' where "seen' = (seen \<or> \<not> quoted \<and> c = CHR ''='')"
      define quoted' where "quoted' = (if \<not> quoted \<and> c = CHR ''='' then quoted else if c = CHR 0x22 then \<not> quoted else quoted)"
      have "step_inside (CHR ''='') inside = inside" by (simp add: step_inside_def)
      then have cl: "value_clean (step_inside c inside) quoted' seen' cs'"
        and one: "\<not> quoted \<and> c = CHR ''='' \<Longrightarrow> \<not> seen"
        using prems(1) Cons 4 by (auto simp: seen'_def quoted'_def split: if_splits)
      have "val_scan (tmp @ [c]) False 0 = (quoted', if seen' then 1 else 0)"
        using prems(2) one by (auto simp: val_scan_snoc seen'_def quoted'_def)
      from less.hyps [OF _ cl this, of vl] show ?thesis using prems(3,4,5) Cons 4 by auto
    qed
  qed
qed

section \<open>Messages\<close>

text \<open>A header as it is written, and the headers that survive parsing and serialising.\<close>

definition header_line :: "string \<times> string \<Rightarrow> string" where
  "header_line h = fst h @ '': '' @ snd h @ [CR, NL]"

definition line_char :: "char \<Rightarrow> bool" where
  "line_char c \<longleftrightarrow> c \<noteq> CR \<and> c \<noteq> NL \<and> c \<noteq> NUL"

definition header_ok :: "string \<times> string \<Rightarrow> bool" where
  "header_ok h \<longleftrightarrow> fst h \<noteq> [] \<and> snd h \<noteq> [] \<and> hd (snd h) \<noteq> CHR '' '' \<and> CHR '':'' \<notin> set (fst h) \<and>
     list_all line_char (fst h) \<and> list_all line_char (snd h) \<and>
     value_clean False False False (snd h) \<and> length (snd h) < SC_BUF_LENGTH"

lemma init_vlst_text:
  assumes "value_clean False False False value" and "length value < SC_BUF_LENGTH"
    and "past \<noteq> CHR '';''" and "past \<noteq> CHR '' ''"
  shows "\<exists>vl. init_vlst value past = Inr vl \<and> vals_text vl = value"
  using init_vlst_loop_text [OF assms(1), of "[]" past "\<lparr>vl_num = 0, vl_vals = []\<rparr>"] assms(2,3,4)
  by (simp add: init_vlst_def vals_text_def)

lemma parse_header_line:
  assumes h: "header_ok (k, v)" and past: "past \<noteq> CHR '';''" "past \<noteq> CHR '' ''"
  shows "\<exists>kvp. parse_key_value_line addr (k @ '': '' @ v) after past = Inr (Some kvp) \<and>
    k_addr kvp = addr \<and> k_key kvp = k \<and> vals_text (k_vlst kvp) = v"
proof -
  have k: "k \<noteq> []" "CHR '':'' \<notin> set k" and v: "v \<noteq> []" "hd v \<noteq> CHR '' ''"
    and clean: "value_clean False False False v" "length v < SC_BUF_LENGTH"
    using h by (auto simp: header_ok_def)
  have key: "takeWhile (\<lambda>c. c \<noteq> CHR '':'') (k @ '': '' @ v) = k"
    using k(2) by (induction k) auto
  have val: "dropWhile is_space (drop (Suc (length k)) (k @ '': '' @ v)) = v"
    using v by (cases v) simp_all
  obtain vl where vl: "init_vlst v past = Inr vl" "vals_text vl = v"
    using init_vlst_text [OF clean past] by blast
  have "parse_key_value_line addr (k @ '': '' @ v) after past =
      Inr (Some \<lparr>k_addr = addr, k_key = k, k_vlst = vl\<rparr>)"
    unfolding parse_key_value_line_def Let_def key val using k v vl(1) by (simp add: init_kvp_def)
  then show ?thesis using vl(2) by simp
qed

lemma strtok_line:
  assumes "line \<noteq> []" and "list_all line_char line"
  shows "strtok crlf (line @ CR # NL # rest) = Some (line, NL # rest)"
    and "strtok crlf (NL # line @ CR # NL # rest) = Some (line, NL # rest)"
proof -
  have l: "\<not> crlf c" if "c \<in> set line" for c using assms that by (auto simp: list_all_iff line_char_def crlf_def)
  obtain c cs where line: "line = c # cs" using assms by (cases line) auto
  have d: "dropWhile crlf (line @ CR # NL # rest) = line @ CR # NL # rest" using line l by simp
  have t: "takeWhile (\<lambda>c. \<not> crlf c) (line @ CR # NL # rest) = line"
    and dw: "dropWhile (\<lambda>c. \<not> crlf c) (line @ CR # NL # rest) = CR # NL # rest"
    using l by (auto simp: takeWhile_append dropWhile_append crlf_def)
  show "strtok crlf (line @ CR # NL # rest) = Some (line, NL # rest)"
    using d t dw line by (simp add: strtok_def)
  have "dropWhile crlf (NL # line @ CR # NL # rest) = line @ CR # NL # rest" using d by (simp add: crlf_def)
  then show "strtok crlf (NL # line @ CR # NL # rest) = Some (line, NL # rest)"
    using t dw line by (simp add: strtok_def)
qed

lemma header_text_ok:
  "header_ok (k, v) \<Longrightarrow> k @ '': '' @ v \<noteq> [] \<and> list_all line_char (k @ '': '' @ v)"
  by (auto simp: header_ok_def line_char_def)

text \<open>Parsing the lines of good headers appends one node per header.\<close>

lemma parse_lines_headers:
  assumes "list_all header_ok hs" and "chain_ok sip" and "\<forall>k\<in>set (s_kvps sip). k_addr k < addr"
    and past: "\<forall>i. pasts i \<noteq> CHR '';'' \<and> pasts i \<noteq> CHR '' ''"
  shows "\<exists>sip' ks. parse_lines addr (NL # concat (map header_line hs) @ [CR, NL]) mem pasts sip = Inr sip' \<and>
    chain_ok sip' \<and> s_kvps sip' = s_kvps sip @ ks \<and>
    map (\<lambda>k. (k_key k, vals_text (k_vlst k))) ks = hs \<and>
    s_mtype sip' = s_mtype sip \<and> s_mname sip' = s_mname sip \<and> s_additional sip' = s_additional sip"
  using assms(1,2,3)
proof (induction hs arbitrary: addr sip)
  case Nil
  have "parse_lines addr [NL, CR, NL] mem pasts sip = Inr sip"
    by (simp add: parse_lines.simps strtok_def crlf_def)
  then show ?case using Nil by simp
next
  case (Cons h hs)
  obtain k v where h: "h = (k, v)" by (cases h)
  let ?rest = "NL # concat (map header_line hs) @ [CR, NL]"
  have ok: "header_ok (k, v)" using Cons.prems(1) h by simp
  have tok: "strtok crlf (NL # concat (map header_line (h # hs)) @ [CR, NL]) = Some (k @ '': '' @ v, ?rest)"
    using strtok_line(2) [of "k @ '': '' @ v" "concat (map header_line hs) @ [CR, NL]"] header_text_ok [OF ok] h
    by (simp add: header_line_def)
  obtain kvp where kvp: "parse_key_value_line addr (k @ '': '' @ v) (?rest @ mem) (pasts addr) = Inr (Some kvp)"
    "k_addr kvp = addr" "k_key kvp = k" "vals_text (k_vlst kvp) = v"
    using parse_header_line [OF ok, of "pasts addr" addr "?rest @ mem"] past by blast
  define sip1 where "sip1 = add_node (length (s_kvps sip)) kvp sip"
  have add: "add_kvp_to_sip_message sip kvp None 0 = Inr (SC_SUCCESS, sip1)"
    using add_kvp_node [OF Cons.prems(2), of None] by (simp add: sip1_def add_position_def)
  have "k_addr kvp \<notin> k_addr ` set (s_kvps sip)" using Cons.prems(3) kvp(2) by auto
  then have ok1: "chain_ok sip1" using chain_ok_add_node [OF Cons.prems(2)] by (simp add: sip1_def)
  have ks1: "s_kvps sip1 = s_kvps sip @ [kvp]" and same: "s_mtype sip1 = s_mtype sip"
    "s_mname sip1 = s_mname sip" "s_additional sip1 = s_additional sip"
    by (simp_all add: sip1_def add_node_def)
  have "\<forall>k\<in>set (s_kvps sip1). k_addr k < Suc addr" using ks1 Cons.prems(3) kvp(2) by auto
  from Cons.IH [OF _ ok1 this] Cons.prems(1) obtain sip' ks where
    r: "parse_lines (Suc addr) ?rest mem pasts sip1 = Inr sip'" "chain_ok sip'" "s_kvps sip' = s_kvps sip1 @ ks"
    "map (\<lambda>k. (k_key k, vals_text (k_vlst k))) ks = hs" "s_mtype sip' = s_mtype sip1"
    "s_mname sip' = s_mname sip1" "s_additional sip' = s_additional sip1" by auto
  have step: "parse_lines addr (NL # concat (map header_line (h # hs)) @ [CR, NL]) mem pasts sip = Inr sip'"
    using tok kvp(1) add r(1) by (subst parse_lines.simps) simp
  have "map (\<lambda>k. (k_key k, vals_text (k_vlst k))) (kvp # ks) = h # hs" using r(4) kvp h by simp
  then show ?case using step r ks1 same by (intro exI [of _ sip'] exI [of _ "kvp # ks"]) simp
qed

text \<open>The first line of a response.\<close>

definition status_line :: "string \<Rightarrow> string \<Rightarrow> string" where
  "status_line code reason = SIP_VERSION_TOKEN @ '' '' @ code @ '' '' @ reason"

lemma parse_status_line:
  assumes code: "code = ''401'' \<or> code = ''200''" and reason: "list_all line_char reason"
    "\<not> at_space reason"
  shows "parse_sip_first_line null_sip_message (status_line code reason) =
    null_sip_message\<lparr>s_version := Some SIP_VERSION_TOKEN, s_mtype := SC_SIP_RESPONSE,
      s_additional := Some code, s_mname := Some (to_lower reason)\<rparr>"
proof -
  have d: "dropWhile is_space reason = reason" using reason(2) by (cases reason) (auto simp: at_space_def)
  have t: "takeWhile (\<lambda>c. c \<noteq> CR \<and> c \<noteq> NL) reason = reason"
    using reason(1) by (auto simp: takeWhile_eq_all_conv list_all_iff line_char_def)
  have words: "dropWhile is_space (status_line code reason) = status_line code reason"
    "dropWhile word_char (status_line code reason) = CHR '' '' # code @ CHR '' '' # reason"
    "takeWhile word_char (status_line code reason) = SIP_VERSION_TOKEN"
    by (simp_all add: status_line_def SIP_VERSION_TOKEN_def word_char_def)
  have codes: "dropWhile is_space (code @ CHR '' '' # reason) = code @ CHR '' '' # reason"
    "dropWhile word_char (code @ CHR '' '' # reason) = CHR '' '' # reason"
    "takeWhile word_char (code @ CHR '' '' # reason) = code"
    using code by (elim disjE; simp add: word_char_def)+
  have first: "first_word sip SIP_VERSION_TOKEN =
      sip\<lparr>s_version := Some SIP_VERSION_TOKEN, s_mtype := SC_SIP_RESPONSE\<rparr>" for sip
    by (simp add: first_word_def SIP_VERSION_TOKEN_def cstr_simps)
  show ?thesis
    by (simp add: parse_sip_first_line_def Let_def words codes at_space_def d t first)
qed

lemma serialize_kvps_headers:
  "map (\<lambda>k. (k_key k, vals_text (k_vlst k))) ks = hs \<Longrightarrow> list_all header_ok hs \<Longrightarrow>
   serialize_kvps ks = Inr (concat (map header_line hs))"
proof (induction ks arbitrary: hs)
  case (Cons k ks)
  then have "serialize_value k = Inr (vals_text (k_vlst k))"
    by (auto simp: serialize_value_def vals_text_def header_ok_def)
  then show ?case using Cons by (auto simp: header_line_def)
qed simp

end
