(* ===== verification/Sip_Sim.thy ===== *)
theory Sip_Sim
  imports Sip_Query Listener_Run
begin

text \<open>
  The listener of the IMS server refines the one of the ePDG: on related states every line gives the
  same fault or related states again, except that the arrays of 256 bytes and the indentation of the
  printed query add ways to leave a buffer.
\<close>

section \<open>Outcomes\<close>

text \<open>The same outcome, up to a relation of the results; the left side may leave a buffer unless \<open>fits\<close>.\<close>

definition ref_res :: "bool \<Rightarrow> ('a \<Rightarrow> 'b \<Rightarrow> bool) \<Rightarrow> 'a cres \<Rightarrow> 'b cres \<Rightarrow> bool" where
  "ref_res fits R x y \<longleftrightarrow> \<not> fits \<and> x = Inl OutOfBounds \<or> rel_sum (=) R x y"

lemma ref_res_Inr [simp]: "ref_res fits R (Inr a) (Inr b) \<longleftrightarrow> R a b"
  by (simp add: ref_res_def)

lemma ref_res_Inl [simp]: "ref_res fits R (Inl e) (Inl e)" "\<not> fits \<Longrightarrow> ref_res fits R (Inl OutOfBounds) y"
  by (simp_all add: ref_res_def)

lemma ref_res_bind:
  assumes "ref_res fits R x y" and "\<And>a b. R a b \<Longrightarrow> ref_res fits S (f a) (g b)"
  shows "ref_res fits S (bindE x f) (bindE y g)"
  using assms by (cases x; cases y) (auto simp: ref_res_def)

lemma ref_res_eq: "ref_res fits (=) x x"
  by (cases x) simp_all

lemma ref_res_if:
  "ref_res fits R x y \<Longrightarrow> ref_res fits R x' y' \<Longrightarrow> ref_res fits R (if c then x else x') (if c then y else y')"
  by simp

section \<open>Heaps\<close>

text \<open>The strings of a node are the parts of the arrays that the lengths select.\<close>

definition node_rel :: "squery_t \<Rightarrow> query_t \<Rightarrow> bool" where
  "node_rel s q \<longleftrightarrow>
     length (sq_name s) = MAX_NAME_LEN \<and> length (sq_value s) = MAX_VALUE_LEN \<and>
     0 \<le> sq_nlen s \<and> sq_nlen s \<le> int MAX_NAME_LEN \<and> 0 \<le> sq_vlen s \<and> sq_vlen s \<le> int MAX_VALUE_LEN \<and>
     q_nlen q = sq_nlen s \<and> q_op q = sq_op s \<and> q_vtype q = sq_vtype s \<and> q_vlen q = sq_vlen s \<and>
     (q_name q = Some (take (nat (sq_nlen s)) (sq_name s)) \<or> q_name q = None \<and> sq_nlen s = 0) \<and>
     (q_value q = CBuf (take (nat (sq_vlen s)) (sq_value s)) \<or> q_value q = CNull \<and> sq_vlen s = 0) \<and>
     q_parent q = sq_parent s \<and> q_sub q = sq_sub s \<and> q_next q = sq_next s"

definition heap_rel :: "sheap \<Rightarrow> qheap \<Rightarrow> bool" where
  "heap_rel sh h \<longleftrightarrow> sh_fresh sh = qh_fresh h \<and> (\<forall>a. rel_option node_rel (sh_mem sh a) (qh_mem h a))"

lemma node_rel_links:
  "node_rel s q \<Longrightarrow> q_parent q = sq_parent s" "node_rel s q \<Longrightarrow> q_sub q = sq_sub s"
  "node_rel s q \<Longrightarrow> q_next q = sq_next s" "node_rel s q \<Longrightarrow> q_op q = sq_op s"
  by (simp_all add: node_rel_def)

lemma heap_rel_fresh: "heap_rel sh h \<Longrightarrow> sh_fresh sh = qh_fresh h"
  by (simp add: heap_rel_def)

lemma heap_rel_mem: "heap_rel sh h \<Longrightarrow> rel_option node_rel (sh_mem sh a) (qh_mem h a)"
  by (simp add: heap_rel_def)

lemma deref_rel: "heap_rel sh h \<Longrightarrow> ref_res fits node_rel (sderef sh p) (deref h p)"
proof (cases p)
  case (Some a)
  assume "heap_rel sh h"
  from heap_rel_mem [OF this, of a] Some show ?thesis
    by (cases "sh_mem sh a"; cases "qh_mem h a") (auto simp: sderef_def deref_def)
qed (simp add: sderef_def deref_def)

lemma store_rel: "heap_rel sh h \<Longrightarrow> node_rel s q \<Longrightarrow> heap_rel (sstore sh a s) (store h a q)"
  by (auto simp: heap_rel_def sstore_def store_def)

lemma update_rel:
  assumes "heap_rel sh h" and "\<And>s q. node_rel s q \<Longrightarrow> node_rel (f s) (g q)"
  shows "ref_res fits heap_rel (supdate_node sh p f) (update_node h p g)"
  unfolding supdate_node_def update_node_def
  by (rule ref_res_bind [OF deref_rel [OF assms(1)]]) (simp add: store_rel assms)

section \<open>Operations\<close>

lemma null_rel: "node_rel null_squery null_query"
  by (simp add: node_rel_def null_squery_def null_query_def)

lemma init_query_rel:
  "heap_rel sh h \<Longrightarrow> fst (sip_init_query sh) = fst (init_query h) \<and>
     heap_rel (snd (sip_init_query sh)) (snd (init_query h))"
  using store_rel [OF _ null_rel, of sh h "qh_fresh h"]
  by (simp add: sip_init_query_def init_query_def heap_rel_def)

lemma has_parent_rel: "heap_rel sh h \<Longrightarrow> ref_res fits (=) (sip_has_query_parent sh q) (has_query_parent h q)"
  unfolding sip_has_query_parent_def has_query_parent_def
  by (rule ref_res_bind [OF deref_rel]) (simp_all add: node_rel_links)

lemma get_parent_rel: "heap_rel sh h \<Longrightarrow> ref_res fits (=) (sip_get_query_parent sh q) (get_query_parent h q)"
  unfolding sip_get_query_parent_def get_query_parent_def
  by (rule ref_res_bind [OF deref_rel]) (simp_all add: node_rel_links)

lemma set_parent_rel:
  "heap_rel sh h \<Longrightarrow> ref_res fits heap_rel (sip_set_query_parent sh q p) (set_query_parent h q p)"
  unfolding sip_set_query_parent_def set_query_parent_def
  by (rule update_rel) (simp_all add: node_rel_def)

lemma get_operator_rel: "heap_rel sh h \<Longrightarrow> ref_res fits (=) (sip_get_query_operator sh q) (get_query_operator h q)"
  unfolding sip_get_query_operator_def get_query_operator_def
  by (rule ref_res_bind [OF deref_rel]) (simp_all add: node_rel_links)

lemma set_operator_rel:
  "heap_rel sh h \<Longrightarrow> ref_res fits heap_rel (sip_set_query_operator sh q v) (set_query_operator h q v)"
  unfolding sip_set_query_operator_def set_query_operator_def
  by (rule update_rel) (simp_all add: node_rel_def)

text \<open>Without base 0 the conversions of both programs are the same.\<close>

lemma sip_char_to_int_eq: "base \<noteq> 0 \<Longrightarrow> sip_char_to_int str slen base = char_to_int str slen base"
  by (simp add: sip_char_to_int_def char_to_int_def)

lemma set_value_type_rel:
  assumes "heap_rel sh h"
  shows "ref_res fits heap_rel (sip_set_query_value_type sh q t) (set_query_value_type h q t)"
proof -
  have eq: "sip_char_to_int (t @ [NUL]) (int (length t)) 10 = char_to_int (t @ [NUL]) (int (length t)) 10"
    by (rule sip_char_to_int_eq) simp
  have upd: "ref_res fits heap_rel (supdate_node sh q (\<lambda>n. n\<lparr>sq_vtype := v\<rparr>)) (update_node h q (\<lambda>n. n\<lparr>q_vtype := v\<rparr>))"
    for v by (rule update_rel [OF assms]) (simp add: node_rel_def)
  show ?thesis
    unfolding sip_set_query_value_type_def set_query_value_type_def eq
    by (rule ref_res_bind [OF ref_res_eq]) (simp add: upd)
qed

lemma copy_rel:
  assumes h: "heap_rel sh h" and small: "fits \<Longrightarrow> length str \<le> 256"
    and arr: "\<And>s q'. node_rel s q' \<Longrightarrow> length (A s) = 256"
    and rel: "\<And>s q'. node_rel s q' \<Longrightarrow> length str \<le> 256 \<Longrightarrow> node_rel (F (str @ drop (length str) (A s)) s) (G q')"
  shows "ref_res fits heap_rel
    (bindE (sderef sh q) (\<lambda>s. bindE (array_copy (A s) str) (\<lambda>a. supdate_node sh q (F a)))) (update_node h q G)"
  using deref_rel [OF h, of fits q] arr rel small
  by (cases "sderef sh q"; cases "deref h q")
    (auto simp: ref_res_def update_node_def supdate_node_def array_copy_def intro!: store_rel [OF h])

lemma set_name_rel:
  assumes "heap_rel sh h" and small: "fits \<Longrightarrow> length t \<le> 256"
  shows "ref_res fits heap_rel (sip_set_query_name sh q t) (set_query_name h q t)"
proof (cases "chomp_len t")
  case (Inr n)
  then have n: "length (take n t) = n" using chomp_len_le [OF Inr] by simp
  show ?thesis
    unfolding sip_set_query_name_def set_query_name_def Inr bindE.simps
    using n small by (intro copy_rel [OF assms(1)]) (auto simp: node_rel_def)
qed (simp add: sip_set_query_name_def set_query_name_def)

lemma set_value_rel:
  assumes "heap_rel sh h" and small: "fits \<Longrightarrow> length t \<le> 256"
  shows "ref_res fits heap_rel (sip_set_query_value sh q t) (set_query_value h q t)"
proof (cases "chomp_len t")
  case (Inr n)
  then have n: "length (take n t) = n" using chomp_len_le [OF Inr] by simp
  show ?thesis
    unfolding sip_set_query_value_def set_query_value_def Inr bindE.simps
    using n small by (intro copy_rel [OF assms(1)]) (auto simp: node_rel_def)
qed (simp add: sip_set_query_value_def set_query_value_def)

text \<open>The new node is linked in front of its siblings in both heaps.\<close>

lemma link_rel:
  assumes "heap_rel sh h"
  shows "ref_res fits (rel_prod (=) heap_rel)
    (bindE (sip_set_query_parent sh (Some sub) p) (\<lambda>h2. bindE (sderef h2 p) (\<lambda>n.
       bindE (if sq_sub n \<noteq> None then supdate_node h2 (Some sub) (\<lambda>s. s\<lparr>sq_next := sq_sub n\<rparr>) else Inr h2) (\<lambda>h3.
         bindE (supdate_node h3 p (\<lambda>n. n\<lparr>sq_sub := Some sub\<rparr>)) (\<lambda>h4. Inr (Some sub, h4))))))
    (bindE (set_query_parent h (Some sub) p) (\<lambda>h2. bindE (deref h2 p) (\<lambda>n.
       bindE (if q_sub n \<noteq> None then update_node h2 (Some sub) (\<lambda>s. s\<lparr>q_next := q_sub n\<rparr>) else Inr h2) (\<lambda>h3.
         bindE (update_node h3 p (\<lambda>n. n\<lparr>q_sub := Some sub\<rparr>)) (\<lambda>h4. Inr (Some sub, h4))))))"
proof (rule ref_res_bind [OF set_parent_rel [OF assms]])
  fix sh2 h2
  assume r2: "heap_rel sh2 h2"
  have next': "ref_res fits heap_rel
      (if sq_sub n \<noteq> None then supdate_node sh2 (Some sub) (\<lambda>s. s\<lparr>sq_next := sq_sub n\<rparr>) else Inr sh2)
      (if q_sub m \<noteq> None then update_node h2 (Some sub) (\<lambda>s. s\<lparr>q_next := q_sub m\<rparr>) else Inr h2)"
    if "node_rel n m" for n m
    using update_rel [OF r2, of "\<lambda>s. s\<lparr>sq_next := sq_sub n\<rparr>" "\<lambda>s. s\<lparr>q_next := q_sub m\<rparr>"] that r2
    by (auto simp: node_rel_def)
  have sub': "ref_res fits heap_rel (supdate_node sh3 p (\<lambda>n. n\<lparr>sq_sub := Some sub\<rparr>)) (update_node h3 p (\<lambda>n. n\<lparr>q_sub := Some sub\<rparr>))"
    if "heap_rel sh3 h3" for sh3 h3
    using that by (rule update_rel) (simp add: node_rel_def)
  show "ref_res fits (rel_prod (=) heap_rel)
    (bindE (sderef sh2 p) (\<lambda>n.
       bindE (if sq_sub n \<noteq> None then supdate_node sh2 (Some sub) (\<lambda>s. s\<lparr>sq_next := sq_sub n\<rparr>) else Inr sh2) (\<lambda>h3.
         bindE (supdate_node h3 p (\<lambda>n. n\<lparr>sq_sub := Some sub\<rparr>)) (\<lambda>h4. Inr (Some sub, h4)))))
    (bindE (deref h2 p) (\<lambda>n.
       bindE (if q_sub n \<noteq> None then update_node h2 (Some sub) (\<lambda>s. s\<lparr>q_next := q_sub n\<rparr>) else Inr h2) (\<lambda>h3.
         bindE (update_node h3 p (\<lambda>n. n\<lparr>q_sub := Some sub\<rparr>)) (\<lambda>h4. Inr (Some sub, h4)))))"
    by (rule ref_res_bind [OF deref_rel [OF r2]], rule ref_res_bind [OF next'], assumption,
        rule ref_res_bind [OF sub'], assumption) simp
qed

lemma add_sub_rel:
  assumes "heap_rel sh h"
  shows "ref_res fits (rel_prod (=) heap_rel) (sip_add_query_sub_message sh q pt ct) (add_query_sub_message h q pt ct)"
proof -
  obtain sub sh1 h1 where i: "sip_init_query sh = (sub, sh1)" "init_query h = (sub, h1)" "heap_rel sh1 h1"
    using init_query_rel [OF assms] by (metis prod.collapse)
  have par: "ref_res fits (=) (if c then bindE (sip_has_query_parent sh q) (\<lambda>b. if b then sip_get_query_parent sh q else Inl (Exited 1)) else Inr q)
      (if c then bindE (has_query_parent h q) (\<lambda>b. if b then get_query_parent h q else Inl (Exited 1)) else Inr q)" for c
    by (auto intro!: ref_res_bind [OF has_parent_rel] get_parent_rel assms)
  show ?thesis
    unfolding sip_add_query_sub_message_def add_query_sub_message_def i prod.case
    by (rule ref_res_bind [OF par]) (simp only: link_rel [OF i(3)])
qed

text \<open>Release.\<close>

lemma free_rel:
  "(\<forall>sh h q. heap_rel sh h \<longrightarrow> ref_res fits heap_rel (sip_free_query_fuel k sh q) (free_query_fuel k h q)) \<and>
   (\<forall>sh h q. heap_rel sh h \<longrightarrow> ref_res fits heap_rel (sip_free_subs_fuel k sh q) (free_subs_fuel k h q))"
proof (induction k)
  case (Suc k)
  have unlink: "ref_res fits heap_rel
      (case sh_mem sh a of None \<Rightarrow> Inl DoubleFree | Some _ \<Rightarrow> Inr (sh\<lparr>sh_mem := (sh_mem sh)(a := None)\<rparr>))
      (case qh_mem h a of None \<Rightarrow> Inl DoubleFree | Some _ \<Rightarrow> Inr (h\<lparr>qh_mem := (qh_mem h)(a := None)\<rparr>))"
    if "heap_rel sh h" for sh h a
    using heap_rel_mem [OF that, of a] that
    by (cases "sh_mem sh a"; cases "qh_mem h a") (auto simp: heap_rel_def)
  have live: "node_rel s n \<Longrightarrow> q_value n \<noteq> CFreed" for s n by (auto simp: node_rel_def)
  have "ref_res fits heap_rel (sip_free_query_fuel (Suc k) sh q) (free_query_fuel (Suc k) h q)"
    if r: "heap_rel sh h" for sh h q
    using Suc r
    by (cases q) (auto intro!: ref_res_bind [OF deref_rel [OF r]] ref_res_bind [where R = heap_rel] unlink
        simp: node_rel_links live)
  moreover have "ref_res fits heap_rel (sip_free_subs_fuel (Suc k) sh q) (free_subs_fuel (Suc k) h q)"
    if r: "heap_rel sh h" for sh h q
    using Suc r
    by (cases q) (auto intro!: ref_res_bind [OF deref_rel [OF r]] ref_res_bind [where R = heap_rel]
        simp: node_rel_links)
  ultimately show ?case by blast
qed simp

lemma free_query_rel: "heap_rel sh h \<Longrightarrow> ref_res fits heap_rel (sip_free_query sh q) (free_query h q)"
  unfolding sip_free_query_def free_query_def
  by (simp only: heap_rel_fresh free_rel [THEN conjunct1, rule_format])

text \<open>Printing: the results are not related, both sides only have to come to an end.\<close>

lemma print_node_rel:
  "node_rel s n \<Longrightarrow> (fits \<Longrightarrow> d \<le> 500) \<Longrightarrow>
   ref_res fits (\<lambda>_ _. True) (sip_print_node_line s d) (print_node_line n d')"
  by (auto simp: node_rel_def sip_print_node_line_def print_node_line_def ref_res_def Let_def)

lemma print_rel:
  "(\<forall>q d d'. (fits \<longrightarrow> d + k \<le> 500) \<longrightarrow>
      ref_res fits (\<lambda>_ _. True) (sip_print_query_fuel k sh q d) (print_query_fuel k h q d')) \<and>
   (\<forall>q d d'. (fits \<longrightarrow> d + k \<le> 500) \<longrightarrow>
      ref_res fits (\<lambda>_ _. True) (sip_print_subs_fuel k sh q d) (print_subs_fuel k h q d'))"
  if r: "heap_rel sh h"
proof (induction k)
  case (Suc k)
  have "ref_res fits (\<lambda>_ _. True) (sip_print_query_fuel (Suc k) sh q d) (print_query_fuel (Suc k) h q d')"
    if depth: "fits \<longrightarrow> d + Suc k \<le> 500" for q d d'
  proof -
    have tail: "ref_res fits (\<lambda>_ _. True) (bindE (sip_end_line d) (\<lambda>e. Inr (l # ls @ [e]))) (Inr ms)" for l ls ms
      using depth by (auto simp: sip_end_line_def)
    have subs: "ref_res fits (\<lambda>_ _. True) (sip_print_subs_fuel k sh (sq_sub s) (d + 1)) (print_subs_fuel k h (q_sub n) (d' + 1))"
      if "node_rel s n" for s n
      using Suc that depth by (simp add: node_rel_links)
    have node: "ref_res fits (\<lambda>_ _. True) (sip_print_node_line s d) (print_node_line n d')" if "node_rel s n" for s n
      using that depth by (intro print_node_rel) auto
    show ?thesis
      unfolding sip_print_query_fuel.simps print_query_fuel.simps
      by (rule ref_res_bind [OF deref_rel [OF r]], rule ref_res_bind [OF node], assumption,
          rule ref_res_bind [OF subs], assumption) (rule tail)
  qed
  moreover have "ref_res fits (\<lambda>_ _. True) (sip_print_subs_fuel (Suc k) sh q d) (print_subs_fuel (Suc k) h q d')"
    if depth: "fits \<longrightarrow> d + Suc k \<le> 500" for q d d'
  proof (cases q)
    case (Some a)
    have le: "fits \<longrightarrow> d + k \<le> 500" using depth by auto
    have head: "ref_res fits (\<lambda>_ _. True) (sip_print_query_fuel k sh (Some a) d) (print_query_fuel k h (Some a) d')"
      using Suc le by blast
    have rest: "ref_res fits (\<lambda>_ _. True) (sip_print_subs_fuel k sh (sq_next s) d) (print_subs_fuel k h (q_next n) d')"
      if "node_rel s n" for s n
      using Suc that le by (simp add: node_rel_links)
    show ?thesis
      unfolding Some sip_print_subs_fuel.simps print_subs_fuel.simps option.case
      by (rule ref_res_bind [OF head], rule ref_res_bind [OF deref_rel [OF r]],
          rule ref_res_bind [OF rest], assumption) simp
  qed simp
  ultimately show ?case by blast
qed simp

lemma print_query_rel:
  assumes "heap_rel sh h" and "fits \<Longrightarrow> sh_fresh sh < 250"
  shows "ref_res fits (\<lambda>_ _. True) (sip_print_query sh q) (print_query h q)"
  unfolding sip_print_query_def print_query_def heap_rel_fresh [OF assms(1), symmetric]
  using assms(2) by (intro print_rel [OF assms(1), THEN conjunct1, rule_format]) simp

section \<open>The listener\<close>

lemma move_rel:
  assumes "heap_rel sh h"
  shows "ref_res fits (rel_prod heap_rel (=)) (sip_move_query sh q d pt mt) (move_query h q d pt mt)"
proof -
  obtain sub sh1 h1 where i: "sip_init_query sh = (sub, sh1)" "init_query h = (sub, h1)" "heap_rel sh1 h1"
    using init_query_rel [OF assms] by (metis prod.collapse)
  have add: "ref_res fits (rel_prod heap_rel (=)) (bindE (sip_add_query_sub_message sh q pt mt) (\<lambda>(q, h'). Inr (h', q, e)))
      (bindE (add_query_sub_message h q pt mt) (\<lambda>(q, h'). Inr (h', q, e)))" for e
    by (rule ref_res_bind [OF add_sub_rel [OF assms]]) auto
  have up: "ref_res fits (rel_prod heap_rel (=))
      (bindE (sip_has_query_parent sh q) (\<lambda>b. bindE (if b then sip_get_query_parent sh q else Inr q) (\<lambda>q. Inr (sh, q, d - 1))))
      (bindE (has_query_parent h q) (\<lambda>b. bindE (if b then get_query_parent h q else Inr q) (\<lambda>q. Inr (h, q, d - 1))))"
  proof (rule ref_res_bind [OF has_parent_rel [OF assms]])
    fix b c :: bool
    assume "b = c"
    then show "ref_res fits (rel_prod heap_rel (=))
        (bindE (if b then sip_get_query_parent sh q else Inr q) (\<lambda>q. Inr (sh, q, d - 1)))
        (bindE (if c then get_query_parent h q else Inr q) (\<lambda>q. Inr (h, q, d - 1)))"
      by (cases c) (auto intro!: ref_res_bind [OF get_parent_rel [OF assms]] simp: assms)
  qed
  show ?thesis
    unfolding sip_move_query_def move_query_def i prod.case
    by (intro ref_res_if add up) (simp_all add: i(3) assms)
qed

lemma token_rel:
  assumes "heap_rel sh h" and small: "fits \<Longrightarrow> length t \<le> 256"
  shows "ref_res fits heap_rel (sip_apply_token sh q i t) (apply_token h q i t)"
proof -
  have opr: "ref_res fits heap_rel (bindE x (\<lambda>h'. bindE (sip_get_query_operator h' q) (\<lambda>_. Inr h')))
      (bindE y (\<lambda>h'. bindE (get_query_operator h' q) (\<lambda>_. Inr h')))" if "ref_res fits heap_rel x y" for x y
    using that by (rule ref_res_bind) (auto intro: ref_res_bind [OF get_operator_rel])
  have "ref_res fits heap_rel
      (if u then sip_set_query_operator sh q OP_TYPE_UPDATE else if v then sip_set_query_operator sh q OP_TYPE_DROP else Inr sh)
      (if u then set_query_operator h q OP_TYPE_UPDATE else if v then set_query_operator h q OP_TYPE_DROP else Inr h)" for u v
    using set_operator_rel [OF assms(1)] assms(1) by simp
  then show ?thesis
    using set_name_rel [OF assms] set_value_type_rel [OF assms(1)] set_value_rel [OF assms] opr assms(1)
    by (simp add: sip_apply_token_def apply_token_def)
qed

lemma tokens_rel:
  "heap_rel sh h \<Longrightarrow> (fits \<Longrightarrow> \<forall>t\<in>set ts. length t \<le> 256) \<Longrightarrow>
   ref_res fits heap_rel (sip_apply_tokens ts sh q i) (apply_tokens ts h q i)"
proof (induction ts arbitrary: sh h i)
  case (Cons t ts)
  have "ref_res fits heap_rel (sip_apply_token sh q i t) (apply_token h q i t)"
    using Cons.prems by (intro token_rel) auto
  then show ?case
    unfolding sip_apply_tokens.simps apply_tokens.simps
    by (rule ref_res_bind) (use Cons in auto)
qed simp

text \<open>A line makes at most one node.\<close>

lemma ref_res_conj:
  "ref_res fits R x y \<Longrightarrow> (\<And>a. x = Inr a \<Longrightarrow> P a) \<Longrightarrow> ref_res fits (\<lambda>a b. R a b \<and> P a) x y"
  by (cases x; cases y) (auto simp: ref_res_def)

lemma supdate_fresh: "supdate_node h p f = Inr h' \<Longrightarrow> sh_fresh h' = sh_fresh h"
  by (auto simp: supdate_node_def bindE_Inr_iff sstore_def)

lemma apply_token_fresh: "sip_apply_token h q i t = Inr h' \<Longrightarrow> sh_fresh h' = sh_fresh h"
  by (auto simp: sip_apply_token_def sip_set_query_name_def sip_set_query_operator_def
      sip_set_query_value_type_def sip_set_query_value_def bindE_Inr_iff split: if_splits dest: supdate_fresh)

lemma apply_tokens_fresh: "sip_apply_tokens ts h q i = Inr h' \<Longrightarrow> sh_fresh h' = sh_fresh h"
  by (induction ts arbitrary: h i) (auto simp: bindE_Inr_iff dest: apply_token_fresh)

lemma add_sub_fresh: "sip_add_query_sub_message h q pt ct = Inr (r, h') \<Longrightarrow> sh_fresh h' = Suc (sh_fresh h)"
  by (auto simp: sip_add_query_sub_message_def sip_init_query_def sip_set_query_parent_def bindE_Inr_iff sstore_def
      split: if_splits dest!: supdate_fresh)

lemma move_fresh: "sip_move_query h q d pt mt = Inr (h', r) \<Longrightarrow> sh_fresh h' \<le> Suc (sh_fresh h)"
  by (auto simp: sip_move_query_def bindE_Inr_iff sip_init_query_def sstore_def split: if_splits
      dest: add_sub_fresh)

lemma free_fresh:
  "(\<forall>h q h'. sip_free_query_fuel k h q = Inr h' \<longrightarrow> sh_fresh h' = sh_fresh h) \<and>
   (\<forall>h q h'. sip_free_subs_fuel k h q = Inr h' \<longrightarrow> sh_fresh h' = sh_fresh h)"
proof (induction k)
  case (Suc k)
  then show ?case by (auto simp: bindE_Inr_iff split: option.splits)
qed simp

lemma release_fresh: "sip_release_query h inst = Inr h' \<Longrightarrow> sh_fresh h' = sh_fresh h"
  using free_fresh by (auto simp: sip_release_query_def sip_free_query_def split: if_splits simp del: sip_free_query_fuel.simps)

lemma query_line_fresh:
  "sip_query_line st line = Inr st' \<Longrightarrow> sh_fresh (sl_heap st') \<le> Suc (sh_fresh (sl_heap st))"
  by (auto simp: sip_query_line_def bindE_Inr_iff split: if_splits dest!: move_fresh dest: apply_tokens_fresh)

lemma listener_line_fresh:
  "sip_listener_line st line = Inr st' \<Longrightarrow> sh_fresh (sl_heap st') \<le> Suc (sh_fresh (sl_heap st))"
  by (auto simp: sip_listener_line_def bindE_Inr_iff split: if_splits dest: release_fresh query_line_fresh)

text \<open>What the two instances have in common for the listener.\<close>

definition listener_rel :: "sip_listener_t \<Rightarrow> listener_t \<Rightarrow> bool" where
  "listener_rel st st' \<longleftrightarrow> heap_rel (sl_heap st) (l_heap st') \<and> l_query st' = sl_query st \<and>
     l_depth st' = sl_depth st \<and> l_ptype st' = sl_ptype st \<and> l_sent st' = sl_sent st \<and>
     i_query (l_inst st') = si_query (sl_inst st) \<and> i_finished (l_inst st') = si_finished (sl_inst st) \<and>
     i_running (l_inst st') = 1 \<and> si_running (sl_inst st) = 1"

lemma strtok_token_length: "t \<in> set (strtok_all d s) \<Longrightarrow> length t \<le> length s"
proof (induction d s rule: strtok_all.induct)
  case (1 d s)
  show ?case
  proof (cases "strtok d s")
    case (Some x)
    obtain u r where x: "x = (u, r)" by (cases x)
    have "length u \<le> length s"
      using Some x length_takeWhile_le [of "\<lambda>c. \<not> d c" "dropWhile d s"] length_dropWhile_le [of d s]
      by (auto simp: strtok_def split: list.splits)
    moreover have "length r < length s" using strtok_rest_shorter Some x by blast
    ultimately show ?thesis using 1 Some x by (fastforce simp: strtok_all.simps [of d s])
  qed (use 1 in \<open>simp add: strtok_all.simps [of d s]\<close>)
qed

lemma line_tokens_short:
  "length line \<le> 289 \<Longrightarrow> \<forall>t\<in>set (strtok_all d (cstr (drop 33 line))). length t \<le> 256"
proof
  fix t
  assume "length line \<le> 289" and "t \<in> set (strtok_all d (cstr (drop 33 line)))"
  moreover have "length (cstr (drop 33 line)) \<le> length line - 33"
    using length_takeWhile_le [of _ "drop 33 line"] by (simp add: cstr_def)
  ultimately show "length t \<le> 256" using strtok_token_length by fastforce
qed

lemma query_line_rel:
  assumes r: "listener_rel st st'" and small: "fits \<Longrightarrow> length line \<le> 289 \<and> sh_fresh (sl_heap st) < 249"
  shows "ref_res fits listener_rel (sip_query_line st line) (query_line st' line)"
proof -
  have lt: "sip_line_type line = line_type line"
    by (simp add: sip_line_type_def line_type_def sip_char_to_int_eq)
  have mv: "ref_res fits (\<lambda>a b. rel_prod heap_rel (=) a b \<and> (fits \<longrightarrow> sh_fresh (fst a) < 250))
      (sip_move_query (sl_heap st) (sl_query st) (sl_depth st) (sl_ptype st) mt)
      (move_query (l_heap st') (l_query st') (l_depth st') (l_ptype st') mt)" for mt
    using r small by (intro ref_res_conj) (auto simp: listener_rel_def intro!: move_rel dest: move_fresh)
  have tk: "ref_res fits (\<lambda>a b. heap_rel a b \<and> (fits \<longrightarrow> sh_fresh a < 250))
      (if 34 < length line then (if length line < MAX_MESSAGE_LEN then sip_apply_tokens ts sh q 0 else Inl OutOfBounds) else Inr sh)
      (if 34 < length line then (if length line < MAX_MESSAGE_LEN then apply_tokens ts h q 0 else Inl OutOfBounds) else Inr h)"
    if "heap_rel sh h" "fits \<longrightarrow> sh_fresh sh < 250" "ts = strtok_all (\<lambda>c. c = CHR '':'') (cstr (drop 33 line))" for sh h q ts
    using that small line_tokens_short
    by (intro ref_res_conj ref_res_if tokens_rel) (auto split: if_splits dest: apply_tokens_fresh)
  have fin: "ref_res fits listener_rel
      (if d = 0 then bindE (sip_print_query sh q) (\<lambda>_. Inr (st\<lparr>sl_heap := sh, sl_inst := sip_set_query (sl_inst st) q,
         sl_query := None, sl_depth := d, sl_ptype := mt\<rparr>))
       else Inr (st\<lparr>sl_heap := sh, sl_query := q, sl_depth := d, sl_ptype := mt\<rparr>))
      (if d = 0 then bindE (print_query h q) (\<lambda>_. Inr (st'\<lparr>l_heap := h, l_inst := set_query (l_inst st') q,
         l_query := None, l_depth := d, l_ptype := mt\<rparr>))
       else Inr (st'\<lparr>l_heap := h, l_query := q, l_depth := d, l_ptype := mt\<rparr>))"
    if "heap_rel sh h \<and> (fits \<longrightarrow> sh_fresh sh < 250)" for sh h q d mt
    using r that
    by (auto intro!: ref_res_bind [OF print_query_rel] simp: listener_rel_def sip_set_query_def set_query_def)
  show ?thesis
    unfolding sip_query_line_def query_line_def lt
    apply (rule ref_res_bind [OF ref_res_eq], elim subst, rule ref_res_bind [OF mv])
    apply (simp only: split_paired_all rel_prod_inject prod.case fst_conv prod.inject)
    apply (elim conjE, hypsubst, rule ref_res_bind [OF tk [OF _ _ refl]], assumption, assumption)
    apply (rule fin, assumption)
    done
qed

lemma release_rel:
  "listener_rel st st' \<Longrightarrow>
   ref_res fits heap_rel (sip_release_query (sl_heap st) (sl_inst st)) (release_query (l_heap st') (l_inst st'))"
  by (auto simp: listener_rel_def sip_release_query_def release_query_def intro: free_query_rel)

lemma listener_line_rel:
  assumes r: "listener_rel st st'" and small: "fits \<Longrightarrow> length line \<le> 289 \<and> sh_fresh (sl_heap st) < 249"
  shows "ref_res fits listener_rel (sip_listener_line st line) (listener_line st' line)"
proof -
  have reset: "ref_res fits listener_rel
      (bindE (sip_release_query (sl_heap st) (sl_inst st)) (\<lambda>h. Inr (st\<lparr>sl_heap := h,
         sl_inst := sip_reset_instance (sl_inst st), sl_sent := sl_sent st @ ACK_RESPONSE\<rparr>)))
      (bindE (release_query (l_heap st') (l_inst st')) (\<lambda>h. Inr (st'\<lparr>l_heap := h,
         l_inst := reset_instance (l_inst st'), l_sent := l_sent st' @ ACK_RESPONSE\<rparr>)))"
    by (rule ref_res_bind [OF release_rel [OF r]])
      (use r in \<open>simp add: listener_rel_def sip_reset_instance_def reset_instance_def\<close>)
  have fin: "ref_res fits listener_rel
      (bindE (sip_release_query (sl_heap st) (sl_inst st)) (\<lambda>h. Inr (st\<lparr>sl_heap := h,
         sl_inst := sip_finish_instance (sl_inst st)\<rparr>)))
      (bindE (release_query (l_heap st') (l_inst st')) (\<lambda>h. Inr (st'\<lparr>l_heap := h,
         l_inst := finish_instance (l_inst st')\<rparr>)))"
    by (rule ref_res_bind [OF release_rel [OF r]])
      (use r in \<open>simp add: listener_rel_def sip_finish_instance_def finish_instance_def\<close>)
  have hello: "listener_rel (st\<lparr>sl_sent := sl_sent st @ ACK_RESPONSE\<rparr>) (st'\<lparr>l_sent := l_sent st' @ ACK_RESPONSE\<rparr>)"
    using r by (simp add: listener_rel_def)
  show ?thesis
    using reset fin hello query_line_rel [OF r small] r
    by (simp add: sip_listener_line_def listener_line_def)
qed

text \<open>Inputs that fit: short lines, and fewer of them than nodes can be printed.\<close>

primrec short_lines :: "string \<Rightarrow> nat \<Rightarrow> bool" where
  "short_lines [] n = True"
| "short_lines (c # cs) n = (n < 289 \<and> short_lines cs (if c = NL then 0 else Suc n))"

definition input_fits :: "string \<Rightarrow> bool" where
  "input_fits input \<longleftrightarrow> short_lines input 0 \<and> count_list input NL < 249"

lemma read_line_fits:
  "read_line input n = Inr (Some (line, rest)) \<Longrightarrow> short_lines input n \<Longrightarrow>
   n + length line \<le> 289 \<and> short_lines rest 0 \<and> count_list input NL = Suc (count_list rest NL)"
  by (induction input arbitrary: n line)
    (fastforce simp: bindE_Inr_iff split: if_splits option.splits)+

lemma listener_loop_rel:
  "listener_rel st st' \<Longrightarrow>
   (fits \<Longrightarrow> short_lines input 0 \<and> sh_fresh (sl_heap st) + count_list input NL < 249) \<Longrightarrow>
   ref_res fits listener_rel (sip_listener_loop k input st) (listener_loop k input st')"
proof (induction k arbitrary: input st st')
  case (Suc k)
  have run: "si_running (sl_inst st) = 1" "i_running (l_inst st') = 1" using Suc.prems by (auto simp: listener_rel_def)
  show ?case
  proof (cases "read_line input 0")
    case (Inr r)
    show ?thesis
    proof (cases r)
      case (Some x)
      obtain line rest where x: "x = (line, rest)" by (cases x)
      have fit: "fits \<Longrightarrow> length line \<le> 289 \<and> short_lines rest 0 \<and> sh_fresh (sl_heap st) + Suc (count_list rest NL) < 249"
        using read_line_fits [of input 0 line rest] Inr Some x Suc.prems(2) by auto
      have "ref_res fits (\<lambda>a b. listener_rel a b \<and> sh_fresh (sl_heap a) \<le> Suc (sh_fresh (sl_heap st)))
          (sip_listener_line st line) (listener_line st' line)"
        using fit Suc.prems(1) by (intro ref_res_conj listener_line_rel listener_line_fresh) auto
      then have "ref_res fits listener_rel (bindE (sip_listener_line st line) (sip_listener_loop k rest))
          (bindE (listener_line st' line) (listener_loop k rest))"
        by (rule ref_res_bind) (use fit in \<open>fastforce intro!: Suc.IH\<close>)
      then show ?thesis using run Inr Some x by simp
    qed (use run Inr Suc.prems in simp)
  qed (use run in simp)
qed simp

lemma listener_run_rel:
  "listener_rel st st' \<Longrightarrow>
   (fits \<Longrightarrow> short_lines input 0 \<and> sh_fresh (sl_heap st) + count_list input NL < 249) \<Longrightarrow>
   ref_res fits listener_rel (sip_listener_run input st) (listener_run input st')"
  unfolding sip_listener_run_def listener_run_def by (rule listener_loop_rel)

lemma init_listener_rel: "listener_rel (sip_init_listener asock pid) (init_listener asock')"
  by (simp add: listener_rel_def sip_init_listener_def init_listener_def heap_rel_def empty_sheap_def
      empty_heap_def sip_init_instance_def init_instance_def)

end
