(* ===== verification/Sip_Proofs.thy ===== *)
theory Sip_Proofs
  imports Sip_Process Sip_Roundtrip Sip_Sim
begin

text \<open>
  Lemmas on the query processing and the reports of the IMS server: a whole response through the
  parser and the serialiser, changes of one header, and the order in which responses are reported.
\<close>

section \<open>Responses\<close>

text \<open>A response as text: status line, headers, an empty line.\<close>

definition response_text :: "string \<Rightarrow> string \<Rightarrow> (string \<times> string) list \<Rightarrow> string" where
  "response_text code reason hs = status_line code reason @ [CR, NL] @ concat (map header_line hs) @ [CR, NL]"

definition response_ok :: "string \<Rightarrow> string \<Rightarrow> (string \<times> string) list \<Rightarrow> bool" where
  "response_ok code reason hs \<longleftrightarrow> (code = ''401'' \<or> code = ''200'') \<and> list_all line_char reason \<and>
     \<not> at_space reason \<and> list_all header_ok hs \<and> length (response_text code reason hs) \<le> SC_BUF_LENGTH"

lemma line_no_NUL: "list_all line_char s \<Longrightarrow> NUL \<notin> set s"
  by (auto simp: list_all_iff line_char_def)

lemma header_no_NUL: "header_ok h \<Longrightarrow> NUL \<notin> set (header_line h)"
  using line_no_NUL [of "fst h"] line_no_NUL [of "snd h"] by (simp add: header_ok_def header_line_def)

lemma status_line_ok:
  "response_ok code reason hs \<Longrightarrow> status_line code reason \<noteq> [] \<and> list_all line_char (status_line code reason)"
  by (auto simp: response_ok_def status_line_def SIP_VERSION_TOKEN_def line_char_def)

lemma response_no_NUL:
  assumes "response_ok code reason hs"
  shows "NUL \<notin> set (response_text code reason hs)"
proof -
  have "NUL \<notin> set (status_line code reason)" using line_no_NUL status_line_ok [OF assms] by blast
  moreover have "\<forall>h\<in>set hs. NUL \<notin> set (header_line h)"
    using assms header_no_NUL by (simp add: response_ok_def list_all_iff)
  ultimately show ?thesis by (simp add: response_text_def)
qed

lemma chain_ok_null: "chain_ok null_sip_message"
  by (simp add: chain_ok_def null_sip_message_def)

lemma init_response:
  assumes ok: "response_ok code reason hs" and past: "\<forall>i. pasts i \<noteq> CHR '';'' \<and> pasts i \<noteq> CHR '' ''"
  shows "\<exists>sip. init_sip_message (response_text code reason hs) (NUL # mem) pasts = Inr sip \<and> chain_ok sip \<and>
    map (\<lambda>k. (k_key k, vals_text (k_vlst k))) (s_kvps sip) = hs \<and> s_mtype sip = SC_SIP_RESPONSE \<and>
    s_mname sip = Some (to_lower reason) \<and> s_additional sip = Some code"
proof -
  let ?t = "response_text code reason hs" and ?body = "concat (map header_line hs) @ [CR, NL]"
  define sip where "sip = parse_sip_first_line null_sip_message (status_line code reason)"
  have sip: "sip = null_sip_message\<lparr>s_version := Some SIP_VERSION_TOKEN, s_mtype := SC_SIP_RESPONSE,
      s_additional := Some code, s_mname := Some (to_lower reason)\<rparr>"
    using parse_status_line ok unfolding sip_def response_ok_def by blast
  have c: "chain_ok sip" "\<forall>k\<in>set (s_kvps sip). k_addr k < 0" "s_kvps sip = []"
    using sip chain_ok_null by (simp_all add: chain_ok_def null_sip_message_def)
  have str: "cstr (?t @ NUL # mem) = ?t"
    using response_no_NUL [OF ok] by (auto simp: cstr_def takeWhile_append)
  have tok: "strtok crlf ?t = Some (status_line code reason, NL # ?body)"
    using strtok_line(1) status_line_ok [OF ok] by (simp add: response_text_def)
  have known: "is_401_unauthorized_message sip \<or> is_200_ok_message sip"
    using ok sip by (auto simp: is_401_unauthorized_message_def is_200_ok_message_def is_status_code_message_def
        response_ok_def)
  have "?t \<noteq> []" by (simp add: response_text_def status_line_def SIP_VERSION_TOKEN_def)
  then have "init_sip_message ?t (NUL # mem) pasts = parse_lines 0 (NL # ?body) (NUL # mem) pasts sip"
    using known by (simp add: init_sip_message_def str tok sip_def [symmetric] Let_def)
  moreover have "list_all header_ok hs" using ok by (simp add: response_ok_def)
  ultimately show ?thesis
    using parse_lines_headers [OF _ c(1,2) past, of hs "NUL # mem"] c(3) sip by (auto simp: null_sip_message_def)
qed

lemma serialize_response:
  assumes ok: "response_ok code reason hs" and m: "map (\<lambda>k. (k_key k, vals_text (k_vlst k))) (s_kvps sip) = hs"
    and f: "s_mtype sip = SC_SIP_RESPONSE" "s_mname sip = Some (to_lower reason)" "s_additional sip = Some code"
  shows "serialize_sip_message sip = Inr (response_text code (to_lower reason) hs)"
proof -
  have "serialize_kvps (s_kvps sip) = Inr (concat (map header_line hs))"
    using serialize_kvps_headers [OF m] ok by (simp add: response_ok_def)
  moreover have "length (response_text code (to_lower reason) hs) \<le> SC_BUF_LENGTH"
    using ok by (simp add: response_ok_def response_text_def status_line_def to_lower_def)
  ultimately show ?thesis
    using f by (simp add: serialize_sip_message_def serialize_first_line_def opt_bytes_def response_text_def
        status_line_def Let_def)
qed

section \<open>Changing one header\<close>

text \<open>What an update and a drop do to the list of headers: they apply to the first one with the key.\<close>

fun on_first :: "string \<Rightarrow> (kvp_t \<Rightarrow> kvp_t) \<Rightarrow> kvp_t list \<Rightarrow> kvp_t list" where
  "on_first key f [] = []"
| "on_first key f (k # ks) = (if k_key k = key then f k # ks else k # on_first key f ks)"

definition set_attr :: "string \<Rightarrow> string \<Rightarrow> kvp_t \<Rightarrow> kvp_t" where
  "set_attr attr value kvp =
     set_vals kvp (map (\<lambda>v. if v_attr v = Some attr then v\<lparr>v_val := Some value\<rparr> else v) (vl_vals (k_vlst kvp)))"

lemma attr_is_iff: "attr \<noteq> [] \<Longrightarrow> attr_is v attr \<longleftrightarrow> v_attr v = Some attr"
  by (cases "v_attr v") (auto simp: attr_is_def)

lemma put_first:
  assumes "distinct (map k_addr ks)" and "find_kvp key 0 ks = Some i" and "k_addr (f (ks ! i)) = k_addr (ks ! i)"
  shows "map (\<lambda>k. if k_addr k = k_addr (f (ks ! i)) then f (ks ! i) else k) ks = on_first key f ks"
  using assms
proof (induction ks arbitrary: i)
  case (Cons k ks)
  have same: "map (\<lambda>k'. if k_addr k' = a then x else k') ks = ks" if "a \<notin> k_addr ` set ks" for a and x :: kvp_t
    using that by (induction ks) auto
  show ?case
  proof (cases "k_key k = key")
    case True
    then show ?thesis using Cons.prems same by simp
  next
    case False
    then obtain j where j: "i = Suc j" "find_kvp key 0 ks = Some j" using Cons.prems(2) by auto
    then have "k_addr (ks ! j) \<in> k_addr ` set ks" using find_kvp_Some [OF j(2)] by simp
    then have "k_addr k \<noteq> k_addr (ks ! j)" using Cons.prems(1) by auto
    then show ?thesis using Cons.IH [of j] Cons.prems j(2) False unfolding j(1) nth_Cons_Suc by simp
  qed
qed simp

lemma on_first_none: "find_kvp key 0 ks = None \<Longrightarrow> on_first key f ks = ks"
  by (induction ks) (auto split: if_splits)

lemma k_addr_set_attr [simp]: "k_addr (set_attr attr value kvp) = k_addr kvp"
  by (simp add: set_attr_def set_vals_def)

lemma change_first:
  assumes ok: "chain_ok sip" and key: "key \<noteq> []" "attr \<noteq> []" "value \<noteq> []"
  shows "bindE (get_kvp_from_sip_message sip key 0) (\<lambda>kvp. change_header sip kvp attr value) =
    Inr (sip\<lparr>s_kvps := on_first key (set_attr attr value) (s_kvps sip)\<rparr>)"
proof (cases "find_kvp key 0 (s_kvps sip)")
  case None
  then show ?thesis
    using key by (simp add: get_kvp_from_sip_message_def assert_key_def change_header_def on_first_none)
next
  case (Some i)
  have d: "distinct (map k_addr (s_kvps sip))" using ok by (simp add: chain_ok_def)
  have "change_value_from_kvp_by_name k attr value = Inr (set_attr attr value k)" for k
    using key by (simp add: change_value_from_kvp_by_name_def set_attr_def attr_is_iff)
  then show ?thesis
    using put_first [OF d Some, of "set_attr attr value"] Some key
    by (simp add: get_kvp_from_sip_message_def assert_key_def change_header_def put_kvp_def)
qed

section \<open>The blocks\<close>

text \<open>The attributes a query can change by words: path, key, attribute and the choice of the value.\<close>

definition attr_rows :: "(string list \<times> string \<times> string \<times> (string \<Rightarrow> string)) list" where
  "attr_rows =
     [([''www_authenticate'', ''algorithm''], WWW_AUTHENTICATE, ''algorithm'', algorithm_value),
      ([''security_server'', ''alg''], SECURITY_SERVER, ''alg'', alg_value),
      ([''security_server'', ''ealg''], SECURITY_SERVER, ''ealg'', ealg_value),
      ([''security_server'', ''prot''], SECURITY_SERVER, ''prot'', prot_value),
      ([''security_server'', ''mod''], SECURITY_SERVER, ''mod'', mod_value)]"

text \<open>The query has, among the nodes that are looked for, the one at a path only.\<close>

definition only_at :: "sheap \<Rightarrow> sip_instance_t \<Rightarrow> string list \<Rightarrow> addr \<Rightarrow> bool" where
  "only_at h inst path a \<longleftrightarrow>
     (\<forall>p\<in>set ([''www_authenticate'', ''nonce''] # map fst attr_rows).
        sip_query_at h inst UNAUTHORIZED_401 p = Inr (if p = path then Some a else None))"

lemma only_at_path:
  "only_at h inst path a \<Longrightarrow> p \<in> set ([''www_authenticate'', ''nonce''] # map fst attr_rows) \<Longrightarrow>
   sip_query_at h inst UNAUTHORIZED_401 p = Inr (if p = path then Some a else None)"
  unfolding only_at_def by blast

lemma nonce_block_skip:
  "sip_query_at h inst UNAUTHORIZED_401 [''www_authenticate'', ''nonce''] = Inr None \<Longrightarrow>
   nonce_block rand h inst sip = Inr sip"
  by (simp add: nonce_block_def)

lemma attr_block_skip:
  "sip_query_at h inst UNAUTHORIZED_401 path = Inr None \<Longrightarrow> attr_block path key attr pick h inst sip = Inr sip"
  by (simp add: attr_block_def)

lemma algorithm_block_skip:
  "sip_query_at h inst UNAUTHORIZED_401 [''www_authenticate'', ''algorithm''] = Inr None \<Longrightarrow>
   algorithm_block h inst sip = Inr sip"
  by (simp add: algorithm_block_def attr_block_skip)

lemma attr_block_update:
  assumes q: "sip_query_at h inst UNAUTHORIZED_401 path = Inr (Some a)" and n: "sh_mem h a = Some n"
    and upd: "sq_vtype n = VAL_TYPE_STRING" "sq_op n = OP_TYPE_UPDATE"
    and ok: "chain_ok sip" and ne: "key \<noteq> []" "attr \<noteq> []" "pick (cstr (sq_value n)) \<noteq> []"
  shows "attr_block path key attr pick h inst sip =
    Inr (sip\<lparr>s_kvps := on_first key (set_attr attr (pick (cstr (sq_value n)))) (s_kvps sip)\<rparr>)"
  using change_first [OF ok ne] q n upd
  by (simp add: attr_block_def sip_get_query_value_type_def sip_get_query_operator_def sip_get_query_value_def
      sderef_def)

lemma algorithm_block_update:
  assumes q: "sip_query_at h inst UNAUTHORIZED_401 [''www_authenticate'', ''algorithm''] = Inr (Some a)"
    and n: "sh_mem h a = Some n" and upd: "sq_vtype n = VAL_TYPE_STRING" "sq_op n = OP_TYPE_UPDATE"
    and r: "attr_block [''www_authenticate'', ''algorithm''] WWW_AUTHENTICATE ''algorithm'' algorithm_value h inst sip = Inr sip'"
  shows "algorithm_block h inst sip = Inr sip'"
  using q n upd r
  by (simp add: algorithm_block_def sip_get_query_value_type_def sip_get_query_operator_def sderef_def)

text \<open>The processing of a query is the block of the nonce followed by one block per row.\<close>

definition row_block ::
  "sheap \<Rightarrow> sip_instance_t \<Rightarrow> string list \<times> string \<times> string \<times> (string \<Rightarrow> string) \<Rightarrow> sip_message_t \<Rightarrow> sip_message_t cres" where
  "row_block h inst row =
     (case row of (path, key, attr, pick) \<Rightarrow>
        if attr = ''algorithm'' then algorithm_block h inst else attr_block path key attr pick h inst)"

lemma process_query_rows:
  "sip_process_query rand h inst sip = bindE (nonce_block rand h inst sip) (seqE (map (row_block h inst) attr_rows))"
  by (simp add: sip_process_query_def attr_rows_def row_block_def alg_header_block_def ealg_header_block_def
      prot_header_block_def mod_header_block_def)

lemma attr_rows_distinct: "distinct (map fst attr_rows)"
  by (simp add: attr_rows_def)

lemma nonce_path_other: "[''www_authenticate'', ''nonce''] \<notin> set (map fst attr_rows)"
  by (simp add: attr_rows_def)

lemma algorithm_row:
  "(path, key, attr, pick) \<in> set attr_rows \<Longrightarrow> attr = ''algorithm'' \<Longrightarrow>
   path = [''www_authenticate'', ''algorithm''] \<and> key = WWW_AUTHENTICATE \<and> pick = algorithm_value"
  by (simp add: attr_rows_def)

lemma row_block_skip:
  assumes "row \<in> set attr_rows" and "sip_query_at h inst UNAUTHORIZED_401 (fst row) = Inr None"
  shows "row_block h inst row sip = Inr sip"
proof -
  obtain path key attr pick where row: "row = (path, key, attr, pick)" by (cases row)
  show ?thesis
  proof (cases "attr = ''algorithm''")
    case True
    then have "path = [''www_authenticate'', ''algorithm'']"
      using algorithm_row [of path key attr pick] assms(1) row by blast
    then show ?thesis using assms(2) row True by (simp add: row_block_def algorithm_block_skip)
  next
    case False
    then show ?thesis using assms(2) row by (simp add: row_block_def attr_block_skip)
  qed
qed

lemma seqE_skip: "\<forall>r\<in>set rs. \<forall>s. f r s = Inr s \<Longrightarrow> seqE (map f rs) s = Inr s"
  by (induction rs) simp_all

lemma seqE_one:
  assumes "distinct rs" and "r \<in> set rs" and "\<forall>r'\<in>set rs. r' \<noteq> r \<longrightarrow> (\<forall>s. f r' s = Inr s)"
  shows "seqE (map f rs) s = f r s"
proof -
  obtain us vs where rs: "rs = us @ r # vs" using split_list [OF assms(2)] by blast
  have "\<forall>r'\<in>set us. \<forall>s. f r' s = Inr s" "\<forall>r'\<in>set vs. \<forall>s. f r' s = Inr s"
    using assms(1,3) rs by auto
  then have "seqE (map f us) s = Inr s" "bindE (f r s) (seqE (map f vs)) = f r s"
    using seqE_skip [of us f] seqE_skip [of vs f] by (cases "f r s"; simp)+
  then show ?thesis by (simp add: rs seqE_append)
qed

text \<open>A query with one of the rows only is processed by the block of that row.\<close>

lemma process_query_one:
  assumes row: "(path, key, attr, pick) \<in> set attr_rows" and q: "only_at h inst path a"
  shows "sip_process_query rand h inst sip = row_block h inst (path, key, attr, pick) sip"
proof -
  have skip: "row_block h inst r s = Inr s" if r: "r \<in> set attr_rows" "r \<noteq> (path, key, attr, pick)" for r s
  proof (rule row_block_skip [OF r(1)])
    have "fst r \<noteq> path"
      using r row attr_rows_distinct by (metis eq_key_imp_eq_value fst_conv prod.collapse)
    then show "sip_query_at h inst UNAUTHORIZED_401 (fst r) = Inr None"
      using only_at_path [OF q, of "fst r"] r(1) by simp
  qed
  have "path \<noteq> [''www_authenticate'', ''nonce'']" using nonce_path_other row by force
  then have "nonce_block rand h inst sip = Inr sip"
    using only_at_path [OF q, of "[''www_authenticate'', ''nonce'']"] by (simp add: nonce_block_skip)
  moreover have "seqE (map (row_block h inst) attr_rows) sip = row_block h inst (path, key, attr, pick) sip"
    using skip by (intro seqE_one [OF distinct_map [THEN iffD1, OF attr_rows_distinct, THEN conjunct1] row]) blast
  ultimately show ?thesis by (simp add: process_query_rows)
qed

lemma pick_nonempty: "(path, key, attr, pick) \<in> set attr_rows \<Longrightarrow> pick s \<noteq> [] \<and> key \<noteq> [] \<and> attr \<noteq> []"
  by (auto simp: attr_rows_def algorithm_value_def alg_value_def ealg_value_def prot_value_def mod_value_def
      WWW_AUTHENTICATE_def SECURITY_SERVER_def split: if_splits)

lemma row_block_update:
  assumes row: "(path, key, attr, pick) \<in> set attr_rows"
    and at: "sip_query_at h inst UNAUTHORIZED_401 path = Inr (Some a)"
    and n: "sh_mem h a = Some n" and upd: "sq_vtype n = VAL_TYPE_STRING" "sq_op n = OP_TYPE_UPDATE"
    and ok: "chain_ok sip"
  shows "row_block h inst (path, key, attr, pick) sip =
    Inr (sip\<lparr>s_kvps := on_first key (set_attr attr (pick (cstr (sq_value n)))) (s_kvps sip)\<rparr>)"
proof -
  have new: "attr_block path key attr pick h inst sip =
      Inr (sip\<lparr>s_kvps := on_first key (set_attr attr (pick (cstr (sq_value n)))) (s_kvps sip)\<rparr>)"
    using pick_nonempty [OF row] by (intro attr_block_update [OF at n upd ok]) auto
  show ?thesis
  proof (cases "attr = ''algorithm''")
    case True
    then have "path = [''www_authenticate'', ''algorithm'']" "key = WWW_AUTHENTICATE" "pick = algorithm_value"
      using algorithm_row [OF row] by blast+
    then show ?thesis using new algorithm_block_update [OF _ n upd] at True by (simp add: row_block_def)
  next
    case False
    then show ?thesis using new by (simp add: row_block_def)
  qed
qed

text \<open>A drop removes the first value of the attribute.\<close>

definition has_attr :: "string \<Rightarrow> kvp_t \<Rightarrow> bool" where
  "has_attr attr kvp \<longleftrightarrow> Some attr \<in> v_attr ` set (vl_vals (k_vlst kvp))"

definition remove_attr :: "string \<Rightarrow> kvp_t \<Rightarrow> kvp_t" where
  "remove_attr attr kvp =
     set_vals kvp (let vs = vl_vals (k_vlst kvp); n = length (takeWhile (\<lambda>v. v_attr v \<noteq> Some attr) vs)
                   in take n vs @ drop (Suc n) vs)"

lemma unlink_val_eq:
  "attr \<noteq> [] \<Longrightarrow> unlink_val attr vs =
     (if Some attr \<in> v_attr ` set vs
      then let n = length (takeWhile (\<lambda>v. v_attr v \<noteq> Some attr) vs) in Inr (take n vs @ drop (Suc n) vs)
      else Inl NullDeref)"
  by (induction vs) (auto simp: attr_is_iff Let_def)

lemma drop_first:
  assumes ok: "chain_ok sip" and key: "key \<noteq> []" "attr \<noteq> []"
  shows "bindE (get_kvp_from_sip_message sip key 0) (\<lambda>kvp. drop_header sip kvp attr) =
    (case find_kvp key 0 (s_kvps sip) of
       None \<Rightarrow> Inr sip
     | Some i \<Rightarrow> if has_attr attr (s_kvps sip ! i)
                 then Inr (sip\<lparr>s_kvps := on_first key (remove_attr attr) (s_kvps sip)\<rparr>) else Inl NullDeref)"
proof (cases "find_kvp key 0 (s_kvps sip)")
  case None
  then show ?thesis using key by (simp add: get_kvp_from_sip_message_def assert_key_def drop_header_def)
next
  case (Some i)
  have d: "distinct (map k_addr (s_kvps sip))" using ok by (simp add: chain_ok_def)
  have "del_value_from_kvp_by_name k attr = (if has_attr attr k then Inr (remove_attr attr k) else Inl NullDeref)" for k
    using key
    by (simp add: del_value_from_kvp_by_name_def assert_key_def unlink_val_eq has_attr_def remove_attr_def Let_def)
  moreover have "k_addr (remove_attr attr k) = k_addr k" for k by (simp add: remove_attr_def set_vals_def)
  ultimately show ?thesis
    using put_first [OF d Some, of "remove_attr attr"] Some key
    by (simp add: get_kvp_from_sip_message_def assert_key_def drop_header_def put_kvp_def)
qed

lemma attr_block_drop:
  assumes "sip_query_at h inst UNAUTHORIZED_401 path = Inr (Some a)" and "sh_mem h a = Some n"
    and "sq_op n = OP_TYPE_DROP"
  shows "attr_block path key attr pick h inst sip =
    bindE (get_kvp_from_sip_message sip key 0) (\<lambda>kvp. drop_header sip kvp attr)"
  using assms by (simp add: attr_block_def sip_get_query_value_type_def sip_get_query_operator_def sderef_def)

lemma algorithm_block_drop:
  assumes "sip_query_at h inst UNAUTHORIZED_401 [''www_authenticate'', ''algorithm''] = Inr (Some a)"
    and "sh_mem h a = Some n" and "sq_op n = OP_TYPE_DROP"
  shows "algorithm_block h inst sip =
    bindE (bindE (get_kvp_from_sip_message sip WWW_AUTHENTICATE 0) (\<lambda>kvp. drop_header sip kvp ''algorithm''))
      (\<lambda>_. Inl UninitRead)"
  using assms
  by (simp add: algorithm_block_def attr_block_drop sip_get_query_value_type_def sip_get_query_operator_def sderef_def)

section \<open>Reports\<close>

text \<open>
  The steps of an instance, with the symbols of the responses that were reported since the last reset:
  a request or a response is reported, the sender takes a message, the listener installs a query or
  resets the instance.
\<close>

inductive ims_step :: "sip_instance_t \<times> string list \<Rightarrow> sip_instance_t \<times> string list \<Rightarrow> bool" where
  request: "report_request inst mname = Inr inst' \<Longrightarrow> ims_step (inst, log) (inst', log)"
| response: "response_symbol h inst q mname = Inr symbol \<Longrightarrow>
    send_report (case symbol of None \<Rightarrow> inst | Some s \<Rightarrow> inst\<lparr>si_sprev := s\<rparr>) symbol = Inr inst' \<Longrightarrow>
    ims_step (inst, log) (inst', log @ (case symbol of None \<Rightarrow> [] | Some s \<Rightarrow> [s]))"
| sent: "sip_fetch_message_from_send_queue inst = Inr (m, inst') \<Longrightarrow> ims_step (inst, log) (inst', log)"
| install: "ims_step (inst, log) (sip_set_query inst q, log)"
| reset: "ims_step (inst, log) (sip_reset_instance inst, [])"
| finish: "ims_step (inst, log) (sip_finish_instance inst, [])"

inductive_cases ims_stepE [elim]: "ims_step s s'"

lemma add_message_sprev:
  "sip_add_message_to_send_queue inst m = Inr (inst', r) \<Longrightarrow> si_sprev inst' = si_sprev inst"
  by (auto simp: sip_add_message_to_send_queue_def split: if_splits)

lemma send_report_sprev: "send_report inst symbol = Inr inst' \<Longrightarrow> si_sprev inst' = si_sprev inst"
  by (auto simp: send_report_def bindE_Inr_iff split: option.splits dest!: add_message_sprev)

lemma report_request_sprev: "report_request inst mname = Inr inst' \<Longrightarrow> si_sprev inst' = si_sprev inst"
  by (auto simp: report_request_def Let_def dest: send_report_sprev)

lemma fetch_sprev: "sip_fetch_message_from_send_queue inst = Inr (m, inst') \<Longrightarrow> si_sprev inst' = si_sprev inst"
  by (auto simp: sip_fetch_message_from_send_queue_def Let_def bindE_Inr_iff split: if_splits list.splits)

lemma response_symbol_cases:
  "response_symbol h inst q mname = Inr (Some s) \<Longrightarrow>
   s = UNAUTHORIZED_401 \<and> has_prefix (si_sprev inst) IKE_AUTH_3_REPLY \<or>
   s = OK_200 \<and> has_prefix (si_sprev inst) UNAUTHORIZED_401"
  by (auto simp: response_symbol_def bindE_Inr_iff split: if_splits)

text \<open>The phases of a registration: no response yet, 401 reported, 401 and 200 reported.\<close>

definition phase_ok :: "sip_instance_t \<times> string list \<Rightarrow> bool" where
  "phase_ok s \<longleftrightarrow>
     (snd s, si_sprev (fst s)) \<in>
       {([], IKE_AUTH_3_REPLY), ([UNAUTHORIZED_401], UNAUTHORIZED_401),
        ([UNAUTHORIZED_401, OK_200], OK_200)}"

lemma phase_prefixes:
  "\<not> has_prefix UNAUTHORIZED_401 IKE_AUTH_3_REPLY" "\<not> has_prefix OK_200 IKE_AUTH_3_REPLY"
  "\<not> has_prefix IKE_AUTH_3_REPLY UNAUTHORIZED_401" "\<not> has_prefix OK_200 UNAUTHORIZED_401"
  by (simp_all add: has_prefix_def UNAUTHORIZED_401_def IKE_AUTH_3_REPLY_def OK_200_def cstr_simps)

lemma phase_response:
  assumes "phase_ok (inst, log)" and "response_symbol h inst q mname = Inr (Some s)"
    and "si_sprev inst' = s"
  shows "phase_ok (inst', log @ [s])"
  using assms response_symbol_cases [OF assms(2)] phase_prefixes by (auto simp: phase_ok_def)

lemma ims_step_phase: "ims_step s s' \<Longrightarrow> phase_ok s \<Longrightarrow> phase_ok s'"
proof (induction rule: ims_step.induct)
  case (response h inst q mname symbol inst' log)
  show ?case
  proof (cases symbol)
    case None
    then show ?thesis using response send_report_sprev by (fastforce simp: phase_ok_def)
  next
    case (Some s)
    then have "si_sprev inst' = s" using response(2) by (auto dest: send_report_sprev)
    then show ?thesis using phase_response [OF response(3)] response(1) Some by simp
  qed
qed (auto simp: phase_ok_def sip_set_query_def sip_reset_instance_def sip_finish_instance_def
    dest: report_request_sprev fetch_sprev)

section \<open>The report of a response\<close>

lemma query_name_unique:
  "sip_is_query_name h q name = Inr True \<Longrightarrow> sip_is_query_name h q name' = Inr (name' = name)"
  by (cases "sderef h q") (auto simp: sip_is_query_name_def cstr_simps)

lemma only_at_name:
  assumes "only_at h inst path a" and "path \<in> fst ` set attr_rows"
  shows "\<exists>q. sip_get_query inst = Some q \<and> sip_is_query_name h (Some q) UNAUTHORIZED_401 = Inr True"
  using only_at_path [OF assms(1), of path] assms(2)
  by (auto simp: sip_query_at_def bindE_Inr_iff split: option.splits if_splits)

lemma only_at_query: "si_query inst' = si_query inst \<Longrightarrow> only_at h inst' path a = only_at h inst path a"
  by (simp add: only_at_def sip_query_at_def sip_get_query_def)

text \<open>The two messages of a report: the symbol that starts the block and the end of the block.\<close>

definition report_of :: "string \<Rightarrow> sip_msg_t list \<Rightarrow> bool" where
  "report_of symbol ms \<longleftrightarrow>
     map (\<lambda>m. (sm_mtype m, sm_key m, sm_vlen m)) ms =
       [(word_of_int MSG_TYPE_BLOCK_START, symbol, 0), (word_of_int MSG_TYPE_BLOCK_END, [], 0)]"

lemma add_message_query:
  "sip_add_message_to_send_queue inst m = Inr (inst', r) \<Longrightarrow> si_query inst' = si_query inst"
  by (auto simp: sip_add_message_to_send_queue_def split: if_splits)

lemma send_report_queue:
  assumes wf: "sip_queue_wf inst" and room: "length (sip_queue_contents inst) + 2 \<le> SIP_MAX_QUEUE_LEN"
    and len: "length symbol \<le> MAX_MESSAGE_LEN"
  shows "\<exists>inst' ms. send_report inst (Some symbol) = Inr inst' \<and> sip_queue_wf inst' \<and> report_of symbol ms \<and>
    sip_queue_contents inst' = sip_queue_contents inst @ ms \<and>
    si_sprev inst' = si_sprev inst \<and> si_query inst' = si_query inst"
proof -
  obtain m1 where m1: "sip_init_message MSG_TYPE_BLOCK_START (Some symbol) VAL_TYPE_NONE None VAL_LENGTH_NONE = Inr m1"
    "sm_mtype m1 = word_of_int MSG_TYPE_BLOCK_START" "sm_key m1 = symbol" "sm_vlen m1 = 0"
    using len by (simp add: sip_init_message_def)
  obtain m2 where m2: "sip_init_message MSG_TYPE_BLOCK_END None VAL_TYPE_NONE None VAL_LENGTH_NONE = Inr m2"
    "sm_mtype m2 = word_of_int MSG_TYPE_BLOCK_END" "sm_key m2 = []" "sm_vlen m2 = 0"
    by (simp add: sip_init_message_def)
  obtain i1 where i1: "sip_add_message_to_send_queue inst m1 = Inr (i1, 1)" "sip_queue_wf i1"
    "sip_queue_contents i1 = sip_queue_contents inst @ [m1]"
    using ims_queue.add_room [OF wf, of m1] room by auto
  obtain i2 where i2: "sip_add_message_to_send_queue i1 m2 = Inr (i2, 1)" "sip_queue_wf i2"
    "sip_queue_contents i2 = sip_queue_contents i1 @ [m2]"
    using ims_queue.add_room [OF i1(2), of m2] i1(3) room by auto
  have r: "send_report inst (Some symbol) = Inr i2" using m1(1) m2(1) i1(1) i2(1) by (simp add: send_report_def)
  moreover have "report_of symbol [m1, m2]" using m1 m2 by (simp add: report_of_def)
  moreover have "sip_queue_contents i2 = sip_queue_contents inst @ [m1, m2]" using i1(3) i2(3) by simp
  moreover have "si_query i2 = si_query inst" using add_message_query i1(1) i2(1) by metis
  ultimately show ?thesis using i2(2) send_report_sprev [OF r] by blast
qed

text \<open>Without a query nothing is processed.\<close>

lemma process_query_none:
  assumes "si_query inst = None"
  shows "sip_process_query rand h inst sip = Inr sip"
proof -
  have "sip_query_at h inst UNAUTHORIZED_401 p = Inr None" for p
    using assms by (simp add: sip_query_at_def sip_get_query_def)
  then show ?thesis
    using seqE_skip [of attr_rows "row_block h inst"] row_block_skip nonce_block_skip by (simp add: process_query_rows)
qed

text \<open>The report of the first 401 response, when the query that is installed asks for it.\<close>

lemma report_first_401:
  assumes q: "only_at h inst path a" "path \<in> fst ` set attr_rows"
    and run: "si_running inst \<noteq> 0" "\<not> si_finished inst" "si_sprev inst = IKE_AUTH_3_REPLY"
    and sip: "s_mtype sip = SC_SIP_RESPONSE" "s_mname sip = Some ''unauthorized''"
    and queue: "sip_queue_wf inst" "length (sip_queue_contents inst) + 2 \<le> SIP_MAX_QUEUE_LEN"
  shows "\<exists>inst' ms. report_message h inst sip env = Inr (Some (h, inst')) \<and> sip_queue_wf inst' \<and>
    sip_queue_contents inst' = sip_queue_contents inst @ ms \<and> report_of UNAUTHORIZED_401 ms \<and>
    si_sprev inst' = UNAUTHORIZED_401 \<and> si_query inst' = si_query inst"
proof -
  let ?inst = "inst\<lparr>si_sprev := UNAUTHORIZED_401\<rparr>"
  obtain b where b: "sip_get_query inst = Some b" "sip_is_query_name h (Some b) UNAUTHORIZED_401 = Inr True"
    using only_at_name [OF q] by blast
  have "UNAUTHORIZED_401 \<noteq> IKE_AUTH_3_REPLY" by (simp add: UNAUTHORIZED_401_def IKE_AUTH_3_REPLY_def)
  then have "sip_must_wait h inst = Inr False"
    using query_name_unique [OF b(2), of IKE_AUTH_3_REPLY] b(1) run(3) by (simp add: sip_must_wait_def sip_get_query_def)
  then have o: "observed ((h, inst) # env) = Inr (Some (h, inst))" by simp
  have s: "response_symbol h inst (Some b) ''unauthorized'' = Inr (Some UNAUTHORIZED_401)"
    using b(2) run(3) by (simp add: response_symbol_def has_prefix_def cstr_simps)
  have "sip_queue_wf ?inst" "sip_queue_contents ?inst = sip_queue_contents inst"
    using queue(1) by (simp_all add: sip_queue_wf_def sip_queue_contents_def)
  moreover have "length UNAUTHORIZED_401 \<le> MAX_MESSAGE_LEN" by (simp add: UNAUTHORIZED_401_def)
  ultimately obtain inst' ms where i: "send_report ?inst (Some UNAUTHORIZED_401) = Inr inst'" "sip_queue_wf inst'"
    "report_of UNAUTHORIZED_401 ms" "sip_queue_contents inst' = sip_queue_contents inst @ ms"
    "si_sprev inst' = si_sprev ?inst" "si_query inst' = si_query ?inst"
    using send_report_queue [of ?inst UNAUTHORIZED_401] queue(2) by auto
  have "report_message h inst sip env = Inr (Some (h, inst'))"
    using i(1) o s b(1) run sip by (simp add: report_message_def report_response_def del: observed.simps)
  then show ?thesis using i by auto
qed

end
