(* ===== verification/Sip_Properties.thy ===== *)
theory Sip_Properties
  imports Sip_Proofs Epdg_Properties
begin

text \<open>
  The properties of the IMS side, each with an instance at a concrete input where it has hypotheses.
\<close>

section \<open>The listener\<close>

definition example_401 :: testcase where
  "example_401 =
     Testcase ''401_unauthorized'' None None
       (Some [Testcase ''security_server'' None None
                (Some [Testcase ''alg'' (Some ''update'') (Some (VT_STRING, ''hmac-sha-1-96'')) None])])"

lemma example_401_ok: "chain_shaped example_401" "wire_ok example_401"
  by (simp_all add: example_401_def plain_def tc_text_def getValueTypeAsInteger_def digits_pos)

lemma example_401_fits: "input_fits (concat (sendMessage no_spi no_spi True example_401))"
  by code_simp

text \<open>
  C3: The listener of the IMS server refines the one of the ePDG. On every input it gives the same fault
  or a state that represents the state of the ePDG's listener, or it leaves one of its own buffers; and on
  every input of fewer than 249 lines of at most 289 bytes the latter does not happen either.
\<close>

theorem ims_listener_refines:
  "(sip_listener_run input (sip_init_listener asock pid) = Inl OutOfBounds \<or>
    rel_sum (=) listener_rel (sip_listener_run input (sip_init_listener asock pid))
      (listener_run input (init_listener asock))) \<and>
   (input_fits input \<longrightarrow>
    rel_sum (=) listener_rel (sip_listener_run input (sip_init_listener asock pid))
      (listener_run input (init_listener asock)))"
proof -
  have "ref_res fits listener_rel (sip_listener_run input (sip_init_listener asock pid))
      (listener_run input (init_listener asock))" if "fits \<Longrightarrow> input_fits input" for fits
    using that
    by (intro listener_run_rel init_listener_rel) (auto simp: input_fits_def sip_init_listener_def empty_sheap_def)
  from this [of False] this [of "input_fits input"] show ?thesis by (auto simp: ref_res_def)
qed

theorem ims_listener_refines_witness:
  "input_fits (concat (sendMessage no_spi no_spi True example_401)) \<and>
   rel_sum (=) listener_rel
     (sip_listener_run (concat (sendMessage no_spi no_spi True example_401)) (sip_init_listener 3 100))
     (listener_run (concat (sendMessage no_spi no_spi True example_401)) (init_listener 3))"
  using ims_listener_refines [of "concat (sendMessage no_spi no_spi True example_401)" 3 100] example_401_fits by blast

text \<open>
  A testcase for the IMS server is installed as it was sent. For every testcase in which each payload
  is the only sub-testcase of its parent and whose lines fit, the listener installs a query whose nodes
  carry exactly the names, operators, value types and values of the testcase.
\<close>

theorem ims_installs_testcase:
  assumes "spi_ok ispi" and "spi_ok rspi" and "chain_shaped tc" and "wire_ok tc"
    and fits: "input_fits (concat (sendMessage ispi rspi True tc))"
  shows "\<exists>st h t. sip_listener_run (concat (sendMessage ispi rspi True tc)) (sip_init_listener asock pid) = Inr st \<and>
           si_query (sl_inst st) = Some (qt_addr t) \<and> heap_rel (sl_heap st) h \<and> query_ok h t \<and> erase t = tc_spec tc"
proof -
  let ?in = "concat (sendMessage ispi rspi True tc)"
  obtain st' t where st': "listener_run ?in (init_listener asock) = Inr st'"
    "i_query (l_inst st') = Some (qt_addr t)" "query_ok (l_heap st') t" "erase t = tc_spec tc"
    using listener_installs [OF init_listener_idle assms(1,2,4), of "tc_spec tc"] message_built assms by blast
  have "ref_res True listener_rel (sip_listener_run ?in (sip_init_listener asock pid)) (Inr st')"
    using listener_run_rel [OF init_listener_rel, of True ?in asock pid asock] fits st'(1)
    by (simp add: input_fits_def sip_init_listener_def empty_sheap_def)
  then obtain st where st: "sip_listener_run ?in (sip_init_listener asock pid) = Inr st" "listener_rel st st'"
    by (cases "sip_listener_run ?in (sip_init_listener asock pid)") (auto simp: ref_res_def)
  then have "si_query (sl_inst st) = Some (qt_addr t)" "heap_rel (sl_heap st) (l_heap st')"
    using st'(2) by (simp_all add: listener_rel_def)
  then show ?thesis using st(1) st'(3,4) by blast
qed

theorem ims_installs_testcase_witness:
  "\<exists>st h t. sip_listener_run (concat (sendMessage no_spi no_spi True example_401)) (sip_init_listener 3 100) = Inr st \<and>
     si_query (sl_inst st) = Some (qt_addr t) \<and> heap_rel (sl_heap st) h \<and> query_ok h t \<and> erase t = tc_spec example_401"
  by (rule ims_installs_testcase [OF spi_ok_zero spi_ok_zero example_401_ok example_401_fits])

section \<open>The send queue\<close>

text \<open>
  The send queue of the IMS server is a bounded first-in first-out queue of capacity eight, for every
  interleaving of additions and fetches.
\<close>

theorem ims_queue_fifo:
  assumes "sip_queue_wf inst"
  shows "\<exists>inst' ys ins outs.
           spec_ops SIP_MAX_QUEUE_LEN (sip_queue_contents inst) ops = (ys, ins, outs) \<and>
           run_ops sip_add_message_to_send_queue sip_fetch_message_from_send_queue inst ops = Inr (inst', ins, outs) \<and>
           sip_queue_wf inst' \<and> sip_queue_contents inst' = ys \<and> length ys \<le> SIP_MAX_QUEUE_LEN \<and>
           outs @ sip_queue_contents inst' = sip_queue_contents inst @ ins"
proof -
  obtain ys ins outs where s: "spec_ops SIP_MAX_QUEUE_LEN (sip_queue_contents inst) ops = (ys, ins, outs)"
    by (metis prod_cases3)
  have "length (sip_queue_contents inst) \<le> SIP_MAX_QUEUE_LEN"
    using assms by (auto simp: sip_queue_wf_def sip_queue_contents_def)
  from ims_queue.run_ops_refines [OF assms s] spec_ops_order [OF s] spec_ops_bounded [OF this s] s
  show ?thesis by auto
qed

definition example_report :: sip_msg_t where
  "example_report = \<lparr>sm_mtype = 2, sm_key = ''register_1'', sm_klen = 10, sm_vtype = VAL_TYPE_NONE, sm_val = [], sm_vlen = 0\<rparr>"

theorem ims_queue_fifo_witness:
  "\<exists>inst'. run_ops sip_add_message_to_send_queue sip_fetch_message_from_send_queue (sip_init_instance 3 100)
             [Add example_report, Fetch, Fetch] = Inr (inst', [example_report], [example_report]) \<and>
           sip_queue_contents inst' = []"
  using ims_queue_fifo [OF sip_queue_wf_init [of 3 100], of "[Add example_report, Fetch, Fetch]"]
  by (auto simp: sip_queue_contents_init)

text \<open>
  The value of a message never reaches the wire. Whatever string of at most 256 bytes a message is made
  with, the line that the sender writes for it has as many NUL bytes in its place (the copy in
  \<^verbatim>\<open>init_message\<close> uses the length before it is assigned).
\<close>

theorem ims_message_value_lost:
  assumes "0 < vlen" and "vlen \<le> int MAX_VALUE_LEN" and "length key \<le> 1000"
  shows "\<exists>msg. sip_init_message mtype (Some key) VAL_TYPE_STRING (Some val) vlen = Inr msg \<and>
    sip_sender_line msg =
      Inr (char_of (unat (word_of_int mtype :: 8 word)) # replicate 32 (CHR ''0'') @ key @ '':11:''
           @ replicate (nat vlen) NUL @ [NL])"
proof -
  have "int_to_char VAL_TYPE_STRING 10 = Inr ''11''" by code_simp
  moreover have "replicate 16 (CHR ''0'') @ replicate 16 (CHR ''0'') @ x = replicate 32 (CHR ''0'') @ x" for x
    by (simp add: replicate_add [symmetric] append_assoc [symmetric] del: append_assoc)
  ultimately show ?thesis
    using assms
    by (auto simp: sip_init_message_def sip_sender_line_def sip_sender_value_def read_bytes_def Let_def)
qed

theorem ims_message_value_lost_witness:
  "\<exists>msg. sip_init_message 1 (Some ''nonce'') VAL_TYPE_STRING (Some ''abc'') 3 = Inr msg \<and>
    sip_sender_line msg = Inr (CHR 0x01 # replicate 32 (CHR ''0'') @ ''nonce:11:'' @ [NUL, NUL, NUL, NL])"
  using ims_message_value_lost [of 3 "''nonce''" 1 "''abc''"] by (simp add: numeral_eq_Suc char_of_def bit_0)

section \<open>Messages\<close>

definition example_headers :: "(string \<times> string) list" where
  "example_headers =
     [(''WWW-Authenticate'', ''Digest realm=ims, nonce='' @ [CHR 0x22] @ ''a=b;c'' @ [CHR 0x22] @ '',algorithm=AKAv1-MD5''),
      (''Security-Server'', ''ipsec-3gpp;alg=hmac-md5-96;prot=esp;mod=trans;ealg=null''),
      (''Contact'', ''<sip:ue;transport=tcp>;expires=60'')]"

lemma example_response_ok: "response_ok ''401'' ''Unauthorized'' example_headers"
  by code_simp

text \<open>
  C10: Parsing and serialising a response is lossless up to the case of the reason phrase. For every 401 or
  200 response whose header values have balanced quotes and at most one equals sign outside of them between
  two delimiters, the parser builds a well-formed list with exactly these headers and the serialiser writes
  the same text with the reason phrase in small letters, provided that the bytes behind the copies of the
  values are neither a semicolon nor a space.
\<close>

theorem response_roundtrip:
  assumes "response_ok code reason hs" and "\<forall>i. pasts i \<noteq> CHR '';'' \<and> pasts i \<noteq> CHR '' ''"
  shows "\<exists>sip. init_sip_message (response_text code reason hs) (NUL # mem) pasts = Inr sip \<and> chain_ok sip \<and>
    map (\<lambda>k. (k_key k, serialize_value k)) (s_kvps sip) = map (\<lambda>h. (fst h, Inr (snd h))) hs \<and>
    serialize_sip_message sip = Inr (response_text code (to_lower reason) hs)"
proof -
  obtain sip where sip: "init_sip_message (response_text code reason hs) (NUL # mem) pasts = Inr sip" "chain_ok sip"
    "map (\<lambda>k. (k_key k, vals_text (k_vlst k))) (s_kvps sip) = hs" "s_mtype sip = SC_SIP_RESPONSE"
    "s_mname sip = Some (to_lower reason)" "s_additional sip = Some code"
    using init_response [OF assms] by blast
  have "serialize_value k = Inr (vals_text (k_vlst k))" if "k \<in> set (s_kvps sip)" for k
  proof -
    have "(k_key k, vals_text (k_vlst k)) \<in> set hs" using that sip(3) by force
    then have "header_ok (k_key k, vals_text (k_vlst k))" using assms(1) by (simp add: response_ok_def list_all_iff)
    then show ?thesis by (simp add: header_ok_def serialize_value_def vals_text_def)
  qed
  then have "map (\<lambda>k. (k_key k, serialize_value k)) (s_kvps sip) = map (\<lambda>h. (fst h, Inr (snd h))) hs"
    using sip(3) by (auto simp flip: sip(3))
  then show ?thesis using sip serialize_response [OF assms(1) sip(3-6)] by blast
qed

theorem response_roundtrip_witness:
  "\<exists>sip. init_sip_message (response_text ''401'' ''Unauthorized'' example_headers) [NUL] (\<lambda>_. NUL) = Inr sip \<and>
     serialize_sip_message sip = Inr (response_text ''401'' (to_lower ''Unauthorized'') example_headers)"
  using response_roundtrip [OF example_response_ok, of "\<lambda>_. NUL" "[]"] by auto

text \<open>
  A second equals sign loses text. When a value has two unquoted equals signs between delimiters, what
  stands before the first of them is gone after parsing and serialising.
\<close>

theorem second_equals_loses_text:
  assumes "val_scan a False 0 = (False, 0)" and "val_scan b False 0 = (False, 0)" and "val_scan c False 0 = (False, 0)"
    and "length a + length b + length c + 2 < SC_BUF_LENGTH"
  shows "\<exists>v. init_val (a @ ''='' @ b @ ''='' @ c) NUL False = Inr v \<and> val_text v = b @ ''='' @ c"
proof -
  have step: "init_val_loop (p @ CHR ''='' # q) t False v = init_val_loop q [] False (v\<lparr>v_attr := Some (t @ p)\<rparr>)"
    if "val_scan p False 0 = (False, 0)" and "length t + length p < SC_BUF_LENGTH" for p q t v
    using init_val_loop_skip [OF that] by simp
  show ?thesis
    using assms init_val_loop_plain [of c False 0 "[]"]
    by (simp add: init_val_def step val_text_def)
qed

theorem second_equals_loses_text_witness:
  "\<exists>v. init_val ''nonce=abc=def'' NUL False = Inr v \<and> val_text v = ''abc=def''"
  using second_equals_loses_text [of "''nonce''" "''abc''" "''def''"] by simp

text \<open>
  Headers are inserted and deleted where the key and the index say. On a well-formed list with a fresh
  node, adding puts the node behind the selected header (at the end if there is none) and deleting removes
  the selected header; both keep the tail pointer at the last node and the count right.
\<close>

theorem header_list_operations:
  assumes "chain_ok sip" and "k_addr kvp \<notin> k_addr ` set (s_kvps sip)" and "key \<noteq> []"
  shows "\<exists>added deleted.
    add_kvp_to_sip_message sip kvp (Some key) idx = Inr (SC_SUCCESS, added) \<and> chain_ok added \<and>
    s_kvps added = (case find_kvp key idx (s_kvps sip) of
                      None \<Rightarrow> s_kvps sip @ [kvp]
                    | Some i \<Rightarrow> take (Suc i) (s_kvps sip) @ kvp # drop (Suc i) (s_kvps sip)) \<and>
    del_kvp_from_sip_message sip key idx = Inr deleted \<and> chain_ok deleted \<and>
    s_kvps deleted = (case find_kvp key idx (s_kvps sip) of
                        None \<Rightarrow> s_kvps sip
                      | Some i \<Rightarrow> take i (s_kvps sip) @ drop (Suc i) (s_kvps sip))"
proof -
  let ?added = "add_node (add_position sip (Some key) idx) kvp sip"
  have "add_kvp_to_sip_message sip kvp (Some key) idx = Inr (SC_SUCCESS, ?added)"
    using add_kvp_node [OF assms(1)] assms(3) by simp
  moreover have "chain_ok ?added" using chain_ok_add_node [OF assms(1) add_position_le assms(2)] .
  moreover have "s_kvps ?added = (case find_kvp key idx (s_kvps sip) of
                      None \<Rightarrow> s_kvps sip @ [kvp]
                    | Some i \<Rightarrow> take (Suc i) (s_kvps sip) @ kvp # drop (Suc i) (s_kvps sip))"
    by (simp add: add_node_def add_position_def split: option.splits)
  ultimately show ?thesis using del_kvp_node [OF assms(1,3), of idx] by blast
qed

definition example_kvp :: "nat \<Rightarrow> string \<Rightarrow> val_t list \<Rightarrow> kvp_t" where
  "example_kvp a key vals = \<lparr>k_addr = a, k_key = key, k_vlst = \<lparr>vl_num = int (length vals), vl_vals = vals\<rparr>\<rparr>"

definition example_val :: "string \<Rightarrow> string \<Rightarrow> val_t" where
  "example_val attr text = \<lparr>v_attr = Some attr, v_val = Some text, v_delimiter = CHR '';'', v_space = False\<rparr>"

definition example_sip :: sip_message_t where
  "example_sip = null_sip_message\<lparr>s_mtype := SC_SIP_RESPONSE, s_mname := Some ''unauthorized'', s_num := 2,
     s_kvps := [example_kvp 0 ''Via'' [], example_kvp 1 SECURITY_SERVER [example_val ''alg'' ''hmac-md5-96'', example_val ''mod'' ''trans'']],
     s_tail := Some 1\<rparr>"

lemma example_sip_ok: "chain_ok example_sip"
  by (simp add: chain_ok_def example_sip_def example_kvp_def)

theorem header_list_operations_witness:
  "\<exists>added. add_kvp_to_sip_message example_sip (example_kvp 2 ''Date'' []) (Some ''Via'') 0 = Inr (SC_SUCCESS, added) \<and>
     chain_ok added \<and> map k_key (s_kvps added) = [''Via'', ''Date'', SECURITY_SERVER]"
  using header_list_operations [OF example_sip_ok, of "example_kvp 2 ''Date'' []" "''Via''" 0]
  by (auto simp: example_sip_def example_kvp_def)

text \<open>
  Deleting a value breaks later accesses. After the value of an attribute was deleted, the last index
  that the number of values still admits leads to a NULL dereference, in the accessor that checks it.
\<close>

theorem deleted_value_index_faults:
  assumes "vl_num (k_vlst kvp) = int (length (vl_vals (k_vlst kvp)))"
    and "del_value_from_kvp_by_name kvp attr = Inr kvp'"
  shows "get_num_of_values_from_kvp kvp' = int (length (vl_vals (k_vlst kvp')) + 1) \<and>
    get_value_from_kvp_by_idx kvp' (get_num_of_values_from_kvp kvp' - 1) = Inl NullDeref"
proof -
  have len: "unlink_val a vs = Inr us \<Longrightarrow> length vs = Suc (length us)" for a vs us
    by (induction vs arbitrary: us) (auto simp: bindE_Inr_iff split: if_splits)
  obtain vals where "unlink_val attr (vl_vals (k_vlst kvp)) = Inr vals" "kvp' = set_vals kvp vals"
    using assms(2) by (auto simp: del_value_from_kvp_by_name_def assert_key_def bindE_Inr_iff split: if_splits)
  with len [OF this(1)] assms(1) show ?thesis
    by (simp add: get_num_of_values_from_kvp_def get_value_from_kvp_by_idx_def set_vals_def)
qed

theorem deleted_value_index_faults_witness:
  "\<exists>kvp'. del_value_from_kvp_by_name (example_kvp 1 SECURITY_SERVER [example_val ''alg'' ''x'']) ''alg'' = Inr kvp' \<and>
     get_value_from_kvp_by_idx kvp' 0 = Inl NullDeref"
proof -
  let ?k = "example_kvp 1 SECURITY_SERVER [example_val ''alg'' ''x'']"
  have d: "del_value_from_kvp_by_name ?k ''alg'' = Inr (set_vals ?k [])"
    by (simp add: del_value_from_kvp_by_name_def assert_key_def example_kvp_def example_val_def attr_is_def)
  have n: "get_num_of_values_from_kvp (set_vals ?k []) = 1"
    by (simp add: get_num_of_values_from_kvp_def set_vals_def example_kvp_def)
  have "vl_num (k_vlst ?k) = int (length (vl_vals (k_vlst ?k)))" by (simp add: example_kvp_def)
  from deleted_value_index_faults [OF this d] n d show ?thesis by auto
qed

section \<open>Query processing\<close>

text \<open>
  C20: An update changes exactly the values it names. If the query has, among the nodes that are looked for,
  just one of algorithm, alg, ealg, prot and mod, with a string value and the operator update, then in the
  first header of the key every value of that attribute becomes the one the query's words select, and
  nothing else in the message changes.
\<close>

theorem ims_update_exact:
  assumes row: "(path, key, attr, pick) \<in> set attr_rows" and q: "only_at h inst path a"
    and n: "sh_mem h a = Some n" and upd: "sq_vtype n = VAL_TYPE_STRING" "sq_op n = OP_TYPE_UPDATE"
    and ok: "chain_ok sip"
  shows "sip_process_query rand h inst sip =
    Inr (sip\<lparr>s_kvps := on_first key (set_attr attr (pick (cstr (sq_value n)))) (s_kvps sip)\<rparr>)"
proof -
  have "sip_query_at h inst UNAUTHORIZED_401 path = Inr (Some a)"
    using only_at_path [OF q, of path] row by force
  then show ?thesis using process_query_one [OF row q] row_block_update [OF row _ n upd ok] by simp
qed

text \<open>A query of three nodes as the listener leaves it, at the addresses 0 to 2.\<close>

definition example_node :: "string \<Rightarrow> int \<Rightarrow> string \<Rightarrow> addr option \<Rightarrow> addr option \<Rightarrow> squery_t" where
  "example_node name opr val parent sub =
     \<lparr>sq_name = name @ replicate (MAX_NAME_LEN - length name) NUL, sq_nlen = int (length name), sq_op = opr,
      sq_vtype = VAL_TYPE_STRING, sq_value = val @ replicate (MAX_VALUE_LEN - length val) NUL,
      sq_vlen = int (length val), sq_parent = parent, sq_sub = sub, sq_next = None\<rparr>"

definition example_sheap :: "int \<Rightarrow> sheap" where
  "example_sheap opr =
     \<lparr>sh_mem = (\<lambda>a. if a = 0 then Some (example_node UNAUTHORIZED_401 0 [] None (Some 1))
                     else if a = 1 then Some (example_node ''security_server'' 0 [] (Some 0) (Some 2))
                     else if a = 2 then Some (example_node ''alg'' opr ''hmac-sha-1-96'' (Some 1) None) else None),
      sh_fresh = 3\<rparr>"

definition example_inst :: sip_instance_t where
  "example_inst = (sip_init_instance 3 100)\<lparr>si_query := Some 0\<rparr>"

lemma example_names:
  "sip_is_query_name (example_sheap opr) (Some 0) name = Inr (name = UNAUTHORIZED_401)"
  "sip_is_query_name (example_sheap opr) (Some (Suc 0)) name = Inr (name = ''security_server'')"
  "sip_is_query_name (example_sheap opr) (Some 2) name = Inr (name = ''alg'')"
proof -
  have "sip_is_query_name (example_sheap opr) (Some 0) UNAUTHORIZED_401 = Inr True"
    "sip_is_query_name (example_sheap opr) (Some (Suc 0)) ''security_server'' = Inr True"
    "sip_is_query_name (example_sheap opr) (Some 2) ''alg'' = Inr True"
    by (simp_all add: sip_is_query_name_def sderef_def example_sheap_def example_node_def cstr_def strncmp_eq_take
        UNAUTHORIZED_401_def)
  then show "sip_is_query_name (example_sheap opr) (Some 0) name = Inr (name = UNAUTHORIZED_401)"
    "sip_is_query_name (example_sheap opr) (Some (Suc 0)) name = Inr (name = ''security_server'')"
    "sip_is_query_name (example_sheap opr) (Some 2) name = Inr (name = ''alg'')"
    by (simp_all add: query_name_unique)
qed

lemma example_subs:
  "sip_get_sub_query_by_name (example_sheap opr) (Some 0) name = Inr (if name = ''security_server'' then Some 1 else None)"
  "sip_get_sub_query_by_name (example_sheap opr) (Some (Suc 0)) name = Inr (if name = ''alg'' then Some 2 else None)"
proof -
  have four: "Suc 3 = 4" and three: "Suc 2 = 3" by simp_all
  note fuel = sip_find_sub_fuel.simps(2) [of 3, unfolded four] sip_find_sub_fuel.simps(2) [of 2, unfolded three]
  have "sh_fresh (example_sheap opr) + 1 = 4" by (simp add: example_sheap_def)
  moreover have "sderef (example_sheap opr) (Some 0) = Inr (example_node UNAUTHORIZED_401 0 [] None (Some 1))"
    "sderef (example_sheap opr) (Some (Suc 0)) = Inr (example_node ''security_server'' 0 [] (Some 0) (Some 2))"
    "sderef (example_sheap opr) (Some 2) = Inr (example_node ''alg'' opr ''hmac-sha-1-96'' (Some 1) None)"
    by (simp_all add: sderef_def example_sheap_def)
  moreover have "sq_sub (example_node n r v p c) = c" "sq_next (example_node n r v p c) = None" for n r v p c
    by (simp_all add: example_node_def)
  ultimately show
    "sip_get_sub_query_by_name (example_sheap opr) (Some 0) name = Inr (if name = ''security_server'' then Some 1 else None)"
    "sip_get_sub_query_by_name (example_sheap opr) (Some (Suc 0)) name = Inr (if name = ''alg'' then Some 2 else None)"
    by (simp_all add: sip_get_sub_query_by_name_def example_names fuel)
qed

lemma example_only_alg: "only_at (example_sheap opr) example_inst [''security_server'', ''alg''] 2"
proof -
  have "si_query example_inst = Some 0" by (simp add: example_inst_def)
  then show ?thesis
    by (simp add: only_at_def attr_rows_def sip_query_at_def sip_get_query_def example_names example_subs)
qed

lemma example_alg_row: "([''security_server'', ''alg''], SECURITY_SERVER, ''alg'', alg_value) \<in> set attr_rows"
  by (simp add: attr_rows_def)

definition example_alg :: "int \<Rightarrow> squery_t" where
  "example_alg opr = example_node ''alg'' opr ''hmac-sha-1-96'' (Some 1) None"

lemma example_alg_node:
  "sh_mem (example_sheap opr) 2 = Some (example_alg opr)" "sq_op (example_alg opr) = opr"
  "sq_vtype (example_alg opr) = VAL_TYPE_STRING" "alg_value (cstr (sq_value (example_alg opr))) = ''hmac-sha-1-96''"
  by (simp_all add: example_sheap_def example_alg_def example_node_def cstr_def alg_value_def)

theorem ims_update_exact_witness:
  "\<exists>sip. sip_process_query (\<lambda>_. 0) (example_sheap OP_TYPE_UPDATE) example_inst example_sip = Inr sip \<and>
     map (\<lambda>k. (k_key k, vl_vals (k_vlst k))) (s_kvps sip) =
       [(''Via'', []), (SECURITY_SERVER, [example_val ''alg'' ''hmac-sha-1-96'', example_val ''mod'' ''trans''])]"
  using ims_update_exact [OF example_alg_row example_only_alg example_alg_node(1,3,2) example_sip_ok]
  by (simp add: example_alg_node(4) example_sip_def example_kvp_def example_val_def set_attr_def
      set_vals_def SECURITY_SERVER_def)

text \<open>
  C37: What a drop does. If the query has just one of algorithm, alg, ealg, prot and mod, with the operator
  drop, then the first value of the attribute is removed from the first header of the key and nothing else
  changes; a header without the attribute leads to a NULL dereference, a missing header is left alone. For
  algorithm the block ends with a read of a pointer that was never assigned in every case but the first fault.
\<close>

theorem ims_drop_exact:
  assumes row: "(path, key, attr, pick) \<in> set attr_rows" and q: "only_at h inst path a"
    and n: "sh_mem h a = Some n" and drp: "sq_op n = OP_TYPE_DROP" and ok: "chain_ok sip"
  shows "sip_process_query rand h inst sip =
    bindE (case find_kvp key 0 (s_kvps sip) of
             None \<Rightarrow> Inr sip
           | Some i \<Rightarrow> if has_attr attr (s_kvps sip ! i)
                       then Inr (sip\<lparr>s_kvps := on_first key (remove_attr attr) (s_kvps sip)\<rparr>) else Inl NullDeref)
      (\<lambda>sip'. if attr = ''algorithm'' then Inl UninitRead else Inr sip')"
proof -
  have at: "sip_query_at h inst UNAUTHORIZED_401 path = Inr (Some a)"
    using only_at_path [OF q, of path] row by force
  have ne: "key \<noteq> []" "attr \<noteq> []" using pick_nonempty [OF row] by blast+
  show ?thesis
  proof (cases "attr = ''algorithm''")
    case True
    then have "path = [''www_authenticate'', ''algorithm'']" "key = WWW_AUTHENTICATE"
      using algorithm_row [OF row] by blast+
    then show ?thesis
      using process_query_one [OF row q] algorithm_block_drop [OF _ n drp] at drop_first [OF ok ne] True
      by (simp add: row_block_def)
  next
    case False
    then show ?thesis
      using process_query_one [OF row q] attr_block_drop [OF at n drp] drop_first [OF ok ne]
      by (simp add: row_block_def bindE_Inr_right)
  qed
qed

theorem ims_drop_exact_witness:
  "(\<exists>sip. sip_process_query (\<lambda>_. 0) (example_sheap OP_TYPE_DROP) example_inst example_sip = Inr sip \<and>
      map (\<lambda>k. (k_key k, vl_vals (k_vlst k))) (s_kvps sip) =
        [(''Via'', []), (SECURITY_SERVER, [example_val ''mod'' ''trans''])])"
  using ims_drop_exact [OF example_alg_row example_only_alg example_alg_node(1,2) example_sip_ok]
  by (simp add: example_sip_def example_kvp_def example_val_def remove_attr_def has_attr_def
      set_vals_def SECURITY_SERVER_def)

section \<open>Reports and the responses that are sent\<close>





text \<open>
  Without a query and after a fin the server is transparent. When no query is installed and the instance
  is finished or not running, a response is sent as it is up to the case of the reason phrase, at once and
  with the state unchanged.
\<close>

theorem ims_transparent_when_finished:
  assumes "response_ok code reason hs" and "\<forall>i. pasts i \<noteq> CHR '';'' \<and> pasts i \<noteq> CHR '' ''"
    and "sip_check_instance pid (Some inst)" and "si_query inst = None" and "si_finished inst \<or> si_running inst = 0"
  shows "sip_tcp_send rand pid h inst (response_text code reason hs) (NUL # mem) pasts env =
    Inr (Some ((h, inst), response_text code (to_lower reason) hs))"
proof -
  obtain sip where sip: "init_sip_message (response_text code reason hs) (NUL # mem) pasts = Inr sip"
    "map (\<lambda>k. (k_key k, vals_text (k_vlst k))) (s_kvps sip) = hs" "s_mtype sip = SC_SIP_RESPONSE"
    "s_mname sip = Some (to_lower reason)" "s_additional sip = Some code"
    using init_response [OF assms(1,2)] by blast
  have "report_message h inst sip env = Inr (Some (h, inst))"
    using assms(5) sip(3) by (auto simp: report_message_def report_response_def)
  then show ?thesis
    using serialize_response [OF assms(1) sip(2-5)] process_query_none [OF assms(4)] sip(1,3) assms(3)
    by (simp add: sip_tcp_send_def)
qed

theorem ims_transparent_when_finished_witness:
  "sip_tcp_send (\<lambda>_. 0) 100 empty_sheap (sip_finish_instance (sip_init_instance 3 100))
     (response_text ''401'' ''Unauthorized'' example_headers) [NUL] (\<lambda>_. NUL) [] =
   Inr (Some ((empty_sheap, sip_finish_instance (sip_init_instance 3 100)),
     response_text ''401'' (to_lower ''Unauthorized'') example_headers))"
  by (rule ims_transparent_when_finished [OF example_response_ok])
    (simp_all add: sip_finish_instance_def sip_init_instance_def sip_check_instance_def)

end
