(* ===== verification/Generator.thy ===== *)
theory Generator
  imports Controller_Testcase Ue_Controller "HOL-Library.AList"
begin

text \<open>
  The generator of testcases (\<^verbatim>\<open>generate_testcases.py\<close>, \<^verbatim>\<open>testcases.py\<close>): it reads the files of primary
  properties, whose lines are JSON with placeholders for values, and makes the testcases of the main
  controller from them: messages replaced by errors, attributes with other values and attributes that
  are dropped. Parameters are the JSON parser, the text Python prints for a value that is neither a
  string nor a number, and the order in which a set is enumerated.
\<close>

section \<open>Python\<close>

datatype pyexn = KeyError | IndexError | TypeError | ValueError | AttributeError

fun bindP :: "pyexn + 'a \<Rightarrow> ('a \<Rightarrow> pyexn + 'b) \<Rightarrow> pyexn + 'b" where
  "bindP (Inl e) f = Inl e"
| "bindP (Inr x) f = f x"

lemma bindP_Inr_iff: "bindP m f = Inr y \<longleftrightarrow> (\<exists>x. m = Inr x \<and> f x = Inr y)"
  by (cases m) simp_all

lemma bindP_cong [fundef_cong]: "m = m' \<Longrightarrow> (\<And>x. m' = Inr x \<Longrightarrow> f x = g x) \<Longrightarrow> bindP m f = bindP m' g"
  by (cases m') simp_all

text \<open>A loop that threads a state.\<close>

fun foldP :: "('a \<Rightarrow> 's \<Rightarrow> pyexn + 's) \<Rightarrow> 'a list \<Rightarrow> 's \<Rightarrow> pyexn + 's" where
  "foldP f [] s = Inr s"
| "foldP f (x # xs) s = bindP (f x s) (foldP f xs)"

text \<open>The values of an attribute, and the decimal text of numbers.\<close>

datatype pval = PInt int | PStr string

fun decimal :: "nat \<Rightarrow> string" where
  "decimal n = (if n < 10 then [char_of (48 + n)] else decimal (n div 10) @ [char_of (48 + n mod 10)])"

declare decimal.simps [simp del]

definition int_text :: "int \<Rightarrow> string" where
  "int_text i = (if i < 0 then CHR ''-'' # decimal (nat (- i)) else decimal (nat i))"

definition pval_text :: "pval \<Rightarrow> string" where
  "pval_text v = (case v of PInt i \<Rightarrow> int_text i | PStr t \<Rightarrow> t)"

definition pval_json :: "pval \<Rightarrow> json" where
  "pval_json v = (case v of PInt i \<Rightarrow> JNum (int_text i) | PStr t \<Rightarrow> JStr t)"

text \<open>\<^verbatim>\<open>"{}".format(v)\<close>.\<close>

definition py_str :: "(json \<Rightarrow> string) \<Rightarrow> json \<Rightarrow> string" where
  "py_str show v = (case v of JStr t \<Rightarrow> t | JNum t \<Rightarrow> t | _ \<Rightarrow> show v)"

text \<open>Dictionaries: reading, assignment and deletion of a key.\<close>

definition getP :: "json \<Rightarrow> string \<Rightarrow> pyexn + json" where
  "getP v k = (case v of JObj d \<Rightarrow> (case map_of d k of None \<Rightarrow> Inl KeyError | Some x \<Rightarrow> Inr x) | _ \<Rightarrow> Inl TypeError)"

definition setP :: "string \<Rightarrow> json \<Rightarrow> json \<Rightarrow> json" where
  "setP k x v = (case v of JObj d \<Rightarrow> JObj (AList.update k x d) | _ \<Rightarrow> v)"

definition delP :: "string \<Rightarrow> json \<Rightarrow> json" where
  "delP k v = (case v of JObj d \<Rightarrow> JObj (AList.delete k d) | _ \<Rightarrow> v)"

text \<open>The elements a \<^verbatim>\<open>for\<close> loop runs over: a string has its characters, a dictionary its keys.\<close>

definition iterP :: "json \<Rightarrow> pyexn + json list" where
  "iterP v =
     (case v of
        JArr vs \<Rightarrow> Inr vs
      | JStr t \<Rightarrow> Inr (map (\<lambda>c. JStr [c]) t)
      | JObj d \<Rightarrow> Inr (map (\<lambda>(k, _). JStr k) d)
      | _ \<Rightarrow> Inl TypeError)"

text \<open>\<^verbatim>\<open>w in ops\<close>: an element of a list, a part of a string, or a key.\<close>

definition containsP :: "json \<Rightarrow> string \<Rightarrow> pyexn + bool" where
  "containsP ops w =
     (case ops of
        JArr vs \<Rightarrow> Inr (JStr w \<in> set vs)
      | JStr t \<Rightarrow> Inr (strstr t w)
      | JObj d \<Rightarrow> Inr (map_of d w \<noteq> None)
      | _ \<Rightarrow> Inl TypeError)"

section \<open>Primary properties\<close>

text \<open>The fields of \<^verbatim>\<open>Testcases\<close> that the generator reads.\<close>

record ptc_t =
  pt_fname :: string
  pt_pnum :: int
  pt_id :: "string option"
  pt_message :: "string option"
  pt_object :: json
  pt_targets :: "string option list"
  pt_possible :: "(string option \<times> pval list) list"
  pt_correct :: "(string option \<times> pval list) list"

text \<open>\<^verbatim>\<open>split\<close> at a character, \<^verbatim>\<open>index\<close>, slices, and \<^verbatim>\<open>int\<close> of a string.\<close>

fun split_at :: "char \<Rightarrow> string \<Rightarrow> string list" where
  "split_at c [] = [[]]"
| "split_at c (x # xs) =
     (if x = c then [] # split_at c xs
      else (case split_at c xs of [] \<Rightarrow> [[x]] | w # ws \<Rightarrow> (x # w) # ws))"

fun indexP :: "string \<Rightarrow> char \<Rightarrow> pyexn + nat" where
  "indexP [] c = Inl ValueError"
| "indexP (x # xs) c = (if x = c then Inr 0 else bindP (indexP xs c) (\<lambda>i. Inr (Suc i)))"

definition slice_from :: "nat \<Rightarrow> nat \<Rightarrow> string \<Rightarrow> string" where
  "slice_from i j t = take (j - i) (drop i t)"

definition py_digit :: "char \<Rightarrow> bool" where
  "py_digit c \<longleftrightarrow> 48 \<le> (of_char c :: nat) \<and> (of_char c :: nat) \<le> 57"

text \<open>Digits, with single underscores between them.\<close>

fun digits_value :: "int \<Rightarrow> string \<Rightarrow> int option" where
  "digits_value acc [] = None"
| "digits_value acc [c] = (if py_digit c then Some (10 * acc + (of_char c - 48)) else None)"
| "digits_value acc (c # d # cs) =
     (if \<not> py_digit c then None
      else if d = CHR ''_'' then digits_value (10 * acc + (of_char c - 48)) cs
      else digits_value (10 * acc + (of_char c - 48)) (d # cs))"

definition py_int :: "string \<Rightarrow> int option" where
  "py_int t =
     (case py_strip t of
        [] \<Rightarrow> None
      | c # cs \<Rightarrow>
          if c = CHR ''-'' then map_option uminus (digits_value 0 cs)
          else if c = CHR ''+'' then digits_value 0 cs
          else digits_value 0 (c # cs))"

definition line_split :: "string \<Rightarrow> pyexn + string" where
  "line_split line = (case split_at CHR '':'' line of [_, v] \<Rightarrow> Inr v | _ \<Rightarrow> Inl ValueError)"

definition strip_first :: "char \<Rightarrow> string \<Rightarrow> pyexn + string" where
  "strip_first c t = (case t of [] \<Rightarrow> Inl IndexError | x # xs \<Rightarrow> Inr (if x = c then xs else t))"

definition strip_last :: "char \<Rightarrow> string \<Rightarrow> pyexn + string" where
  "strip_last c t = (if t = [] then Inl IndexError else Inr (if last t = c then butlast t else t))"

definition unquote :: "string \<Rightarrow> pyexn + string" where
  "unquote t = bindP (strip_first CHR 0x22 t) (strip_last CHR 0x22)"

text \<open>The name of a line, without the comma and the quotes.\<close>

definition line_name :: "string \<Rightarrow> pyexn + string" where
  "line_name line =
     bindP (line_split line) (\<lambda>v.
     bindP (strip_last CHR '','' (py_strip v)) (\<lambda>t.
       unquote (py_strip t)))"

text \<open>A set, in the order its elements were added.\<close>

definition add_value :: "pval \<Rightarrow> pval list \<Rightarrow> pval list" where
  "add_value v vs = (if v \<in> set vs then vs else vs @ [v])"

definition possible_value :: "string \<Rightarrow> pval list \<Rightarrow> pyexn + pval list" where
  "possible_value v vs =
     (case py_int v of
        Some i \<Rightarrow> Inr (add_value (PInt i) vs)
      | None \<Rightarrow> bindP (unquote (py_strip v)) (\<lambda>t. Inr (add_value (PStr t) vs)))"

definition correct_value :: "string \<Rightarrow> pval list \<Rightarrow> pyexn + pval list" where
  "correct_value v vs =
     (case py_int v of
        Some i \<Rightarrow> Inr (add_value (PInt i) vs)
      | None \<Rightarrow> Inr (add_value (PStr v) vs))"

text \<open>The list between the first bracket and the first closing one.\<close>

definition bracketed :: "string \<Rightarrow> pyexn + string list" where
  "bracketed t =
     bindP (indexP t CHR ''['') (\<lambda>i.
     bindP (indexP t CHR '']'') (\<lambda>j. Inr (split_at CHR '','' (slice_from (i + 1) j t))))"

definition default_values :: "pval list" where
  "default_values = [PStr ''min'', PStr ''median'', PStr ''max'', PStr ''mean'', PStr ''random'']"

text \<open>The possible and the correct values of a line with \<^verbatim>\<open>VALUE\<close>.\<close>

definition line_values :: "string \<Rightarrow> pyexn + (pval list \<times> pval list)" where
  "line_values vals =
     (if CHR ''('' \<in> set vals then
        bindP (indexP vals CHR ''('') (\<lambda>i.
        bindP (indexP vals CHR '')'') (\<lambda>j.
          let args = slice_from (i + 1) j vals
          in bindP (bracketed args) (\<lambda>pvals.
             bindP (foldP possible_value pvals []) (\<lambda>possible.
             bindP (indexP args CHR '']'') (\<lambda>k.
               let tmp = py_strip (drop (k + 1) args)
               in if tmp \<noteq> [] then
                    bindP (bracketed tmp) (\<lambda>cvals.
                    bindP (foldP correct_value cvals []) (\<lambda>correct. Inr (possible, correct)))
                  else Inr (possible, []))))))
      else Inr (default_values, []))"

record parse_t =
  pr_targets :: "string option list"
  pr_possible :: "(string option \<times> pval list) list"
  pr_correct :: "(string option \<times> pval list) list"
  pr_target :: "string option"
  pr_names :: "string list"
  pr_js :: string

definition value_line :: "(pval list \<Rightarrow> pval list) \<Rightarrow> pval list \<Rightarrow> string" where
  "value_line order correct =
     (if correct \<noteq> [] then ''\"value\": '' @ pval_text (hd (order correct)) else ''\"value\": 0'')"

definition parse_name :: "string \<Rightarrow> parse_t \<Rightarrow> pyexn + parse_t" where
  "parse_name line st =
     (if strstr line ''name'' then
        bindP (line_name line) (\<lambda>t. Inr (st\<lparr>pr_target := Some t, pr_names := pr_names st @ [t]\<rparr>))
      else Inr st)"

definition parse_values :: "(pval list \<Rightarrow> pval list) \<Rightarrow> string \<Rightarrow> parse_t \<Rightarrow> pyexn + parse_t" where
  "parse_values order line st =
     (if strstr line ''VALUE'' then
        bindP (line_split line) (\<lambda>vals.
        bindP (line_values vals) (\<lambda>(possible, correct).
          Inr (st\<lparr>pr_targets := pr_targets st @ [pr_target st],
                  pr_possible := AList.update (pr_target st) possible (pr_possible st),
                  pr_correct := AList.update (pr_target st) correct (pr_correct st),
                  pr_js := pr_js st @ value_line order correct\<rparr>)))
      else Inr (st\<lparr>pr_js := pr_js st @ line\<rparr>))"

definition parse_line :: "(pval list \<Rightarrow> pval list) \<Rightarrow> string \<Rightarrow> parse_t \<Rightarrow> pyexn + parse_t" where
  "parse_line order raw st =
     (let line = py_strip raw
      in if line = [] then Inr st
         else if hd line = CHR ''#'' then Inr st
         else bindP (parse_name line st) (parse_values order line))"

definition message_names :: "string list" where
  "message_names =
     [''enable_vowifi'', ''ike_sa_init_response'', ''ike_auth_1_response'', ''ike_auth_2_response'',
      ''ike_auth_3_response'', ''401_unauthorized'', ''200_ok'']"

text \<open>The last name that is a message, and the other names.\<close>

fun read_names :: "string list \<Rightarrow> string option \<times> string list \<Rightarrow> string option \<times> string list" where
  "read_names [] st = st"
| "read_names (name # names) (message, tmp) =
     (if name \<in> set message_names then read_names names (Some name, tmp)
      else
        let name' = py_strip name
        in if name' \<noteq> [] then read_names names (message, tmp @ [name']) else read_names names (message, tmp))"

fun join_dash :: "string list \<Rightarrow> string" where
  "join_dash [] = []"
| "join_dash [w] = w"
| "join_dash (w # ws) = w @ ''-'' @ join_dash ws"

definition property_id :: "string option \<Rightarrow> string list \<Rightarrow> string option" where
  "property_id message tmp =
     (if tmp \<noteq> [] then
        Some ((case message of None \<Rightarrow> ''None'' | Some m \<Rightarrow> m) @ ''-'' @ join_dash tmp)
      else message)"

definition property_number :: "string \<Rightarrow> pyexn + int" where
  "property_number fname =
     (case py_int (hd (split_at CHR ''.'' (last (split_at CHR ''/'' fname)))) of
        None \<Rightarrow> Inl ValueError
      | Some n \<Rightarrow> Inr n)"

definition new_Testcases ::
  "(string \<Rightarrow> json option) \<Rightarrow> (pval list \<Rightarrow> pval list) \<Rightarrow> string \<Rightarrow> string list \<Rightarrow> pyexn + ptc_t" where
  "new_Testcases loads order fname ls =
     bindP (property_number fname) (\<lambda>pnum.
     bindP (foldP (parse_line order) ls
              \<lparr>pr_targets = [], pr_possible = [], pr_correct = [], pr_target = None, pr_names = [], pr_js = []\<rparr>) (\<lambda>st.
       case loads (pr_js st) of
         None \<Rightarrow> Inl ValueError
       | Some v \<Rightarrow>
           (case read_names (pr_names st) (None, []) of (message, tmp) \<Rightarrow>
              Inr \<lparr>pt_fname = fname, pt_pnum = pnum, pt_id = property_id message tmp, pt_message = message,
                   pt_object = v, pt_targets = pr_targets st, pt_possible = pr_possible st,
                   pt_correct = pr_correct st\<rparr>)))"

text \<open>
  \<^verbatim>\<open>abstract_testcases\<close>: the files of the directory (a name, whether it is a directory, its lines), by number.
\<close>

fun file_keys :: "(string \<times> bool \<times> string list) list \<Rightarrow> pyexn + (int \<times> string \<times> string list) list" where
  "file_keys [] = Inr []"
| "file_keys ((f, d, ls) # fs) =
     bindP (property_number f) (\<lambda>n. bindP (file_keys fs) (\<lambda>ks. Inr ((n, f, ls) # ks)))"

definition property_file :: "string \<times> bool \<times> string list \<Rightarrow> bool" where
  "property_file entry =
     (case entry of (f, d, ls) \<Rightarrow> \<not> strstr f ''swp'' \<and> strstr f ''property'' \<and> \<not> d)"

definition abstract_testcases ::
  "(string \<Rightarrow> json option) \<Rightarrow> (pval list \<Rightarrow> pval list) \<Rightarrow> string \<Rightarrow> (string \<times> bool \<times> string list) list \<Rightarrow> pyexn + ptc_t list" where
  "abstract_testcases loads order pname entries =
     bindP (file_keys (filter property_file entries)) (\<lambda>ks.
       foldP (\<lambda>(n, f, ls) ret. bindP (new_Testcases loads order (pname @ ''/'' @ f) ls) (\<lambda>t. Inr (ret @ [t])))
         (sort_key fst ks) [])"

definition get_possible_values :: "ptc_t \<Rightarrow> string option \<Rightarrow> pyexn + pval list" where
  "get_possible_values ptc target =
     (case map_of (pt_possible ptc) target of None \<Rightarrow> Inl KeyError | Some vs \<Rightarrow> Inr vs)"

definition get_correct_values :: "ptc_t \<Rightarrow> string option \<Rightarrow> pyexn + pval list" where
  "get_correct_values ptc target =
     (case map_of (pt_correct ptc) target of None \<Rightarrow> Inl KeyError | Some vs \<Rightarrow> Inr vs)"

section \<open>Targets\<close>

text \<open>A target as a JSON value; a value before the first name has the target \<^verbatim>\<open>None\<close>.\<close>

definition target_json :: "string option \<Rightarrow> json" where
  "target_json target = (case target of None \<Rightarrow> JNull | Some t \<Rightarrow> JStr t)"

text \<open>The list of the sub-messages; anything but a list has none.\<close>

definition sub_msgs :: "(string \<times> json) list \<Rightarrow> json list" where
  "sub_msgs d = (case map_of d ''sub'' of Some (JArr subs) \<Rightarrow> subs | _ \<Rightarrow> [])"

lemma sub_msgs_size [simp]: "size_list size (sub_msgs d) \<le> size_list (size_prod (\<lambda>_. 0) size) d"
  using json_get_size [of d "''sub''"] by (auto simp: sub_msgs_def json_get_def split: option.splits json.splits)

text \<open>
  \<^verbatim>\<open>_find_target\<close>: the first message with the name, where the sub-messages of a message come before it.
\<close>

function find_target :: "json \<Rightarrow> json list \<Rightarrow> pyexn + json option" where
  "find_target target [] = Inr None"
| "find_target target (JObj d # msgs) =
     bindP (find_target target (sub_msgs d)) (\<lambda>ret.
       case ret of
         Some m \<Rightarrow> Inr (Some m)
       | None \<Rightarrow>
           (case map_of d ''name'' of
              None \<Rightarrow> Inl KeyError
            | Some name \<Rightarrow> if name = target then Inr (Some (JObj d)) else find_target target msgs))"
| "find_target target (JStr t # msgs) = Inl TypeError"
| "find_target target (JNum t # msgs) = Inl TypeError"
| "find_target target (JBool b # msgs) = Inl TypeError"
| "find_target target (JNull # msgs) = Inl TypeError"
| "find_target target (JArr vs # msgs) = Inl TypeError"
  by pat_completeness auto
termination find_target
  by (relation "measure (\<lambda>(t, ms). size_list size ms)") (auto simp: less_Suc_eq_le intro: le_SucI order.trans [OF sub_msgs_size])

text \<open>The assignments to the message that \<^verbatim>\<open>_find_target\<close> returned change it where it stands.\<close>

function change_target :: "(json \<Rightarrow> json) \<Rightarrow> json \<Rightarrow> json list \<Rightarrow> json list option" where
  "change_target f target [] = None"
| "change_target f target (JObj d # msgs) =
     (case change_target f target (sub_msgs d) of
        Some subs \<Rightarrow> Some (JObj (AList.update ''sub'' (JArr subs) d) # msgs)
      | None \<Rightarrow>
          if map_of d ''name'' = Some target then Some (f (JObj d) # msgs)
          else map_option (Cons (JObj d)) (change_target f target msgs))"
| "change_target f target (JStr t # msgs) = None"
| "change_target f target (JNum t # msgs) = None"
| "change_target f target (JBool b # msgs) = None"
| "change_target f target (JNull # msgs) = None"
| "change_target f target (JArr vs # msgs) = None"
  by pat_completeness auto
termination change_target
  by (relation "measure (\<lambda>(f, t, ms). size_list size ms)") (auto simp: less_Suc_eq_le intro: le_SucI order.trans [OF sub_msgs_size])

definition hasP_list :: "(string \<times> json) list \<Rightarrow> bool" where
  "hasP_list d = (case map_of d ''sub'' of Some (JArr subs) \<Rightarrow> True | _ \<Rightarrow> False)"

text \<open>\<^verbatim>\<open>_make_targets\<close>: the names with a value along the last messages.\<close>

function make_targets :: "json list \<Rightarrow> pyexn + json list" where
  "make_targets msgs =
     (if msgs = [] then Inl IndexError
      else
        (case last msgs of
           JObj d \<Rightarrow>
             bindP (if hasP_list d then make_targets (sub_msgs d) else Inr []) (\<lambda>ret.
               if map_of d ''value'' = None then Inr ret
               else (case map_of d ''name'' of None \<Rightarrow> Inl KeyError | Some name \<Rightarrow> Inr (ret @ [name])))
         | v \<Rightarrow>
             bindP (containsP v ''sub'') (\<lambda>b.
             bindP (containsP v ''value'') (\<lambda>c. if b \<or> c then Inl TypeError else Inr []))))"
  by pat_completeness auto

lemma last_size:
  assumes "msgs \<noteq> []" and "last msgs = JObj d"
  shows "size_list size (sub_msgs d) < size_list size msgs"
proof -
  have "size (JObj d) \<le> size_list size msgs"
    using last_in_set [OF assms(1)] unfolding assms(2) by (rule size_list_estimation') simp
  then show ?thesis
    using sub_msgs_size [of d] by (simp del: sub_msgs_size)
qed

termination make_targets
  by (relation "measure (size_list size)") (auto dest: last_size)

declare make_targets.simps [simp del]

section \<open>Generation\<close>

text \<open>The testcases generated so far, by message; a message that is not in the table raises.\<close>

type_synonym tests_t = "(string \<times> json list) list"

definition messages :: "string list" where
  "messages =
     [''ike_sa_init_response'', ''ike_auth_1_response'', ''ike_auth_2_response'', ''ike_auth_3_response'',
      ''401_unauthorized'', ''200_ok'']"

definition no_tests :: tests_t where
  "no_tests = map (\<lambda>key. (key, [])) messages"

definition add_test :: "string option \<Rightarrow> json \<Rightarrow> tests_t \<Rightarrow> pyexn + tests_t" where
  "add_test key t ret =
     (case key of
        None \<Rightarrow> Inl KeyError
      | Some k \<Rightarrow>
          (case map_of ret k of
             None \<Rightarrow> Inl KeyError
           | Some ts \<Rightarrow> Inr (AList.update k (ts @ [t]) ret)))"

definition tests_of :: "tests_t \<Rightarrow> string \<Rightarrow> json list" where
  "tests_of ret key = (case map_of ret key of None \<Rightarrow> [] | Some ts \<Rightarrow> ts)"

definition id_text :: "ptc_t \<Rightarrow> string" where
  "id_text ptc = (case pt_id ptc of None \<Rightarrow> ''None'' | Some t \<Rightarrow> t)"

text \<open>\<^verbatim>\<open>t["testcase"][0]["id"] = tid\<close>.\<close>

definition put_id :: "string \<Rightarrow> json list \<Rightarrow> pyexn + json list" where
  "put_id tid msgs =
     (case msgs of
        [] \<Rightarrow> Inl IndexError
      | m # ms \<Rightarrow> (case m of JObj d \<Rightarrow> Inr (setP ''id'' (JStr tid) m # ms) | _ \<Rightarrow> Inl TypeError))"

text \<open>A copy of a test with an identifier, where the target is changed.\<close>

definition changed_test :: "string \<Rightarrow> (json \<Rightarrow> json) \<Rightarrow> json \<Rightarrow> json list \<Rightarrow> json \<Rightarrow> pyexn + json" where
  "changed_test tid f target msgs testcase =
     bindP (put_id tid msgs) (\<lambda>ms.
       case change_target f target ms of
         None \<Rightarrow> Inl TypeError
       | Some ms' \<Rightarrow> Inr (setP ''testcase'' (JArr ms') testcase))"

text \<open>\<^verbatim>\<open>w in msg.get("op", [])\<close>.\<close>

definition has_op :: "json \<Rightarrow> string \<Rightarrow> pyexn + bool" where
  "has_op m w = (case getP m ''op'' of Inr ops \<Rightarrow> containsP ops w | Inl _ \<Rightarrow> Inr False)"

subsection \<open>Other values\<close>

text \<open>\<open>avals\<close> are the possible values without the correct ones, in the order the set is enumerated.\<close>

definition set_value :: "pval \<Rightarrow> json \<Rightarrow> json" where
  "set_value val m = setP ''op'' (JStr ''update'') (setP ''value'' (pval_json val) m)"

definition update_id :: "ptc_t \<Rightarrow> pval \<Rightarrow> nat \<Rightarrow> string" where
  "update_id ptc val tnum = ''update-'' @ id_text ptc @ ''-'' @ pval_text val @ ''-'' @ decimal tnum"

definition update_value ::
  "ptc_t \<Rightarrow> json \<Rightarrow> json list \<Rightarrow> string option \<Rightarrow> pval \<Rightarrow> nat \<times> tests_t \<Rightarrow> pyexn + (nat \<times> tests_t)" where
  "update_value ptc testcase msgs target val st =
     bindP (changed_test (update_id ptc val (fst st + 1)) (set_value val) (target_json target) msgs testcase) (\<lambda>t.
     bindP (add_test (pt_message ptc) t (snd st)) (\<lambda>ret. Inr (fst st + 1, ret)))"

definition update_target ::
  "(pval list \<Rightarrow> pval list) \<Rightarrow> ptc_t \<Rightarrow> json \<Rightarrow> string option \<Rightarrow> nat \<times> tests_t \<Rightarrow> pyexn + (nat \<times> tests_t)" where
  "update_target order ptc testcase target st =
     bindP (get_possible_values ptc target) (\<lambda>pvals.
     bindP (get_correct_values ptc target) (\<lambda>cvals.
     bindP (getP testcase ''testcase'') (\<lambda>v.
       case v of
         JArr msgs \<Rightarrow>
           bindP (find_target (target_json target) msgs) (\<lambda>msg.
             case msg of
               None \<Rightarrow> Inr st
             | Some m \<Rightarrow>
                 bindP (has_op m ''update'') (\<lambda>b.
                   if b then
                     foldP (update_value ptc testcase msgs target) (order (filter (\<lambda>x. x \<notin> set cvals) pvals)) st
                   else Inr st))
       | _ \<Rightarrow> Inr st)))"

definition update_case ::
  "(pval list \<Rightarrow> pval list) \<Rightarrow> ptc_t \<Rightarrow> json \<Rightarrow> nat \<times> tests_t \<Rightarrow> pyexn + (nat \<times> tests_t)" where
  "update_case order ptc testcase = foldP (update_target order ptc testcase) (pt_targets ptc)"

definition update_ptc :: "(pval list \<Rightarrow> pval list) \<Rightarrow> ptc_t \<Rightarrow> tests_t \<Rightarrow> pyexn + tests_t" where
  "update_ptc order ptc ret =
     bindP (getP (pt_object ptc) ''testcases'') (\<lambda>v.
     bindP (iterP v) (\<lambda>testcases.
     bindP (foldP (update_case order ptc) testcases (0, ret)) (\<lambda>st. Inr (snd st))))"

definition update_values :: "(pval list \<Rightarrow> pval list) \<Rightarrow> ptc_t list \<Rightarrow> pyexn + tests_t" where
  "update_values order ptcs = foldP (update_ptc order) ptcs no_tests"

subsection \<open>Dropped attributes\<close>

definition drop_id :: "ptc_t \<Rightarrow> nat \<Rightarrow> string" where
  "drop_id ptc tnum = ''drop-'' @ id_text ptc @ ''-'' @ decimal tnum"

text \<open>
  One target: the copy has the target marked, and the operation is then removed from the original, which
  is part of the state.
\<close>

definition drop_target ::
  "ptc_t \<Rightarrow> json \<Rightarrow> json \<Rightarrow> json list \<times> nat \<times> tests_t \<Rightarrow> pyexn + (json list \<times> nat \<times> tests_t)" where
  "drop_target ptc testcase target st =
     (case st of (msgs, tnum, ret) \<Rightarrow>
        bindP (find_target target msgs) (\<lambda>msg.
          case msg of
            None \<Rightarrow> Inr st
          | Some m \<Rightarrow>
              bindP (has_op m ''drop'') (\<lambda>b.
                if b then
                  bindP (changed_test (drop_id ptc (tnum + 1)) (setP ''op'' (JStr ''drop'')) target msgs testcase) (\<lambda>t.
                  bindP (add_test (pt_message ptc) t ret) (\<lambda>ret'.
                    case change_target (delP ''op'') target msgs of
                      None \<Rightarrow> Inl TypeError
                    | Some msgs' \<Rightarrow> Inr (msgs', tnum + 1, ret')))
                else Inr st)))"

definition drop_case :: "ptc_t \<Rightarrow> json \<Rightarrow> nat \<times> tests_t \<Rightarrow> pyexn + (nat \<times> tests_t)" where
  "drop_case ptc testcase st =
     bindP (getP testcase ''testcase'') (\<lambda>v.
       case v of
         JArr msgs \<Rightarrow>
           bindP (make_targets msgs) (\<lambda>targets.
           bindP (foldP (drop_target ptc testcase) targets (msgs, st)) (\<lambda>(_, st'). Inr st'))
       | _ \<Rightarrow> Inr st)"

definition drop_ptc :: "ptc_t \<Rightarrow> tests_t \<Rightarrow> pyexn + tests_t" where
  "drop_ptc ptc ret =
     bindP (getP (pt_object ptc) ''testcases'') (\<lambda>v.
     bindP (iterP v) (\<lambda>testcases.
     bindP (foldP (drop_case ptc) testcases (0, ret)) (\<lambda>st. Inr (snd st))))"

definition drop_payloads :: "ptc_t list \<Rightarrow> pyexn + tests_t" where
  "drop_payloads ptcs = foldP drop_ptc ptcs no_tests"

subsection \<open>Messages replaced by errors\<close>

text \<open>A loop that also changes the elements of its list.\<close>

fun mapP :: "('a \<Rightarrow> 's \<Rightarrow> pyexn + ('a \<times> 's)) \<Rightarrow> 'a list \<Rightarrow> 's \<Rightarrow> pyexn + ('a list \<times> 's)" where
  "mapP f [] s = Inr ([], s)"
| "mapP f (x # xs) s = bindP (f x s) (\<lambda>(y, s'). bindP (mapP f xs s') (\<lambda>(ys, s''). Inr (y # ys, s'')))"

definition clean_error :: "json \<Rightarrow> json" where
  "clean_error emsg = delP ''reporter'' (delP ''receiver'' emsg)"

definition substitution_id :: "(json \<Rightarrow> string) \<Rightarrow> ptc_t \<Rightarrow> json \<Rightarrow> nat \<Rightarrow> string" where
  "substitution_id show ptc name tnum = ''substitution-'' @ id_text ptc @ ''-'' @ py_str show name @ ''-'' @ decimal tnum"

definition substitute_error ::
  "(json \<Rightarrow> string) \<Rightarrow> ptc_t \<Rightarrow> json list \<Rightarrow> json \<Rightarrow> json \<Rightarrow> nat \<times> tests_t \<Rightarrow> pyexn + (nat \<times> tests_t)" where
  "substitute_error show ptc front lc emsg st =
     bindP (getP emsg ''name'') (\<lambda>name.
     bindP (put_id (substitution_id show ptc name (fst st + 1))
              (front @ [setP ''sub'' (JArr [clean_error emsg]) lc])) (\<lambda>msgs.
     bindP (add_test (pt_message ptc) (JObj [(''testcase'', JArr msgs)]) (snd st)) (\<lambda>ret.
       Inr (fst st + 1, ret))))"

text \<open>\<open>tc[-1]\<close> must be a message.\<close>

definition messagesP :: "json \<Rightarrow> pyexn + json list" where
  "messagesP v =
     (case v of
        JArr tc \<Rightarrow> if tc = [] then Inl IndexError else Inr tc
      | JStr t \<Rightarrow> if t = [] then Inl IndexError else Inl TypeError
      | JObj d \<Rightarrow> Inl KeyError
      | _ \<Rightarrow> Inl TypeError)"

text \<open>
  One test: a last message without sub-messages is marked in the original and then replaced once by every
  error of its protocol. The result is the test as it is left.
\<close>

definition substitute_case ::
  "(json \<Rightarrow> string) \<Rightarrow> json list \<Rightarrow> json list \<Rightarrow> ptc_t \<Rightarrow> json \<Rightarrow> nat \<times> tests_t \<Rightarrow> pyexn + (json \<times> nat \<times> tests_t)" where
  "substitute_case show emsgs fmsgs ptc testcase st =
     bindP (getP testcase ''testcase'') (\<lambda>v.
     bindP (messagesP v) (\<lambda>tc.
         bindP (containsP (last tc) ''sub'') (\<lambda>b.
           if b then Inr (testcase, st)
           else
             let lc = setP ''op'' (JStr ''substitution'') (delP ''op'' (last tc));
                 testcase' = setP ''testcase'' (JArr (butlast tc @ [lc])) testcase
             in bindP (getP lc ''name'') (\<lambda>name.
                bindP (containsP name ''ike'') (\<lambda>ike.
                bindP (containsP name ''sip'') (\<lambda>sip.
                bindP (foldP (substitute_error show ptc (butlast tc) lc)
                         (if ike then emsgs else if sip then fmsgs else []) st) (\<lambda>st'.
                  Inr (testcase', st'))))))))"

definition substitute_ptc ::
  "(json \<Rightarrow> string) \<Rightarrow> json list \<Rightarrow> json list \<Rightarrow> ptc_t \<Rightarrow> tests_t \<Rightarrow> pyexn + (ptc_t \<times> tests_t)" where
  "substitute_ptc show emsgs fmsgs ptc ret =
     bindP (getP (pt_object ptc) ''testcases'') (\<lambda>v.
     bindP (iterP v) (\<lambda>testcases.
     bindP (mapP (substitute_case show emsgs fmsgs ptc) testcases (0, ret)) (\<lambda>(testcases', st).
       Inr (ptc\<lparr>pt_object := setP ''testcases'' (JArr testcases') (pt_object ptc)\<rparr>, snd st))))"

definition substitution ::
  "(json \<Rightarrow> string) \<Rightarrow> json list \<Rightarrow> json list \<Rightarrow> ptc_t list \<Rightarrow> pyexn + (ptc_t list \<times> tests_t)" where
  "substitution show emsgs fmsgs ptcs = mapP (substitute_ptc show emsgs fmsgs) ptcs no_tests"

subsection \<open>Replayed messages\<close>

text \<open>
  \<^verbatim>\<open>replay\<close> is not called by the generator. The operations of the sub-messages down to four levels become
  updates, and the last message is sent a second time with the message identifier of the first.
\<close>

fun allP :: "('a \<Rightarrow> pyexn + 'b) \<Rightarrow> 'a list \<Rightarrow> pyexn + 'b list" where
  "allP f [] = Inr []"
| "allP f (x # xs) = bindP (f x) (\<lambda>y. bindP (allP f xs) (\<lambda>ys. Inr (y # ys)))"

definition assignP :: "string \<Rightarrow> json \<Rightarrow> json \<Rightarrow> pyexn + json" where
  "assignP k x v = (case v of JObj d \<Rightarrow> Inr (setP k x v) | _ \<Rightarrow> Inl TypeError)"

definition mark_op :: "json \<Rightarrow> pyexn + json" where
  "mark_op m = bindP (containsP m ''op'') (\<lambda>b. if b then assignP ''op'' (JStr ''update'') m else Inr m)"

definition mark_subs :: "(json \<Rightarrow> pyexn + json) \<Rightarrow> json \<Rightarrow> pyexn + json" where
  "mark_subs f m =
     bindP (containsP m ''sub'') (\<lambda>b.
       if b then
         bindP (getP m ''sub'') (\<lambda>v.
         bindP (iterP v) (\<lambda>ms.
         bindP (allP f ms) (\<lambda>ms'.
           Inr (case v of JArr _ \<Rightarrow> setP ''sub'' (JArr ms') m | _ \<Rightarrow> m))))
       else Inr m)"

fun mark_ops :: "nat \<Rightarrow> json \<Rightarrow> pyexn + json" where
  "mark_ops 0 m = mark_op m"
| "mark_ops (Suc n) m = bindP (mark_op m) (mark_subs (mark_ops n))"

definition previous_id :: json where
  "previous_id =
     JObj [(''name'', JStr ''message_id''), (''op'', JStr ''update''), (''type'', JStr ''string''),
           (''value'', JStr ''previous'')]"

definition append_sub :: "json \<Rightarrow> json \<Rightarrow> pyexn + json" where
  "append_sub x m =
     bindP (getP m ''sub'') (\<lambda>v.
       case v of JArr ms \<Rightarrow> Inr (setP ''sub'' (JArr (ms @ [x])) m) | _ \<Rightarrow> Inl AttributeError)"

definition replay_case :: "ptc_t \<Rightarrow> json \<Rightarrow> nat \<times> tests_t \<Rightarrow> pyexn + (nat \<times> tests_t)" where
  "replay_case ptc testcase st =
     bindP (getP testcase ''testcase'') (\<lambda>v.
     bindP (messagesP v) (\<lambda>tc.
     bindP (mark_subs (mark_ops 3) (last tc)) (\<lambda>z.
     bindP (containsP z ''sub'') (\<lambda>b.
     bindP (if b then Inr z else assignP ''sub'' (JArr []) z) (\<lambda>r0.
     bindP (mark_subs mark_op r0) (\<lambda>r.
       if getP r ''op'' = Inr (JStr ''substitution'') then Inr st
       else
         bindP (append_sub previous_id r) (\<lambda>r'.
         bindP (put_id (''replay-'' @ id_text ptc @ ''-'' @ decimal (fst st + 1))
                  (butlast tc @ [z, setP ''op'' (JStr ''replay'') (delP ''op'' r')])) (\<lambda>msgs.
         bindP (add_test (pt_message ptc) (JObj [(''testcase'', JArr msgs)]) (snd st)) (\<lambda>ret.
           Inr (fst st + 1, ret))))))))))"

definition replay_ptc :: "ptc_t \<Rightarrow> tests_t \<Rightarrow> pyexn + tests_t" where
  "replay_ptc ptc ret =
     bindP (getP (pt_object ptc) ''testcases'') (\<lambda>v.
     bindP (iterP v) (\<lambda>testcases.
     bindP (foldP (replay_case ptc) testcases (0, ret)) (\<lambda>st. Inr (snd st))))"

definition replay :: "ptc_t list \<Rightarrow> pyexn + tests_t" where
  "replay ptcs = foldP replay_ptc ptcs no_tests"

subsection \<open>All testcases\<close>

text \<open>
  The files that are written: for every message the replaced messages, then the other values, then the
  dropped attributes. The last two work on the properties as the first one leaves them.
\<close>

definition message_level_manipulation ::
  "(json \<Rightarrow> string) \<Rightarrow> json list \<Rightarrow> json list \<Rightarrow> ptc_t list \<Rightarrow> pyexn + (ptc_t list \<times> tests_t)" where
  "message_level_manipulation show emsgs fmsgs ptcs =
     bindP (substitution show emsgs fmsgs ptcs) (\<lambda>(ptcs', lst1).
       Inr (ptcs', map (\<lambda>key. (key, tests_of lst1 key)) messages))"

definition attribute_level_manipulation :: "(pval list \<Rightarrow> pval list) \<Rightarrow> ptc_t list \<Rightarrow> pyexn + tests_t" where
  "attribute_level_manipulation order ptcs =
     bindP (update_values order ptcs) (\<lambda>lst1.
     bindP (drop_payloads ptcs) (\<lambda>lst2.
       Inr (map (\<lambda>key. (key, tests_of lst1 key @ tests_of lst2 key)) messages)))"

definition write_testcases :: "tests_t \<Rightarrow> tests_t \<Rightarrow> (string \<times> json) list" where
  "write_testcases mtcs atcs =
     map (\<lambda>key. (key @ ''.json'', JObj [(''testcases'', JArr (tests_of mtcs key @ tests_of atcs key))])) messages"

definition generate_testcases ::
  "(string \<Rightarrow> json option) \<Rightarrow> (json \<Rightarrow> string) \<Rightarrow> (pval list \<Rightarrow> pval list) \<Rightarrow> json list \<Rightarrow> json list \<Rightarrow>
   string \<Rightarrow> (string \<times> bool \<times> string list) list \<Rightarrow> pyexn + (string \<times> json) list" where
  "generate_testcases loads show order emsgs fmsgs pname entries =
     bindP (abstract_testcases loads order pname entries) (\<lambda>ptcs.
     bindP (message_level_manipulation show emsgs fmsgs ptcs) (\<lambda>(ptcs', mtcs).
     bindP (attribute_level_manipulation order ptcs') (\<lambda>atcs.
       Inr (write_testcases mtcs atcs))))"

end
