(* ===== verification/Generator_Properties.thy ===== *)
theory Generator_Properties
  imports Generator
begin

text \<open>
  What the generator of testcases makes: the message that a search finds is the one an assignment changes,
  the tests of \<^verbatim>\<open>update_values\<close> and of \<^verbatim>\<open>substitution\<close> are exactly the wanted ones in their order, and what
  the reader of the primary properties makes of quoted values.
\<close>

section \<open>Finding and changing a message\<close>

text \<open>What a change of a message must keep for the message to be found again.\<close>

definition keeps_place :: "(json \<Rightarrow> json) \<Rightarrow> bool" where
  "keeps_place f \<longleftrightarrow>
     (\<forall>d. \<exists>d'. f (JObj d) = JObj d' \<and> map_of d' ''name'' = map_of d ''name'' \<and> map_of d' ''sub'' = map_of d ''sub'')"

lemma keeps_place_sub: "keeps_place f \<Longrightarrow> \<exists>d'. f (JObj d) = JObj d' \<and> map_of d' ''name'' = map_of d ''name'' \<and> sub_msgs d' = sub_msgs d"
  unfolding keeps_place_def sub_msgs_def by metis

lemma keeps_place_setP [simp]: "k \<noteq> ''name'' \<Longrightarrow> k \<noteq> ''sub'' \<Longrightarrow> keeps_place (setP k x)"
  unfolding keeps_place_def setP_def by (simp add: update_conv')

lemma keeps_place_comp: "keeps_place f \<Longrightarrow> keeps_place g \<Longrightarrow> keeps_place (\<lambda>m. f (g m))"
  unfolding keeps_place_def by metis

lemma sub_msgs_update_sub [simp]: "sub_msgs (AList.update ''sub'' (JArr subs) d) = subs"
  by (simp add: sub_msgs_def update_conv')

lemma sub_msgs_update [simp]: "k \<noteq> ''sub'' \<Longrightarrow> sub_msgs (AList.update k x d) = sub_msgs d"
  by (simp add: sub_msgs_def update_conv')

lemma name_update [simp]: "k \<noteq> k' \<Longrightarrow> map_of (AList.update k x d) k' = map_of d k'"
  by (simp add: update_conv')

text \<open>The search in a list, by the result in the sub-messages of its first message.\<close>

lemma find_target_sub:
  assumes "find_target tg (JObj d # msgs) = Inr (Some m)"
  obtains (sub) "find_target tg (sub_msgs d) = Inr (Some m)"
  | (here) "find_target tg (sub_msgs d) = Inr None" "map_of d ''name'' = Some tg" "m = JObj d"
  | (later) name where "find_target tg (sub_msgs d) = Inr None" "map_of d ''name'' = Some name" "name \<noteq> tg"
      "find_target tg msgs = Inr (Some m)"
proof -
  from assms obtain ret where ret: "find_target tg (sub_msgs d) = Inr ret"
    unfolding find_target.simps bindP_Inr_iff by blast
  show ?thesis
  proof (cases ret)
    case None
    with assms ret obtain name where name: "map_of d ''name'' = Some name"
      by (cases "map_of d ''name''") simp_all
    show ?thesis
      by (cases "name = tg") (use assms ret None name here later in simp_all)
  qed (use assms ret sub in simp)
qed

lemma change_none: "find_target tg ms = Inr None \<Longrightarrow> change_target f tg ms = None"
  by (induction tg ms rule: find_target.induct) (auto simp: bindP_Inr_iff split: option.splits if_splits)

lemma change_found: "find_target tg ms = Inr (Some m) \<Longrightarrow> \<exists>ms'. change_target f tg ms = Some ms'"
proof (induction tg ms rule: find_target.induct)
  case (2 tg d msgs)
  from "2.prems" show ?case
  proof (cases rule: find_target_sub)
    case sub
    then show ?thesis
      using "2.IH"(1) by auto
  next
    case here
    then show ?thesis
      by (simp add: change_none)
  next
    case (later name)
    then show ?thesis
      using "2.IH"(2) [OF later(1) refl later(2,3)] by (auto simp: change_none)
  qed
qed simp_all

lemma find_changed:
  "keeps_place f \<Longrightarrow> find_target tg ms = Inr (Some m) \<Longrightarrow> change_target f tg ms = Some ms' \<Longrightarrow>
   find_target tg ms' = Inr (Some (f m))"
proof (induction tg ms arbitrary: ms' rule: find_target.induct)
  case (2 tg d msgs)
  obtain d' where d': "f (JObj d) = JObj d'" "map_of d' ''name'' = map_of d ''name''" "sub_msgs d' = sub_msgs d"
    using keeps_place_sub [OF "2.prems"(1)] by blast
  from "2.prems"(2) show ?case
  proof (cases rule: find_target_sub)
    case sub
    then obtain subs where "change_target f tg (sub_msgs d) = Some subs"
      using change_found by blast
    then show ?thesis
      using "2.IH"(1) "2.prems" sub by auto
  next
    case here
    then show ?thesis
      using "2.prems"(3) change_none [OF here(1), of f] d' by auto
  next
    case (later name)
    then obtain rest where "change_target f tg msgs = Some rest"
      using change_found by blast
    then show ?thesis
      using "2.IH"(2) [OF later(1) refl later(2,3)] "2.prems" later change_none [OF later(1), of f] by auto
  qed
qed simp_all

lemma put_id_found:
  assumes "put_id tid ms = Inr ms'" and "find_target tg ms = Inr (Some m)"
  shows "\<exists>m'. find_target tg ms' = Inr (Some m')"
proof -
  from assms(1) obtain d rest where ms: "ms = JObj d # rest" "ms' = JObj (AList.update ''id'' (JStr tid) d) # rest"
    by (auto simp: put_id_def setP_def split: list.splits json.splits)
  from assms(2) show ?thesis
    unfolding ms by (cases rule: find_target_sub) auto
qed

lemma found_object: "find_target tg ms = Inr (Some m) \<Longrightarrow> \<exists>d. m = JObj d"
proof (induction tg ms rule: find_target.induct)
  case (2 tg d msgs)
  from "2.prems" show ?case
  proof (cases rule: find_target_sub)
    case (later name)
    then show ?thesis
      using "2.IH"(2) [OF later(1) refl later(2,3)] by simp
  qed (use "2.IH"(1) in simp_all)
qed simp_all

text \<open>The message that a test names with a target.\<close>

definition target_of :: "json \<Rightarrow> json \<Rightarrow> json option" where
  "target_of target t =
     (case getP t ''testcase'' of
        Inr (JArr ms) \<Rightarrow> (case find_target target ms of Inr r \<Rightarrow> r | Inl _ \<Rightarrow> None)
      | _ \<Rightarrow> None)"

lemma changed_test_target:
  assumes "changed_test tid f target msgs testcase = Inr t" and "getP testcase ''testcase'' = Inr (JArr msgs)"
    and "find_target target msgs = Inr (Some m)" and "keeps_place f"
  shows "\<exists>d. target_of target t = Some (f (JObj d))"
proof -
  from assms(1) obtain ms ms' where ms: "put_id tid msgs = Inr ms" "change_target f target ms = Some ms'"
    "t = setP ''testcase'' (JArr ms') testcase"
    by (auto simp: changed_test_def bindP_Inr_iff split: option.splits)
  obtain d where d: "find_target target ms = Inr (Some (JObj d))"
    using put_id_found [OF ms(1) assms(3)] found_object by blast
  have "getP t ''testcase'' = Inr (JArr ms')"
    using assms(2) unfolding ms(3) by (auto simp: getP_def setP_def update_conv' split: json.splits)
  then show ?thesis
    using find_changed [OF assms(4) d ms(2)] by (auto simp: target_of_def)
qed

section \<open>The tests a loop adds\<close>

text \<open>From \<open>old\<close> to \<open>new\<close>, every message gets one test for each of its jobs, in their order.\<close>

definition emits :: "('j \<Rightarrow> json \<Rightarrow> bool) \<Rightarrow> (string \<Rightarrow> 'j list) \<Rightarrow> tests_t \<Rightarrow> tests_t \<Rightarrow> bool" where
  "emits R jobs old new \<longleftrightarrow> (\<forall>key. \<exists>ts. tests_of new key = tests_of old key @ ts \<and> list_all2 R (jobs key) ts)"

lemma emits_none [simp]: "emits R (\<lambda>_. []) old old"
  by (simp add: emits_def)

lemma emits_trans:
  assumes "emits R j1 a b" and "emits R j2 b c"
  shows "emits R (\<lambda>key. j1 key @ j2 key) a c"
  unfolding emits_def
proof
  fix key
  obtain ts1 ts2 where "tests_of b key = tests_of a key @ ts1" "list_all2 R (j1 key) ts1"
    "tests_of c key = tests_of b key @ ts2" "list_all2 R (j2 key) ts2"
    using assms unfolding emits_def by blast
  then have "tests_of c key = tests_of a key @ ts1 @ ts2 \<and> list_all2 R (j1 key @ j2 key) (ts1 @ ts2)"
    by (simp add: list_all2_appendI)
  then show "\<exists>ts. tests_of c key = tests_of a key @ ts \<and> list_all2 R (j1 key @ j2 key) ts"
    by blast
qed

lemma emits_foldP:
  assumes "\<And>x s s'. x \<in> set xs \<Longrightarrow> f x s = Inr s' \<Longrightarrow> emits R (jobs x) (pr s) (pr s')"
  shows "foldP f xs s = Inr s' \<Longrightarrow> emits R (\<lambda>key. concat (map (\<lambda>x. jobs x key) xs)) (pr s) (pr s')"
  using assms
proof (induction xs arbitrary: s)
  case (Cons x xs)
  from Cons.prems(1) obtain s1 where s1: "f x s = Inr s1" "foldP f xs s1 = Inr s'"
    by (auto simp: bindP_Inr_iff)
  have "emits R (jobs x) (pr s) (pr s1)"
    using Cons.prems(2) [OF _ s1(1)] by simp
  moreover have "emits R (\<lambda>key. concat (map (\<lambda>x. jobs x key) xs)) (pr s1) (pr s')"
    by (rule Cons.IH [OF s1(2)]) (rule Cons.prems(2), simp)
  ultimately show ?case
    by (simp add: emits_trans)
qed simp

lemma emits_mapP:
  assumes "\<And>x s y s'. x \<in> set xs \<Longrightarrow> f x s = Inr (y, s') \<Longrightarrow> emits R (jobs x) (pr s) (pr s')"
  shows "mapP f xs s = Inr (ys, s') \<Longrightarrow> emits R (\<lambda>key. concat (map (\<lambda>x. jobs x key) xs)) (pr s) (pr s')"
  using assms
proof (induction xs arbitrary: s ys)
  case (Cons x xs)
  from Cons.prems(1) obtain y s1 ys1 where s1: "f x s = Inr (y, s1)" "mapP f xs s1 = Inr (ys1, s')"
    by (auto simp: bindP_Inr_iff)
  have "emits R (jobs x) (pr s) (pr s1)"
    using Cons.prems(2) [OF _ s1(1)] by simp
  moreover have "emits R (\<lambda>key. concat (map (\<lambda>x. jobs x key) xs)) (pr s1) (pr s')"
    by (rule Cons.IH [OF s1(2)]) (rule Cons.prems(2), simp)
  ultimately show ?case
    by (simp add: emits_trans)
qed simp

lemma emits_add_test:
  assumes "add_test k t ret = Inr ret'" and "R j t"
  shows "emits R (\<lambda>key. if k = Some key then [j] else []) ret ret'"
  using assms by (auto simp: emits_def add_test_def tests_of_def update_conv' split: option.splits)

lemma tests_of_no_tests [simp]: "tests_of no_tests key = []"
proof -
  have "map_of (map (\<lambda>key. (key, [] :: json list)) ks) key = (if key \<in> set ks then Some [] else None)" for ks
    by (induction ks) auto
  then show ?thesis
    by (simp add: tests_of_def no_tests_def)
qed

lemma emits_from_none: "emits R jobs no_tests ret \<Longrightarrow> list_all2 R (jobs key) (tests_of ret key)"
  by (auto simp: emits_def)

section \<open>The wanted tests\<close>

definition cases_of :: "ptc_t \<Rightarrow> json list" where
  "cases_of ptc =
     (case getP (pt_object ptc) ''testcases'' of
        Inl _ \<Rightarrow> []
      | Inr v \<Rightarrow> (case iterP v of Inl _ \<Rightarrow> [] | Inr ts \<Rightarrow> ts))"

lemma cases_of_eq: "getP (pt_object ptc) ''testcases'' = Inr v \<Longrightarrow> iterP v = Inr ts \<Longrightarrow> cases_of ptc = ts"
  by (simp add: cases_of_def)

definition may_update :: "json \<Rightarrow> string option \<Rightarrow> bool" where
  "may_update testcase target =
     (case target_of (target_json target) testcase of None \<Rightarrow> False | Some m \<Rightarrow> has_op m ''update'' = Inr True)"

definition other_values :: "(pval list \<Rightarrow> pval list) \<Rightarrow> ptc_t \<Rightarrow> string option \<Rightarrow> pval list" where
  "other_values order ptc target =
     (case get_possible_values ptc target of
        Inl _ \<Rightarrow> []
      | Inr pvals \<Rightarrow>
          (case get_correct_values ptc target of
             Inl _ \<Rightarrow> []
           | Inr cvals \<Rightarrow> order (filter (\<lambda>x. x \<notin> set cvals) pvals)))"

text \<open>A job is a property, one of its tests, a target and a value.\<close>

definition target_jobs ::
  "(pval list \<Rightarrow> pval list) \<Rightarrow> ptc_t \<Rightarrow> json \<Rightarrow> string option \<Rightarrow> (ptc_t \<times> json \<times> string option \<times> pval) list" where
  "target_jobs order ptc testcase target =
     (if may_update testcase target
      then map (\<lambda>val. (ptc, testcase, target, val)) (other_values order ptc target) else [])"

definition update_jobs ::
  "(pval list \<Rightarrow> pval list) \<Rightarrow> ptc_t list \<Rightarrow> string \<Rightarrow> (ptc_t \<times> json \<times> string option \<times> pval) list" where
  "update_jobs order ptcs key =
     concat (map (\<lambda>ptc.
       concat (map (\<lambda>testcase.
         concat (map (\<lambda>target.
           if pt_message ptc = Some key then target_jobs order ptc testcase target else [])
         (pt_targets ptc)))
       (cases_of ptc)))
     ptcs)"

text \<open>The test of a job is its test with an identifier and the value; nothing but the target is changed.\<close>

definition update_made :: "ptc_t \<times> json \<times> string option \<times> pval \<Rightarrow> json \<Rightarrow> bool" where
  "update_made job t =
     (case job of (ptc, testcase, target, val) \<Rightarrow>
        (\<exists>n msgs. getP testcase ''testcase'' = Inr (JArr msgs) \<and>
           changed_test (update_id ptc val n) (set_value val) (target_json target) msgs testcase = Inr t) \<and>
        (\<exists>m. target_of (target_json target) t = Some m \<and>
           getP m ''value'' = Inr (pval_json val) \<and> getP m ''op'' = Inr (JStr ''update'')))"

lemma keeps_place_set_value [simp]: "keeps_place (set_value val)"
proof -
  have "keeps_place (\<lambda>m. setP ''op'' (JStr ''update'') (setP ''value'' (pval_json val) m))"
    by (rule keeps_place_comp) simp_all
  then show ?thesis
    unfolding set_value_def .
qed

lemma set_value_fields:
  "getP (set_value val (JObj d)) ''value'' = Inr (pval_json val)"
  "getP (set_value val (JObj d)) ''op'' = Inr (JStr ''update'')"
  by (simp_all add: set_value_def setP_def getP_def update_conv')

lemma update_value_emits:
  assumes "update_value ptc testcase msgs target val st = Inr st'"
    and "getP testcase ''testcase'' = Inr (JArr msgs)" and "find_target (target_json target) msgs = Inr (Some m)"
  shows "emits update_made (\<lambda>key. if pt_message ptc = Some key then [(ptc, testcase, target, val)] else []) (snd st) (snd st')"
proof -
  from assms(1) obtain t ret where
    t: "changed_test (update_id ptc val (fst st + 1)) (set_value val) (target_json target) msgs testcase = Inr t" and
    ret: "add_test (pt_message ptc) t (snd st) = Inr ret" "st' = (fst st + 1, ret)"
    by (auto simp: update_value_def bindP_Inr_iff)
  obtain d where "target_of (target_json target) t = Some (set_value val (JObj d))"
    using changed_test_target [OF t assms(2,3) keeps_place_set_value] by blast
  then have "update_made (ptc, testcase, target, val) t"
    using t assms(2) set_value_fields by (auto simp: update_made_def)
  then show ?thesis
    using emits_add_test [OF ret(1)] ret(2) by simp
qed

lemma concat_single: "concat (map (\<lambda>x. if b then [f x] else []) xs) = (if b then map f xs else [])"
  by (induction xs) simp_all

lemma update_target_skips:
  assumes "update_target order ptc testcase target st = Inr st'" and "\<not> may_update testcase target"
  shows "st' = st"
proof -
  from assms(1) obtain pvals cvals v where v: "get_possible_values ptc target = Inr pvals"
    "get_correct_values ptc target = Inr cvals" "getP testcase ''testcase'' = Inr v"
    unfolding update_target_def bindP_Inr_iff by blast
  show ?thesis
  proof (cases v)
    case (JArr msgs)
    with assms(1) v obtain r where r: "find_target (target_json target) msgs = Inr r"
      by (cases "find_target (target_json target) msgs") (simp_all add: update_target_def)
    show ?thesis
    proof (cases r)
      case (Some m)
      have "has_op m ''update'' \<noteq> Inr True"
        using assms(2) v(3) JArr r Some by (simp add: may_update_def target_of_def)
      moreover obtain b where "has_op m ''update'' = Inr b"
        using assms(1) v JArr r Some by (cases "has_op m ''update''") (simp_all add: update_target_def)
      ultimately have "has_op m ''update'' = Inr False"
        by simp
      then show ?thesis
        using assms(1) v JArr r Some by (simp add: update_target_def)
    qed (use assms(1) v JArr r in \<open>simp add: update_target_def\<close>)
  qed (use assms(1) v in \<open>simp_all add: update_target_def\<close>)
qed

lemma update_target_emits:
  assumes "update_target order ptc testcase target st = Inr st'"
  shows "emits update_made (\<lambda>key. if pt_message ptc = Some key then target_jobs order ptc testcase target else [])
           (snd st) (snd st')"
proof (cases "may_update testcase target")
  case False
  then have "target_jobs order ptc testcase target = []"
    by (simp add: target_jobs_def)
  then show ?thesis
    using update_target_skips [OF assms False] by (simp cong: if_cong)
next
  case True
  then obtain msgs m where m: "getP testcase ''testcase'' = Inr (JArr msgs)"
    "find_target (target_json target) msgs = Inr (Some m)" "has_op m ''update'' = Inr True"
    by (auto simp: may_update_def target_of_def split: json.splits option.splits sum.splits)
  from assms obtain pvals cvals where v: "get_possible_values ptc target = Inr pvals" "get_correct_values ptc target = Inr cvals"
    unfolding update_target_def bindP_Inr_iff by blast
  have run: "foldP (update_value ptc testcase msgs target) (other_values order ptc target) st = Inr st'"
    using assms m v by (simp add: update_target_def other_values_def)
  have "emits update_made (\<lambda>key. if pt_message ptc = Some key then [(ptc, testcase, target, val)] else []) (snd s) (snd s')"
    if "update_value ptc testcase msgs target val s = Inr s'" for val s s'
    using update_value_emits [OF that m(1,2)] .
  from emits_foldP [where pr = snd, OF this run]
  have "emits update_made (\<lambda>key. if pt_message ptc = Some key
          then map (\<lambda>val. (ptc, testcase, target, val)) (other_values order ptc target) else []) (snd st) (snd st')"
    by (simp add: concat_single)
  moreover have "target_jobs order ptc testcase target = map (\<lambda>val. (ptc, testcase, target, val)) (other_values order ptc target)"
    using True by (simp add: target_jobs_def)
  ultimately show ?thesis
    by (simp cong: if_cong)
qed

lemma update_ptc_emits:
  assumes "update_ptc order ptc ret = Inr ret'"
  shows "emits update_made (\<lambda>key. concat (map (\<lambda>testcase. concat (map (\<lambda>target.
           if pt_message ptc = Some key then target_jobs order ptc testcase target else []) (pt_targets ptc)))
           (cases_of ptc))) ret ret'"
proof -
  from assms obtain n where n: "foldP (update_case order ptc) (cases_of ptc) (0, ret) = Inr (n, ret')"
    by (auto simp: update_ptc_def bindP_Inr_iff cases_of_def)
  have "emits update_made (\<lambda>key. concat (map (\<lambda>target. if pt_message ptc = Some key
           then target_jobs order ptc testcase target else []) (pt_targets ptc))) (snd st) (snd st')"
    if "update_case order ptc testcase st = Inr st'" for testcase st st'
    by (rule emits_foldP [where f = "update_target order ptc testcase"])
      (use that update_target_emits in \<open>simp_all add: update_case_def\<close>)
  from emits_foldP [where pr = snd, OF this n] show ?thesis
    by simp
qed

text \<open>
  C17: When \<^verbatim>\<open>update_values\<close> ends, the tests of every message are exactly the wanted ones, in the order of the
  properties, their tests, the targets and the values: one for each possible value that is not a correct
  one, at each target whose operations have an update. Each is the original test with an identifier, and
  only the target is changed: a search finds it with the value and the operation of an update.
\<close>

theorem update_values_exact:
  assumes "update_values order ptcs = Inr ret"
  shows "list_all2 update_made (update_jobs order ptcs key) (tests_of ret key)"
proof -
  have "emits update_made (update_jobs order ptcs) no_tests ret"
    unfolding update_jobs_def
    using emits_foldP [where f = "update_ptc order" and pr = id, simplified, OF update_ptc_emits] assms
    by (simp add: update_values_def)
  then show ?thesis
    by (rule emits_from_none)
qed

text \<open>A property of one message with one attribute, whose correct value is 2.\<close>

definition example_ptc :: ptc_t where
  "example_ptc =
     \<lparr>pt_fname = ''1.property'', pt_pnum = 1, pt_id = Some ''200_ok-status'', pt_message = Some ''200_ok'',
      pt_object = JObj [(''testcases'', JArr [JObj [(''testcase'', JArr [
        JObj [(''name'', JStr ''200_ok''), (''sub'', JArr [
          JObj [(''name'', JStr ''status''), (''op'', JArr [JStr ''update'', JStr ''drop'']), (''value'', JNum ''2'')]])]])]])],
      pt_targets = [Some ''status''], pt_possible = [(Some ''status'', [PInt 1, PInt 2, PInt 3])],
      pt_correct = [(Some ''status'', [PInt 2])]\<rparr>"

definition example_update :: tests_t where
  "example_update = (case update_values (\<lambda>vs. vs) [example_ptc] of Inr ret \<Rightarrow> ret | Inl _ \<Rightarrow> [])"

lemma example_update_runs: "update_values (\<lambda>vs. vs) [example_ptc] = Inr example_update"
  by code_simp

lemma example_update_jobs:
  "map (\<lambda>(_, _, target, val). (target, val)) (update_jobs (\<lambda>vs. vs) [example_ptc] ''200_ok'') =
   [(Some ''status'', PInt 1), (Some ''status'', PInt 3)]"
  by code_simp

theorem update_values_exact_witness:
  "update_values (\<lambda>vs. vs) [example_ptc] = Inr example_update \<and>
   map (\<lambda>(_, _, target, val). (target, val)) (update_jobs (\<lambda>vs. vs) [example_ptc] ''200_ok'') =
     [(Some ''status'', PInt 1), (Some ''status'', PInt 3)] \<and>
   list_all2 update_made (update_jobs (\<lambda>vs. vs) [example_ptc] ''200_ok'') (tests_of example_update ''200_ok'')"
  using example_update_runs example_update_jobs update_values_exact [OF example_update_runs] by simp

section \<open>Replaced messages\<close>

text \<open>A job is a property, the messages of one of its tests and an error.\<close>

definition protocol_errors :: "json list \<Rightarrow> json list \<Rightarrow> json \<Rightarrow> json list" where
  "protocol_errors emsgs fmsgs lc =
     (if containsP lc ''sub'' \<noteq> Inr False then []
      else
        (case getP lc ''name'' of
           Inl _ \<Rightarrow> []
         | Inr name \<Rightarrow>
             if containsP name ''ike'' = Inr True then emsgs
             else if containsP name ''sip'' = Inr True then fmsgs else []))"

definition test_messages :: "json \<Rightarrow> json list" where
  "test_messages testcase = (case getP testcase ''testcase'' of Inr (JArr tc) \<Rightarrow> tc | _ \<Rightarrow> [])"

definition case_errors :: "json list \<Rightarrow> json list \<Rightarrow> json \<Rightarrow> json list" where
  "case_errors emsgs fmsgs testcase = protocol_errors emsgs fmsgs (last (test_messages testcase))"

definition substitution_jobs ::
  "json list \<Rightarrow> json list \<Rightarrow> ptc_t list \<Rightarrow> string \<Rightarrow> (ptc_t \<times> json list \<times> json) list" where
  "substitution_jobs emsgs fmsgs ptcs key =
     concat (map (\<lambda>ptc.
       concat (map (\<lambda>testcase.
         if pt_message ptc = Some key
         then map (\<lambda>emsg. (ptc, test_messages testcase, emsg)) (case_errors emsgs fmsgs testcase) else [])
       (cases_of ptc)))
     ptcs)"

text \<open>
  The test of a job has as many messages; the last one keeps its name, is marked as a substitution and has
  the error as its only sub-message, without the receiver and the reporter of the error.
\<close>

definition substitution_made :: "ptc_t \<times> json list \<times> json \<Rightarrow> json \<Rightarrow> bool" where
  "substitution_made job t =
     (case job of (ptc, tc, emsg) \<Rightarrow>
        \<exists>msgs. t = JObj [(''testcase'', JArr msgs)] \<and> length msgs = length tc \<and>
          tl (butlast msgs) = tl (butlast tc) \<and>
          getP (last msgs) ''name'' = getP (last tc) ''name'' \<and>
          getP (last msgs) ''op'' = Inr (JStr ''substitution'') \<and>
          getP (last msgs) ''sub'' = Inr (JArr [clean_error emsg]))"

lemma put_id_last:
  assumes "put_id tid (front @ [m]) = Inr msgs" and "k \<noteq> ''id''"
  shows "length msgs = Suc (length front)" "tl (butlast msgs) = tl front" "getP (last msgs) k = getP m k"
  using assms
  by (cases front; auto simp: put_id_def setP_def getP_def update_conv' split: json.splits)+

lemma substitute_error_emits:
  assumes "substitute_error show ptc front lc emsg st = Inr st'"
    and "lc = setP ''op'' (JStr ''substitution'') (delP ''op'' (JObj d))"
  shows "emits substitution_made (\<lambda>key. if pt_message ptc = Some key then [(ptc, front @ [JObj d], emsg)] else [])
           (snd st) (snd st')"
proof -
  let ?m = "setP ''sub'' (JArr [clean_error emsg]) lc"
  from assms(1) obtain name msgs ret where
    msgs: "put_id (substitution_id show ptc name (fst st + 1)) (front @ [?m]) = Inr msgs" and
    ret: "add_test (pt_message ptc) (JObj [(''testcase'', JArr msgs)]) (snd st) = Inr ret" "st' = (fst st + 1, ret)"
    by (auto simp: substitute_error_def bindP_Inr_iff)
  have "getP ?m ''name'' = getP (JObj d) ''name''" "getP ?m ''op'' = Inr (JStr ''substitution'')"
    "getP ?m ''sub'' = Inr (JArr [clean_error emsg])"
    by (simp_all add: assms(2) setP_def delP_def getP_def update_conv' delete_conv')
  then have "substitution_made (ptc, front @ [JObj d], emsg) (JObj [(''testcase'', JArr msgs)])"
    using put_id_last [OF msgs, of "''name''"] put_id_last [OF msgs, of "''op''"] put_id_last [OF msgs, of "''sub''"]
    by (simp add: substitution_made_def)
  then show ?thesis
    using emits_add_test [OF ret(1)] ret(2) by simp
qed

text \<open>What a test of the loop is when the loop goes on: the messages, and the branch taken.\<close>

lemma substitute_case_cases:
  assumes "substitute_case show emsgs fmsgs ptc testcase st = Inr (y, st')"
  obtains (skip) "case_errors emsgs fmsgs testcase = []" "st' = st"
  | (run) front d where "test_messages testcase = front @ [JObj d]"
      "foldP (substitute_error show ptc front (setP ''op'' (JStr ''substitution'') (delP ''op'' (JObj d))))
         (case_errors emsgs fmsgs testcase) st = Inr st'"
proof -
  from assms obtain v tc b where tc: "getP testcase ''testcase'' = Inr v" "messagesP v = Inr tc"
    and b: "containsP (last tc) ''sub'' = Inr b"
    unfolding substitute_case_def bindP_Inr_iff by blast
  from tc(2) have v: "v = JArr tc" "tc \<noteq> []"
    by (auto simp: messagesP_def split: json.splits if_splits)
  then have msgs: "test_messages testcase = tc"
    using tc(1) by (simp add: test_messages_def)
  show ?thesis
  proof (cases b)
    case True
    then show ?thesis
      using assms tc b msgs by (intro skip) (simp_all add: substitute_case_def case_errors_def protocol_errors_def)
  next
    case False
    let ?lc = "setP ''op'' (JStr ''substitution'') (delP ''op'' (last tc))"
    from assms tc b False obtain name ike sip where n: "getP ?lc ''name'' = Inr name"
      "containsP name ''ike'' = Inr ike" "containsP name ''sip'' = Inr sip"
      "foldP (substitute_error show ptc (butlast tc) ?lc) (if ike then emsgs else if sip then fmsgs else []) st = Inr st'"
      by (auto simp: substitute_case_def Let_def bindP_Inr_iff)
    then obtain d where d: "last tc = JObj d"
      by (cases "last tc") (simp_all add: setP_def delP_def getP_def)
    have "getP (JObj d) ''name'' = Inr name"
      using n(1) by (simp add: d setP_def delP_def getP_def update_conv' delete_conv')
    then have "case_errors emsgs fmsgs testcase = (if ike then emsgs else if sip then fmsgs else [])"
      using b False n(2,3) by (simp add: case_errors_def protocol_errors_def msgs d)
    then show ?thesis
      using run [of "butlast tc" d] n(4) msgs d append_butlast_last_id [OF v(2)] by simp
  qed
qed

lemma substitute_case_emits:
  assumes "substitute_case show emsgs fmsgs ptc testcase st = Inr (y, st')"
  shows "emits substitution_made (\<lambda>key. if pt_message ptc = Some key
           then map (\<lambda>emsg. (ptc, test_messages testcase, emsg)) (case_errors emsgs fmsgs testcase) else []) (snd st) (snd st')"
  using assms
proof (cases rule: substitute_case_cases)
  case skip
  then show ?thesis
    by (simp cong: if_cong)
next
  case (run front d)
  have "emits substitution_made (\<lambda>key. concat (map (\<lambda>emsg. if pt_message ptc = Some key
          then [(ptc, front @ [JObj d], emsg)] else []) (case_errors emsgs fmsgs testcase))) (snd st) (snd st')"
    by (rule emits_foldP [where pr = snd, OF _ run(2)]) (erule substitute_error_emits, rule refl)
  then show ?thesis
    by (simp add: run(1) concat_single cong: if_cong)
qed

lemma substitute_ptc_emits:
  assumes "substitute_ptc show emsgs fmsgs ptc ret = Inr (ptc', ret')"
  shows "emits substitution_made (\<lambda>key. concat (map (\<lambda>testcase. if pt_message ptc = Some key
           then map (\<lambda>emsg. (ptc, test_messages testcase, emsg)) (case_errors emsgs fmsgs testcase) else [])
           (cases_of ptc))) ret ret'"
proof -
  from assms obtain ts n where
    n: "mapP (substitute_case show emsgs fmsgs ptc) (cases_of ptc) (0, ret) = Inr (ts, n, ret')"
    by (auto simp: substitute_ptc_def bindP_Inr_iff cases_of_def)
  from emits_mapP [where pr = snd, OF substitute_case_emits n] show ?thesis
    by simp
qed


text \<open>A property of one message without attributes, and an error of the IKE protocol.\<close>

definition example_message :: ptc_t where
  "example_message =
     \<lparr>pt_fname = ''2.property'', pt_pnum = 2, pt_id = Some ''ike_auth_1_response'', pt_message = Some ''ike_auth_1_response'',
      pt_object = JObj [(''testcases'', JArr [JObj [(''testcase'', JArr [
        JObj [(''name'', JStr ''enable_vowifi'')],
        JObj [(''name'', JStr ''ike_auth_1_response''), (''op'', JArr [JStr ''drop''])]])]])],
      pt_targets = [], pt_possible = [], pt_correct = []\<rparr>"

definition example_error :: json where
  "example_error = JObj [(''name'', JStr ''no_proposal_chosen''), (''receiver'', JStr ''epdg''), (''value'', JNum ''14'')]"

definition example_substitution :: "ptc_t list \<times> tests_t" where
  "example_substitution =
     (case substitution (\<lambda>_. []) [example_error] [] [example_message] of Inr r \<Rightarrow> r | Inl _ \<Rightarrow> ([], []))"

lemma example_substitution_runs:
  "substitution (\<lambda>_. []) [example_error] [] [example_message] = Inr (fst example_substitution, snd example_substitution)"
  by code_simp


section \<open>Quoted values\<close>

text \<open>The quoted text of a value and a line with one possible and one correct value.\<close>

definition quoted :: "string \<Rightarrow> string" where
  "quoted w = CHR 0x22 # w @ [CHR 0x22]"

definition quoted_line :: "string \<Rightarrow> string" where
  "quoted_line w = '' VALUE(['' @ quoted w @ ''], ['' @ quoted w @ ''])''"

definition plain_char :: "char \<Rightarrow> bool" where
  "plain_char c \<longleftrightarrow> c \<notin> {CHR 0x22, CHR '','', CHR '':'', CHR ''('', CHR '')'', CHR ''['', CHR '']''}"

lemma split_at_none: "c \<notin> set t \<Longrightarrow> split_at c t = [t]"
  by (induction t) auto

lemma indexP_append: "c \<notin> set xs \<Longrightarrow> indexP (xs @ c # ys) c = Inr (length xs)"
  by (induction xs) auto

lemma slice_middle: "length xs = n \<Longrightarrow> slice_from n (n + length ys) (xs @ ys @ zs) = ys"
  by (auto simp: slice_from_def)

lemma bracketed_quoted:
  assumes "list_all plain_char w" and "CHR ''['' \<notin> set xs" and "CHR '']'' \<notin> set xs"
  shows "bracketed (xs @ CHR ''['' # quoted w @ CHR '']'' # ys) = Inr [quoted w]"
proof -
  have w: "c \<notin> set (quoted w)" if "c \<in> {CHR '','', CHR ''['', CHR '']''}" for c
    using assms(1) that by (auto simp: quoted_def plain_char_def list_all_iff)
  have "indexP (xs @ CHR ''['' # quoted w @ CHR '']'' # ys) CHR '']'' = Inr (length xs + 1 + length (quoted w))"
    using indexP_append [of "CHR '']''" "xs @ CHR ''['' # quoted w" ys] assms(3) w by simp
  moreover have "slice_from (length xs + 1) (length xs + 1 + length (quoted w)) (xs @ CHR ''['' # quoted w @ CHR '']'' # ys) = quoted w"
    using slice_middle [of "xs @ ''[''" "length xs + 1" "quoted w" "CHR '']'' # ys"] by simp
  ultimately show ?thesis
    using w assms(2) by (simp add: bracketed_def indexP_append split_at_none)
qed

lemma py_strip_quoted [simp]: "py_strip (quoted w) = quoted w"
  by (simp add: py_strip_def quoted_def py_space_def)

lemma py_int_quoted [simp]: "py_int (quoted w) = None"
  by (cases w) (simp_all add: py_int_def, simp_all add: quoted_def py_digit_def)

lemma unquote_quoted [simp]: "unquote (quoted w) = Inr w"
  by (simp add: unquote_def quoted_def strip_first_def strip_last_def)

lemma quoted_line_values:
  assumes "list_all plain_char w"
  shows "line_values (quoted_line w) = Inr ([PStr w], [PStr (quoted w)])"
proof -
  let ?tmp = "'', ['' @ quoted w @ '']''"
  let ?args = "''['' @ quoted w @ '']'' @ ?tmp"
  have w: "c \<notin> set (quoted w)" if "c \<in> {CHR '','', CHR ''('', CHR '')'', CHR ''['', CHR '']''}" for c
    using assms that by (auto simp: quoted_def plain_char_def list_all_iff)
  have line: "quoted_line w = '' VALUE('' @ ?args @ '')''"
    by (simp add: quoted_line_def)
  have "indexP (quoted_line w) CHR ''('' = Inr 6"
    using indexP_append [of "CHR ''(''" "'' VALUE''"] unfolding line by simp
  moreover have "indexP (quoted_line w) CHR '')'' = Inr (7 + length ?args)"
    using indexP_append [of "CHR '')''" "'' VALUE('' @ ?args" "[]"] w unfolding line by simp
  moreover have "slice_from 7 (7 + length ?args) (quoted_line w) = ?args"
    unfolding line by (rule slice_middle) simp
  moreover have "bracketed ?args = Inr [quoted w]"
    using bracketed_quoted [OF assms, of "[]" ?tmp] by simp
  moreover have "indexP ?args CHR '']'' = Inr (1 + length (quoted w))"
    using indexP_append [of "CHR '']''" "''['' @ quoted w" ?tmp] w by simp
  moreover have "drop (1 + length (quoted w) + 1) ?args = ?tmp"
    by simp
  moreover have "py_strip ?tmp = ?tmp"
    by (simp add: py_strip_def py_space_def)
  moreover have "bracketed ?tmp = Inr [quoted w]"
    using bracketed_quoted [OF assms, of "'', ''" "[]"] by simp
  moreover have "CHR ''('' \<in> set (quoted_line w)"
    by (simp add: quoted_line_def)
  ultimately show ?thesis
    unfolding line_values_def Let_def
    by (simp add: possible_value_def correct_value_def add_value_def)
qed

text \<open>
  A correct value that is written in quotes does not take the value away from the possible ones. The
  quotes of a possible value are removed and those of a correct value are not, so that with a quoted line
  of one value for the attribute the value is tested as another value than the correct one.
\<close>

theorem quoted_value_not_excluded:
  assumes "list_all plain_char w"
  shows "\<exists>st'. parse_values order (''\"value\":'' @ quoted_line w) st = Inr st' \<and>
           map_of (pr_correct st') (pr_target st) = Some [PStr (quoted w)] \<and>
           (\<forall>ptc. pt_possible ptc = pr_possible st' \<and> pt_correct ptc = pr_correct st' \<longrightarrow>
              other_values order ptc (pr_target st) = order [PStr w])"
proof -
  let ?line = "''\"value\":'' @ quoted_line w"
  have "CHR '':'' \<notin> set (quoted_line w)"
    using assms by (auto simp: quoted_line_def quoted_def plain_char_def list_all_iff)
  then have "line_split ?line = Inr (quoted_line w)"
    by (simp add: line_split_def split_at_none)
  moreover have "strstr ?line ''VALUE''"
    by (simp add: quoted_line_def)
  ultimately show ?thesis
    using quoted_line_values [OF assms]
    by (simp add: parse_values_def other_values_def get_possible_values_def get_correct_values_def update_conv' quoted_def)
qed

theorem quoted_value_not_excluded_witness:
  "list_all plain_char ''min'' \<and>
   (\<exists>st'. parse_values (\<lambda>vs. vs) (''\"value\":'' @ quoted_line ''min'')
            \<lparr>pr_targets = [], pr_possible = [], pr_correct = [], pr_target = Some ''nonce'', pr_names = [''nonce''], pr_js = []\<rparr> = Inr st' \<and>
          map_of (pr_correct st') (Some ''nonce'') = Some [PStr (quoted ''min'')] \<and>
          other_values (\<lambda>vs. vs) (example_ptc\<lparr>pt_possible := pr_possible st', pt_correct := pr_correct st'\<rparr>) (Some ''nonce'') =
            [PStr ''min''])"
proof -
  have w: "list_all plain_char ''min''"
    by (simp add: plain_char_def)
  show ?thesis
    using w quoted_value_not_excluded [OF w, of "\<lambda>vs. vs"
      "\<lparr>pr_targets = [], pr_possible = [], pr_correct = [], pr_target = Some ''nonce'', pr_names = [''nonce''], pr_js = []\<rparr>"]
    by (elim exE) (intro conjI, simp, intro exI, auto)
qed

end
