(* ===== verification/Aka_Functions.thy ===== *)
theory Aka_Functions
  imports Prelude
begin

text \<open>
  The AKA algorithms of the ePDG (\<^verbatim>\<open>eap_aka_3gpp_functions.c\<close>), the provider that makes authentication
  vectors (\<^verbatim>\<open>eap_aka_3gpp_provider.c\<close>) and the card that answers them (\<^verbatim>\<open>eap_aka_3gpp_card.c\<close>). Byte arrays
  are strings. Parameters are the block cipher (key and block to block; the initialisation vector is
  zero), the table of shared keys and the random bytes; output on the console is left out.
\<close>

unbundle bit_operations_syntax

section \<open>Bytes\<close>

definition byte_xor :: "char \<Rightarrow> char \<Rightarrow> char" where
  "byte_xor c d = char_of (unat ((of_char c :: 8 word) XOR of_char d))"

definition memxor :: "string \<Rightarrow> string \<Rightarrow> nat \<Rightarrow> string" where
  "memxor dst src n = map2 byte_xor (take n dst) (take n src) @ drop n dst"

text \<open>The increment from the last byte on, until a byte does not become zero.\<close>

fun increment_rev :: "string \<Rightarrow> string" where
  "increment_rev [] = []"
| "increment_rev (c # cs) =
     (let c' = char_of (unat ((of_char c :: 8 word) + 1))
      in if c' \<noteq> NUL then c' # cs else c' # increment_rev cs)"

definition chunk_increment :: "string \<Rightarrow> string" where
  "chunk_increment s = rev (increment_rev (rev s))"

fun memcmp_less :: "string \<Rightarrow> string \<Rightarrow> bool" where
  "memcmp_less (a # as) (b # bs) =
     (if a \<noteq> b then (of_char a :: nat) < of_char b else memcmp_less as bs)"
| "memcmp_less _ _ = False"

section \<open>Algorithms\<close>

type_synonym crypter_t = "string \<Rightarrow> string \<Rightarrow> string option"

text \<open>\<^verbatim>\<open>data[(i + r) % 16] ^= src[i]\<close> and \<^verbatim>\<open>data[(i + r) % 16] = src[i]\<close> for the sixteen bytes.\<close>

definition xor_rotated :: "nat \<Rightarrow> string \<Rightarrow> string \<Rightarrow> string" where
  "xor_rotated r src data =
     fold (\<lambda>i data. data[(i + r) mod 16 := byte_xor (data ! ((i + r) mod 16)) (src ! i)]) [0..<16] data"

definition set_rotated :: "nat \<Rightarrow> string \<Rightarrow> string \<Rightarrow> string" where
  "set_rotated r src data = fold (\<lambda>i data. data[(i + r) mod 16 := src ! i]) [0..<16] data"

definition xor_last :: "char \<Rightarrow> string \<Rightarrow> string" where
  "xor_last c data = data[15 := byte_xor (data ! 15) c]"

definition f1andf1star :: "crypter_t \<Rightarrow> string \<Rightarrow> string \<Rightarrow> string \<Rightarrow> string \<Rightarrow> string \<Rightarrow> string option" where
  "f1andf1star crypter k opc rand sqn amf =
     (case crypter k (memxor rand opc 16) of
        None \<Rightarrow> None
      | Some data \<Rightarrow>
          let inp = take 6 sqn @ take 2 amf @ take 6 sqn @ take 2 amf
          in (case crypter k (xor_rotated 8 (memxor inp opc 16) data) of
                None \<Rightarrow> None
              | Some data' \<Rightarrow> Some (memxor data' opc 16)))"

definition f1 :: "crypter_t \<Rightarrow> string \<Rightarrow> string \<Rightarrow> string \<Rightarrow> string \<Rightarrow> string \<Rightarrow> string option" where
  "f1 crypter k opc rand sqn amf = map_option (take 8) (f1andf1star crypter k opc rand sqn amf)"

definition f1star :: "crypter_t \<Rightarrow> string \<Rightarrow> string \<Rightarrow> string \<Rightarrow> string \<Rightarrow> string \<Rightarrow> string option" where
  "f1star crypter k opc rand sqn amf = map_option (\<lambda>mac. take 8 (drop 8 mac)) (f1andf1star crypter k opc rand sqn amf)"

text \<open>An output block: the first encryption rotated, changed in the last byte and encrypted.\<close>

definition out_block :: "crypter_t \<Rightarrow> string \<Rightarrow> string \<Rightarrow> string \<Rightarrow> nat \<Rightarrow> char \<Rightarrow> string \<Rightarrow> string option" where
  "out_block crypter k opc temp r c data =
     map_option (\<lambda>d. memxor d opc 16) (crypter k (xor_last c (set_rotated r (memxor temp opc 16) data)))"

text \<open>The results are RES, CK, IK and AK.\<close>

definition f2345 :: "crypter_t \<Rightarrow> string \<Rightarrow> string \<Rightarrow> string \<Rightarrow> (string \<times> string \<times> string \<times> string) option" where
  "f2345 crypter k opc rand =
     (let data = memxor rand opc 16
      in case crypter k data of
           None \<Rightarrow> None
         | Some temp \<Rightarrow>
             (case out_block crypter k opc temp 0 (CHR 0x01) data of
                None \<Rightarrow> None
              | Some out2 \<Rightarrow>
                  (case out_block crypter k opc temp 12 (CHR 0x02) out2 of
                     None \<Rightarrow> None
                   | Some out3 \<Rightarrow>
                       (case out_block crypter k opc temp 8 (CHR 0x04) out3 of
                          None \<Rightarrow> None
                        | Some out4 \<Rightarrow> Some (take 8 (drop 8 out2), out3, out4, take 6 out2)))))"

definition f5star :: "crypter_t \<Rightarrow> string \<Rightarrow> string \<Rightarrow> string \<Rightarrow> string option" where
  "f5star crypter k opc rand =
     (let data = memxor rand opc 16
      in case crypter k data of
           None \<Rightarrow> None
         | Some temp \<Rightarrow> map_option (take 6) (out_block crypter k opc temp 4 (CHR 0x08) data))"

text \<open>The key of an identity, with or without OPc.\<close>

definition eap_aka_3gpp_get_k_opc :: "(string \<Rightarrow> string option) \<Rightarrow> string \<Rightarrow> (string \<times> string) option" where
  "eap_aka_3gpp_get_k_opc get_shared ident =
     (case get_shared ident of
        None \<Rightarrow> None
      | Some key \<Rightarrow>
          if length key = 16 then Some (key, replicate 16 NUL)
          else if length key = 32 then Some (take 16 key, drop 16 key)
          else None)"

text \<open>The time and the offset are computed and then not used.\<close>

definition eap_aka_3gpp_get_sqn :: "int \<Rightarrow> int \<Rightarrow> string" where
  "eap_aka_3gpp_get_sqn now offset = replicate 6 NUL"

section \<open>The provider\<close>

record provider_t =
  pv_sqn :: string

record quintuplet_t =
  qt_rand :: string
  qt_xres :: string
  qt_ck :: string
  qt_ik :: string
  qt_autn :: string

definition eap_aka_3gpp_provider_create :: "int \<Rightarrow> provider_t" where
  "eap_aka_3gpp_provider_create now = \<lparr>pv_sqn = eap_aka_3gpp_get_sqn now 180\<rparr>"

definition AKA_AMF :: string where
  "AKA_AMF = [CHR 0x80, CHR 0x00]"

definition provider_get_quintuplet ::
  "crypter_t \<Rightarrow> (string \<Rightarrow> string option) \<Rightarrow> string option \<Rightarrow> string \<Rightarrow> provider_t \<Rightarrow> quintuplet_t option \<times> provider_t" where
  "provider_get_quintuplet crypter get_shared rng ident p =
     (case rng of
        None \<Rightarrow> (None, p)
      | Some _ \<Rightarrow>
          let rand = replicate 16 NUL
          in (case eap_aka_3gpp_get_k_opc get_shared ident of
                None \<Rightarrow> (None, p)
              | Some (k, opc) \<Rightarrow>
                  (case f1 crypter k opc rand (pv_sqn p) AKA_AMF of
                     None \<Rightarrow> (None, p)
                   | Some maca \<Rightarrow>
                       (case f2345 crypter k opc rand of
                          None \<Rightarrow> (None, p)
                        | Some (xres, ck, ik, ak) \<Rightarrow>
                            (Some \<lparr>qt_rand = rand, qt_xres = xres, qt_ck = ck, qt_ik = ik,
                                   qt_autn = memxor (pv_sqn p) ak 6 @ AKA_AMF @ maca\<rparr>,
                             p\<lparr>pv_sqn := chunk_increment (pv_sqn p)\<rparr>)))))"

definition provider_resync ::
  "crypter_t \<Rightarrow> (string \<Rightarrow> string option) \<Rightarrow> string \<Rightarrow> string \<Rightarrow> string \<Rightarrow> provider_t \<Rightarrow> bool \<times> provider_t" where
  "provider_resync crypter get_shared ident rand auts p =
     (case eap_aka_3gpp_get_k_opc get_shared ident of
        None \<Rightarrow> (False, p)
      | Some (k, opc) \<Rightarrow>
          (case f5star crypter k opc rand of
             None \<Rightarrow> (False, p)
           | Some aks \<Rightarrow>
               let sqn = memxor (take 6 auts) aks 6
               in (case f1star crypter k opc rand sqn (replicate 2 NUL) of
                     None \<Rightarrow> (False, p)
                   | Some xmacs \<Rightarrow>
                       if xmacs = take 8 (drop 6 auts) then (True, p\<lparr>pv_sqn := chunk_increment sqn\<rparr>)
                       else (False, p))))"

section \<open>The card\<close>

record card_t =
  cd_seq_check :: bool
  cd_sqn :: string

datatype status_t =
    SUCCESS | FAILED | OUT_OF_RES | ALREADY_DONE | NOT_SUPPORTED | INVALID_ARG | NOT_FOUND | PARSE_ERROR | VERIFY_ERROR
  | INVALID_STATE | DESTROY_ME | NEED_MORE

definition eap_aka_3gpp_card_create :: "bool \<Rightarrow> int \<Rightarrow> card_t" where
  "eap_aka_3gpp_card_create seq_check now = \<lparr>cd_seq_check = seq_check, cd_sqn = eap_aka_3gpp_get_sqn now 0\<rparr>"

text \<open>The status, and on success CK, IK and RES.\<close>

definition card_get_quintuplet ::
  "crypter_t \<Rightarrow> (string \<Rightarrow> string option) \<Rightarrow> string \<Rightarrow> string \<Rightarrow> string \<Rightarrow> card_t \<Rightarrow>
   status_t \<times> (string \<times> string \<times> string) option \<times> card_t" where
  "card_get_quintuplet crypter get_shared ident rand autn usim =
     (case eap_aka_3gpp_get_k_opc get_shared ident of
        None \<Rightarrow> (FAILED, None, usim)
      | Some (k, opc) \<Rightarrow>
          (case f2345 crypter k opc rand of
             None \<Rightarrow> (FAILED, None, usim)
           | Some (res, ck, ik, ak) \<Rightarrow>
               let sqn = memxor (take 6 autn) ak 6
               in (case f1 crypter k opc rand sqn (take 2 (drop 6 autn)) of
                     None \<Rightarrow> (FAILED, None, usim)
                   | Some xmac \<Rightarrow>
                       if take 8 (drop 8 autn) \<noteq> xmac then (FAILED, None, usim)
                       else if cd_seq_check usim \<and> \<not> memcmp_less (cd_sqn usim) sqn then (INVALID_STATE, None, usim)
                       else (SUCCESS, Some (ck, ik, res), usim\<lparr>cd_sqn := sqn\<rparr>))))"

definition card_resync ::
  "crypter_t \<Rightarrow> (string \<Rightarrow> string option) \<Rightarrow> string \<Rightarrow> string \<Rightarrow> card_t \<Rightarrow> string option" where
  "card_resync crypter get_shared ident rand usim =
     (case eap_aka_3gpp_get_k_opc get_shared ident of
        None \<Rightarrow> None
      | Some (k, opc) \<Rightarrow>
          (case f5star crypter k opc rand of
             None \<Rightarrow> None
           | Some aks \<Rightarrow>
               (case f1star crypter k opc rand (cd_sqn usim) (replicate 2 NUL) of
                  None \<Rightarrow> None
                | Some macs \<Rightarrow> Some (memxor (cd_sqn usim) aks 6 @ macs))))"

section \<open>Lemmas\<close>

text \<open>What the code relies on: the cipher succeeds and gives blocks of the same size.\<close>

definition block_cipher :: "crypter_t \<Rightarrow> bool" where
  "block_cipher crypter \<longleftrightarrow> (\<forall>k d. length k = 16 \<longrightarrow> length d = 16 \<longrightarrow> (\<exists>e. crypter k d = Some e \<and> length e = 16))"

lemma word_of_byte [simp]: "(of_char (char_of (unat w)) :: 8 word) = w"
proof -
  have "(of_char (char_of (unat w)) :: 8 word) = of_nat (of_char (char_of (unat w)))"
    by (simp only: of_nat_of_char)
  also have "\<dots> = of_nat (unat w mod 256)"
    by (simp only: of_char_of)
  also have "\<dots> = w"
    using unsigned_less [of w, where ?'a = nat] by simp
  finally show ?thesis .
qed

lemma unat_of_byte: "unat (of_char c :: 8 word) = of_char c"
proof -
  have "unat (of_char c :: 8 word) = unat (of_nat (of_char c) :: 8 word)"
    by (simp only: of_nat_of_char)
  also have "\<dots> = of_char c"
    by (subst unat_of_nat) (simp add: nat_of_char_less_256 take_bit_eq_mod)
  finally show ?thesis .
qed

lemma byte_of_word [simp]: "char_of (unat (of_char c :: 8 word)) = c"
  by (simp add: unat_of_byte)

lemma byte_xor_cancel [simp]: "byte_xor (byte_xor c d) d = c"
  by (simp add: byte_xor_def xor.assoc)

lemma length_memxor [simp]: "length dst = n \<Longrightarrow> length src = n \<Longrightarrow> length (memxor dst src n) = n"
  by (simp add: memxor_def)

lemma memxor_cancel:
  assumes "length dst = n" and "length src = n"
  shows "memxor (memxor dst src n) src n = dst"
proof -
  have "map2 byte_xor (map2 byte_xor as bs) bs = as" if "length as = length bs" for as bs
    using that by (induction as bs rule: list_induct2) simp_all
  then show ?thesis
    using assms by (simp add: memxor_def)
qed

lemma length_xor_rotated [simp]: "length (xor_rotated r src data) = length data"
proof -
  have "length (fold (\<lambda>i data. data[(i + r) mod 16 := byte_xor (data ! ((i + r) mod 16)) (src ! i)]) is data) = length data"
    for "is" by (induction "is" arbitrary: data) simp_all
  then show ?thesis
    by (simp add: xor_rotated_def)
qed

lemma length_set_rotated [simp]: "length (set_rotated r src data) = length data"
proof -
  have "length (fold (\<lambda>i data. data[(i + r) mod 16 := src ! i]) is data) = length data"
    for "is" by (induction "is" arbitrary: data) simp_all
  then show ?thesis
    by (simp add: set_rotated_def)
qed

lemma length_xor_last [simp]: "length (xor_last c data) = length data"
  by (simp add: xor_last_def)

lemma block_cipherE:
  assumes "block_cipher crypter" and "length k = 16" and "length d = 16"
  obtains e where "crypter k d = Some e" "length e = 16"
  using assms unfolding block_cipher_def by blast

lemma out_block_ok:
  assumes "block_cipher crypter" and "length k = 16" and "length opc = 16" and "length temp = 16" and "length data = 16"
  shows "\<exists>out. out_block crypter k opc temp r c data = Some out \<and> length out = 16"
proof -
  obtain e where "crypter k (xor_last c (set_rotated r (memxor temp opc 16) data)) = Some e" "length e = 16"
    using block_cipherE [OF assms(1,2), of "xor_last c (set_rotated r (memxor temp opc 16) data)"] assms(5) by auto
  then show ?thesis
    using assms by (simp add: out_block_def)
qed

lemma f1andf1star_ok:
  assumes "block_cipher crypter" and "length k = 16" and "length opc = 16" and "length rand = 16"
    and "length sqn = 6" and "length amf = 2"
  shows "\<exists>mac. f1andf1star crypter k opc rand sqn amf = Some mac \<and> length mac = 16"
proof -
  obtain data where data: "crypter k (memxor rand opc 16) = Some data" "length data = 16"
    using block_cipherE [OF assms(1,2), of "memxor rand opc 16"] assms by auto
  obtain e where "crypter k (xor_rotated 8 (memxor (take 6 sqn @ take 2 amf @ take 6 sqn @ take 2 amf) opc 16) data) = Some e"
    "length e = 16"
    using block_cipherE [OF assms(1,2)] data(2) by (metis length_xor_rotated)
  then show ?thesis
    using data assms by (simp add: f1andf1star_def)
qed

lemma f2345_ok:
  assumes "block_cipher crypter" and "length k = 16" and "length opc = 16" and "length rand = 16"
  shows "\<exists>res ck ik ak. f2345 crypter k opc rand = Some (res, ck, ik, ak) \<and> length res = 8 \<and> length ck = 16 \<and> length ik = 16 \<and> length ak = 6"
proof -
  let ?data = "memxor rand opc 16"
  obtain temp where temp: "crypter k ?data = Some temp" "length temp = 16"
    using block_cipherE [OF assms(1,2), of ?data] assms by auto
  obtain out2 where out2: "out_block crypter k opc temp 0 (CHR 0x01) ?data = Some out2" "length out2 = 16"
    using out_block_ok [OF assms(1-3) temp(2), of ?data] assms by auto
  obtain out3 where out3: "out_block crypter k opc temp 12 (CHR 0x02) out2 = Some out3" "length out3 = 16"
    using out_block_ok [OF assms(1-3) temp(2) out2(2)] by auto
  obtain out4 where out4: "out_block crypter k opc temp 8 (CHR 0x04) out3 = Some out4" "length out4 = 16"
    using out_block_ok [OF assms(1-3) temp(2) out3(2)] by auto
  show ?thesis
    using temp out2 out3 out4 by (simp add: f2345_def)
qed

lemma f5star_ok:
  assumes "block_cipher crypter" and "length k = 16" and "length opc = 16" and "length rand = 16"
  shows "\<exists>aks. f5star crypter k opc rand = Some aks \<and> length aks = 6"
proof -
  let ?data = "memxor rand opc 16"
  obtain temp where temp: "crypter k ?data = Some temp" "length temp = 16"
    using block_cipherE [OF assms(1,2), of ?data] assms by auto
  obtain out5 where "out_block crypter k opc temp 4 (CHR 0x08) ?data = Some out5" "length out5 = 16"
    using out_block_ok [OF assms(1-3) temp(2), of ?data] assms by auto
  then show ?thesis
    using temp by (simp add: f5star_def)
qed

lemma get_k_opc_lengths:
  "eap_aka_3gpp_get_k_opc get_shared ident = Some (k, opc) \<Longrightarrow> length k = 16 \<and> length opc = 16"
  by (auto simp: eap_aka_3gpp_get_k_opc_def split: option.splits if_splits)

subsection \<open>Sequence numbers\<close>

text \<open>The number that a sequence of bytes is, the last byte first.\<close>

fun be_rev :: "string \<Rightarrow> nat" where
  "be_rev [] = 0"
| "be_rev (c # cs) = of_char c + 256 * be_rev cs"

definition be_value :: "string \<Rightarrow> nat" where
  "be_value s = be_rev (rev s)"

lemma be_rev_less: "be_rev s < 256 ^ length s"
proof (induction s)
  case (Cons c cs)
  have "of_char c + 256 * be_rev cs < 256 * Suc (be_rev cs)"
    using nat_of_char_less_256 [of c] by simp
  also have "\<dots> \<le> 256 * 256 ^ length cs"
    using Cons by (intro mult_left_mono) simp_all
  finally show ?case by simp
qed simp

lemma be_rev_snoc: "be_rev (s @ [c]) = be_rev s + of_char c * 256 ^ length s"
  by (induction s) (simp_all add: algebra_simps)

lemma be_value_Cons: "be_value (c # cs) = be_value cs + of_char c * 256 ^ length cs"
  by (simp add: be_value_def be_rev_snoc)

lemma be_value_less: "be_value s < 256 ^ length s"
  using be_rev_less [of "rev s"] by (simp add: be_value_def)

lemma length_increment_rev [simp]: "length (increment_rev s) = length s"
  by (induction s) (simp_all add: Let_def)

lemma length_chunk_increment [simp]: "length (chunk_increment s) = length s"
  by (simp add: chunk_increment_def)

lemma byte_succ: "(of_char (char_of (unat ((of_char c :: 8 word) + 1))) :: nat) = (of_char c + 1) mod 256"
proof -
  have "unat ((of_char c :: 8 word) + 1) = (of_char c + 1) mod 256"
    by (simp add: unat_word_ariths unat_of_byte)
  then show ?thesis
    by simp
qed

lemma increment_rev_value: "be_rev (increment_rev s) = (be_rev s + 1) mod 256 ^ length s"
proof (induction s)
  case (Cons c cs)
  define d where "d = char_of (unat ((of_char c :: 8 word) + 1))"
  have d: "(of_char d :: nat) = (of_char c + 1) mod 256"
    unfolding d_def by (rule byte_succ)
  have "(of_char NUL :: nat) = 0"
    by simp
  then have nul: "d = NUL \<longleftrightarrow> (of_char d :: nat) = 0"
    using char_of_char [of d, where ?'a = nat] char_of_char [of NUL, where ?'a = nat] by metis
  show ?case
  proof (cases "(of_char c :: nat) = 255")
    case True
    then have "increment_rev (c # cs) = NUL # increment_rev cs"
      using d nul by (simp add: d_def [symmetric] Let_def)
    then show ?thesis
      using True Cons by (simp add: mult_mod_right algebra_simps)
  next
    case False
    then have c: "(of_char c :: nat) + 1 < 256"
      using nat_of_char_less_256 [of c] by linarith
    then have "increment_rev (c # cs) = d # cs"
      using d nul by (simp add: d_def [symmetric] Let_def)
    moreover have "of_char c + 1 + 256 * be_rev cs < 256 * 256 ^ length cs"
      using c be_rev_less [of cs] by simp
    ultimately show ?thesis
      using c d by simp
  qed
qed simp

lemma chunk_increment_value: "be_value (chunk_increment s) = (be_value s + 1) mod 256 ^ length s"
  using increment_rev_value [of "rev s"] by (simp add: be_value_def chunk_increment_def)

lemma memcmp_less_value: "length a = length b \<Longrightarrow> memcmp_less a b \<longleftrightarrow> be_value a < be_value b"
proof (induction a b rule: list_induct2)
  case (Cons x xs y ys)
  show ?case
  proof (cases "x = y")
    case False
    have "be_value (u # us) < be_value (v # vs)"
      if "(of_char u :: nat) < of_char v" "length us = length vs" for u us v vs
    proof -
      have "be_value (u # us) < (of_char u + 1) * 256 ^ length us"
        using be_value_less [of us] by (simp add: be_value_Cons)
      also have "\<dots> \<le> of_char v * 256 ^ length vs"
        using that by (intro mult_mono) simp_all
      finally show ?thesis
        by (simp add: be_value_Cons)
    qed
    note less = this
    have "(of_char x :: nat) \<noteq> of_char y"
      using False char_of_char [of x, where ?'a = nat] char_of_char [of y, where ?'a = nat] by metis
    then consider "(of_char x :: nat) < of_char y" | "(of_char y :: nat) < of_char x"
      by linarith
    then show ?thesis
    proof cases
      case 1
      then show ?thesis
        using less [OF 1 Cons.hyps(1)] False by simp
    next
      case 2
      then show ?thesis
        using less [OF 2 Cons.hyps(1) [symmetric]] False by simp
    qed
  qed (use Cons in \<open>simp add: be_value_Cons\<close>)
qed (simp add: be_value_def)

subsection \<open>Provider and card\<close>

lemma provider_quintuplet:
  assumes "block_cipher crypter" and "provider_get_quintuplet crypter get_shared rng ident p = (Some q, p')"
    and "length (pv_sqn p) = 6"
  obtains k opc maca ak where "eap_aka_3gpp_get_k_opc get_shared ident = Some (k, opc)"
    "f1 crypter k opc (qt_rand q) (pv_sqn p) AKA_AMF = Some maca" "length maca = 8"
    "f2345 crypter k opc (qt_rand q) = Some (qt_xres q, qt_ck q, qt_ik q, ak)" "length ak = 6"
    "qt_autn q = memxor (pv_sqn p) ak 6 @ AKA_AMF @ maca" "qt_rand q = replicate 16 NUL"
    "p' = p\<lparr>pv_sqn := chunk_increment (pv_sqn p)\<rparr>"
proof -
  from assms(2) obtain k opc where k: "eap_aka_3gpp_get_k_opc get_shared ident = Some (k, opc)"
    by (auto simp: provider_get_quintuplet_def Let_def split: option.splits)
  from get_k_opc_lengths [OF k] have l: "length k = 16" "length opc = 16" "length (replicate 16 NUL) = 16"
    by simp_all
  have "length AKA_AMF = 2"
    by (simp add: AKA_AMF_def)
  then obtain maca where maca: "f1 crypter k opc (replicate 16 NUL) (pv_sqn p) AKA_AMF = Some maca" "length maca = 8"
    using f1andf1star_ok [OF assms(1) l assms(3), of AKA_AMF] by (auto simp: f1_def)
  obtain res ck ik ak where f: "f2345 crypter k opc (replicate 16 NUL) = Some (res, ck, ik, ak)" "length ak = 6"
    using f2345_ok [OF assms(1) l] by auto
  show ?thesis
    by (rule that [OF k]) (use assms(2) k maca f in \<open>auto simp: provider_get_quintuplet_def Let_def split: option.splits\<close>)
qed

lemma card_answers:
  assumes "block_cipher crypter" and "provider_get_quintuplet crypter get_shared rng ident p = (Some q, p')"
    and "length (pv_sqn p) = 6"
  shows "card_get_quintuplet crypter get_shared ident (qt_rand q) (qt_autn q) usim =
    (if cd_seq_check usim \<and> \<not> memcmp_less (cd_sqn usim) (pv_sqn p) then (INVALID_STATE, None, usim)
     else (SUCCESS, Some (qt_ck q, qt_ik q, qt_xres q), usim\<lparr>cd_sqn := pv_sqn p\<rparr>))"
proof -
  obtain k opc maca ak where q: "eap_aka_3gpp_get_k_opc get_shared ident = Some (k, opc)"
    "f1 crypter k opc (qt_rand q) (pv_sqn p) AKA_AMF = Some maca" "length maca = 8"
    "f2345 crypter k opc (qt_rand q) = Some (qt_xres q, qt_ck q, qt_ik q, ak)" "length ak = 6"
    "qt_autn q = memxor (pv_sqn p) ak 6 @ AKA_AMF @ maca"
    by (rule provider_quintuplet [OF assms])
  have "take 6 (qt_autn q) = memxor (pv_sqn p) ak 6" "take 2 (drop 6 (qt_autn q)) = AKA_AMF" "take 8 (drop 8 (qt_autn q)) = maca"
    using assms(3) q(3,5) by (simp_all add: q(6) AKA_AMF_def)
  moreover have "memxor (memxor (pv_sqn p) ak 6) ak 6 = pv_sqn p"
    using memxor_cancel assms(3) q(5) by simp
  ultimately show ?thesis
    using q(1,2,4) by (simp add: card_get_quintuplet_def Let_def)
qed

lemma card_resync_ok:
  assumes "block_cipher crypter" and "eap_aka_3gpp_get_k_opc get_shared ident \<noteq> None" and "length rand = 16"
    and "length (cd_sqn usim) = 6"
  shows "\<exists>auts. card_resync crypter get_shared ident rand usim = Some auts"
proof -
  from assms(2) obtain k opc where k: "eap_aka_3gpp_get_k_opc get_shared ident = Some (k, opc)"
    by auto
  from get_k_opc_lengths [OF k] have l: "length k = 16" "length opc = 16"
    by simp_all
  then show ?thesis
    using k f5star_ok [OF assms(1) l assms(3)] f1andf1star_ok [OF assms(1) l assms(3,4), of "replicate 2 NUL"]
    by (auto simp: card_resync_def f1star_def)
qed

lemma provider_resyncs:
  assumes "block_cipher crypter" and "card_resync crypter get_shared ident rand usim = Some auts"
    and "length rand = 16" and "length (cd_sqn usim) = 6"
  shows "provider_resync crypter get_shared ident rand auts p = (True, p\<lparr>pv_sqn := chunk_increment (cd_sqn usim)\<rparr>)"
proof -
  from assms(2) obtain k opc where k: "eap_aka_3gpp_get_k_opc get_shared ident = Some (k, opc)"
    by (auto simp: card_resync_def split: option.splits)
  from get_k_opc_lengths [OF k] have l: "length k = 16" "length opc = 16"
    by simp_all
  obtain aks where aks: "f5star crypter k opc rand = Some aks" "length aks = 6"
    using f5star_ok [OF assms(1) l assms(3)] by auto
  obtain macs where macs: "f1star crypter k opc rand (cd_sqn usim) (replicate 2 NUL) = Some macs" "length macs = 8"
    using f1andf1star_ok [OF assms(1) l assms(3,4), of "replicate 2 NUL"] by (auto simp: f1star_def)
  have auts: "auts = memxor (cd_sqn usim) aks 6 @ macs"
    using assms(2) k aks macs by (simp add: card_resync_def)
  have "take 6 auts = memxor (cd_sqn usim) aks 6" "take 8 (drop 6 auts) = macs"
    using assms(4) aks(2) macs(2) by (simp_all add: auts)
  moreover have "memxor (memxor (cd_sqn usim) aks 6) aks 6 = cd_sqn usim"
    using memxor_cancel assms(4) aks(2) by simp
  ultimately show ?thesis
    using k aks(1) macs(1) by (simp add: provider_resync_def Let_def)
qed

end
