(* ===== verification/Simaka_Message.thy ===== *)
theory Simaka_Message
  imports Aka_Functions
begin

text \<open>
  Messages of EAP-AKA (\<^verbatim>\<open>simaka_message.c\<close>): reading attributes from bytes, decryption, verification of the
  MAC and generation. Pointers into a message are offsets; a message is allocated with its exact size, so
  a read behind it is a fault. A message has at most 65535 bytes, like the payload that carries it. Parameters are the cryptographic primitives and the random bytes.
\<close>

section \<open>Data\<close>

abbreviation (input) AT_RAND :: nat where "AT_RAND \<equiv> 1"
abbreviation (input) AT_AUTN :: nat where "AT_AUTN \<equiv> 2"
abbreviation (input) AT_RES :: nat where "AT_RES \<equiv> 3"
abbreviation (input) AT_AUTS :: nat where "AT_AUTS \<equiv> 4"
abbreviation (input) AT_PADDING :: nat where "AT_PADDING \<equiv> 6"
abbreviation (input) AT_NONCE_MT :: nat where "AT_NONCE_MT \<equiv> 7"
abbreviation (input) AT_PERMANENT_ID_REQ :: nat where "AT_PERMANENT_ID_REQ \<equiv> 10"
abbreviation (input) AT_MAC :: nat where "AT_MAC \<equiv> 11"
abbreviation (input) AT_NOTIFICATION :: nat where "AT_NOTIFICATION \<equiv> 12"
abbreviation (input) AT_ANY_ID_REQ :: nat where "AT_ANY_ID_REQ \<equiv> 13"
abbreviation (input) AT_IDENTITY :: nat where "AT_IDENTITY \<equiv> 14"
abbreviation (input) AT_VERSION_LIST :: nat where "AT_VERSION_LIST \<equiv> 15"
abbreviation (input) AT_SELECTED_VERSION :: nat where "AT_SELECTED_VERSION \<equiv> 16"
abbreviation (input) AT_FULLAUTH_ID_REQ :: nat where "AT_FULLAUTH_ID_REQ \<equiv> 17"
abbreviation (input) AT_COUNTER :: nat where "AT_COUNTER \<equiv> 19"
abbreviation (input) AT_COUNTER_TOO_SMALL :: nat where "AT_COUNTER_TOO_SMALL \<equiv> 20"
abbreviation (input) AT_NONCE_S :: nat where "AT_NONCE_S \<equiv> 21"
abbreviation (input) AT_CLIENT_ERROR_CODE :: nat where "AT_CLIENT_ERROR_CODE \<equiv> 22"
abbreviation (input) AT_IV :: nat where "AT_IV \<equiv> 129"
abbreviation (input) AT_ENCR_DATA :: nat where "AT_ENCR_DATA \<equiv> 130"
abbreviation (input) AT_NEXT_PSEUDONYM :: nat where "AT_NEXT_PSEUDONYM \<equiv> 132"
abbreviation (input) AT_NEXT_REAUTH_ID :: nat where "AT_NEXT_REAUTH_ID \<equiv> 133"
abbreviation (input) AT_CHECKCODE :: nat where "AT_CHECKCODE \<equiv> 134"

abbreviation (input) AKA_CHALLENGE :: nat where "AKA_CHALLENGE \<equiv> 1"
abbreviation (input) AKA_AUTHENTICATION_REJECT :: nat where "AKA_AUTHENTICATION_REJECT \<equiv> 2"
abbreviation (input) AKA_SYNCHRONIZATION_FAILURE :: nat where "AKA_SYNCHRONIZATION_FAILURE \<equiv> 4"
abbreviation (input) AKA_IDENTITY :: nat where "AKA_IDENTITY \<equiv> 5"
abbreviation (input) SIM_START :: nat where "SIM_START \<equiv> 10"
abbreviation (input) SIM_CHALLENGE :: nat where "SIM_CHALLENGE \<equiv> 11"
abbreviation (input) AKA_NOTIFICATION :: nat where "AKA_NOTIFICATION \<equiv> 12"
abbreviation (input) AKA_REAUTHENTICATION :: nat where "AKA_REAUTHENTICATION \<equiv> 13"
abbreviation (input) AKA_CLIENT_ERROR :: nat where "AKA_CLIENT_ERROR \<equiv> 14"

abbreviation (input) EAP_REQUEST :: nat where "EAP_REQUEST \<equiv> 1"
abbreviation (input) EAP_RESPONSE :: nat where "EAP_RESPONSE \<equiv> 2"
abbreviation (input) EAP_SIM :: nat where "EAP_SIM \<equiv> 18"
abbreviation (input) EAP_AKA :: nat where "EAP_AKA \<equiv> 23"

text \<open>Where the MAC is: in the message, or in decrypted data that was released.\<close>

datatype mac_ref = NoMac | MacAt nat | MacFreed

record smsg_t =
  sm_hdr :: string
  sm_attrs :: "(nat \<times> string) list"
  sm_encrypted :: bool
  sm_p_bit :: bool
  sm_mac :: mac_ref
  sm_encr :: string
  sm_iv :: string

text \<open>
  The primitives: the MAC of data under a key (16 bytes), the cipher in CBC mode with blocks of 16 bytes
  (key, initialisation vector, data), hash functions, and the blocks of the key derivation.
\<close>

record crypto_lib_t =
  lib_mac :: "string \<Rightarrow> string \<Rightarrow> string"
  lib_encrypt :: "string \<Rightarrow> string \<Rightarrow> string \<Rightarrow> string option"
  lib_decrypt :: "string \<Rightarrow> string \<Rightarrow> string \<Rightarrow> string option"
  lib_sha1 :: "string \<Rightarrow> string"
  lib_sha256 :: "string \<Rightarrow> string"
  lib_prf :: "string \<Rightarrow> string"

text \<open>The keys K_encr and K_auth, once they are derived.\<close>

type_synonym keys_t = "(string \<times> string) option"

definition byte_at :: "string \<Rightarrow> nat \<Rightarrow> nat" where
  "byte_at s i = of_char (s ! i)"

definition be16 :: "nat \<Rightarrow> string" where
  "be16 n = [char_of (n div 256 mod 256), char_of (n mod 256)]"

definition get_subtype :: "smsg_t \<Rightarrow> nat" where
  "get_subtype m = byte_at (sm_hdr m) 5"

definition simaka_attribute_skippable :: "nat \<Rightarrow> bool" where
  "simaka_attribute_skippable attribute \<longleftrightarrow> \<not> attribute \<le> 127"

section \<open>Construction\<close>

definition simaka_message_create_data :: "string \<Rightarrow> smsg_t option" where
  "simaka_message_create_data data =
     (if length data < 8 \<or> 256 * byte_at data 2 + byte_at data 3 \<noteq> length data mod 65536 then None
      else if byte_at data 0 \<noteq> EAP_REQUEST \<and> byte_at data 0 \<noteq> EAP_RESPONSE then None
      else if byte_at data 4 \<noteq> EAP_SIM \<and> byte_at data 4 \<noteq> EAP_AKA then None
      else Some \<lparr>sm_hdr = data, sm_attrs = [], sm_encrypted = False, sm_p_bit = True, sm_mac = NoMac,
                 sm_encr = [], sm_iv = []\<rparr>)"

definition simaka_message_create :: "bool \<Rightarrow> nat \<Rightarrow> nat \<Rightarrow> nat \<Rightarrow> smsg_t option" where
  "simaka_message_create request identifier type subtype =
     simaka_message_create_data
       ([char_of (if request then EAP_REQUEST else EAP_RESPONSE), char_of identifier] @ be16 8 @
        [char_of type, char_of subtype, NUL, NUL])"

definition add_attribute :: "nat \<Rightarrow> string \<Rightarrow> smsg_t \<Rightarrow> smsg_t" where
  "add_attribute type data m = m\<lparr>sm_attrs := sm_attrs m @ [(type, data)]\<rparr>"

section \<open>Parsing\<close>

text \<open>
  One attribute: nothing when its length is invalid, else where its data is, the data and the number of
  bytes it takes. An attribute of length zero has data of a negative length.
\<close>

definition parse_attr :: "bool \<Rightarrow> string \<Rightarrow> (nat \<times> string \<times> nat) option cres" where
  "parse_attr encrypted inp =
     (let type = byte_at inp 0; hlen = byte_at inp 1
      in if \<not> encrypted \<and> type \<in> {AT_COUNTER_TOO_SMALL, AT_COUNTER, AT_NEXT_PSEUDONYM, AT_NEXT_REAUTH_ID, AT_NONCE_S}
         then Inr None
         else if type \<in> {AT_COUNTER_TOO_SMALL, AT_ANY_ID_REQ, AT_PERMANENT_ID_REQ, AT_FULLAUTH_ID_REQ} then
           Inr (if hlen \<noteq> 1 \<or> length inp < 4 then None else Some (2, [], 4))
         else if type \<in> {AT_COUNTER, AT_CLIENT_ERROR_CODE, AT_SELECTED_VERSION, AT_NOTIFICATION} then
           Inr (if hlen \<noteq> 1 \<or> length inp < 4 then None else Some (2, take 2 (drop 2 inp), 4))
         else if type \<in> {AT_NEXT_PSEUDONYM, AT_NEXT_REAUTH_ID, AT_RES, AT_IDENTITY, AT_VERSION_LIST} then
           (if hlen < 1 \<or> length inp < 4 then Inr None
            else
              let bits = 256 * byte_at inp 2 + byte_at inp 3;
                  len = (if type = AT_RES then bits div 8 else bits)
              in if hlen * 4 < len \<or> length inp < len then Inr None
                 else if length inp < 4 + len then Inl OutOfBounds
                 else Inr (Some (4, take len (drop 4 inp), hlen * 4)))
         else if type \<in> {AT_NONCE_S, AT_AUTN, AT_NONCE_MT, AT_IV, AT_MAC} then
           Inr (if hlen \<noteq> 5 \<or> length inp < 20 then None else Some (4, take 16 (drop 4 inp), 20))
         else if type \<in> {AT_ENCR_DATA, AT_RAND} then
           (if length inp < hlen * 4 \<or> length inp < 4 then Inr None
            else if hlen = 0 \<and> type = AT_RAND then Inl OutOfBounds
            else Inr (Some (4, take (hlen * 4 - 4) (drop 4 inp), hlen * 4)))
         else if type = AT_AUTS then
           Inr (if hlen \<noteq> 4 \<or> length inp < 16 then None else Some (2, take 14 (drop 2 inp), 16))
         else
           (if length inp < hlen * 4 \<or> length inp < 4 then Inr None
            else if hlen = 0 \<and> type \<noteq> AT_PADDING then Inl OutOfBounds
            else Inr (Some (2, take (hlen * 4 - 2) (drop 2 inp), hlen * 4))))"

text \<open>
  What is done with an attribute at an offset of the message; the offset is missing in decrypted data.
\<close>

definition handle_attr :: "nat option \<Rightarrow> nat \<Rightarrow> nat \<Rightarrow> string \<Rightarrow> smsg_t \<Rightarrow> bool \<times> smsg_t" where
  "handle_attr off pos type data m =
     (if type = AT_MAC then
        (True, m\<lparr>sm_mac := (case off of None \<Rightarrow> MacFreed | Some n \<Rightarrow> MacAt (n + pos))\<rparr>)
      else if type = AT_IV then (True, m\<lparr>sm_iv := data\<rparr>)
      else if type = AT_ENCR_DATA then (True, m\<lparr>sm_encr := data\<rparr>)
      else if type = AT_PADDING then (True, m)
      else if type = AT_NOTIFICATION \<and> \<not> sm_p_bit m \<and> \<not> sm_encrypted m then (False, m)
      else if type = AT_NOTIFICATION \<and> sm_p_bit m then
        (True, add_attribute type data (m\<lparr>sm_p_bit := bit (byte_at data 0) 6\<rparr>))
      else (True, add_attribute type data m))"

text \<open>The loop; an attribute that takes no bytes is read again for ever.\<close>

function parse_attributes :: "nat option \<Rightarrow> string \<Rightarrow> smsg_t \<Rightarrow> (bool \<times> smsg_t) cres" where
  "parse_attributes off inp m =
     (if inp = [] then Inr (True, m)
      else if length inp < 2 then Inr (False, m)
      else
        bindE (parse_attr (sm_encrypted m) inp) (\<lambda>r.
          case r of
            None \<Rightarrow> Inr (False, m)
          | Some (pos, data, used) \<Rightarrow>
              (case handle_attr off pos (byte_at inp 0) data m of
                 (False, m') \<Rightarrow> Inr (False, m')
               | (True, m') \<Rightarrow>
                   if used = 0 then Inl Diverges
                   else parse_attributes (map_option (\<lambda>n. n + used) off) (drop used inp) m')))"
  by pat_completeness auto
termination parse_attributes
  by (relation "measure (\<lambda>(off, inp, m). length inp)") auto

declare parse_attributes.simps [simp del]

text \<open>The decryption of the encrypted attributes, when there are keys.\<close>

definition decrypt :: "crypto_lib_t \<Rightarrow> keys_t \<Rightarrow> smsg_t \<Rightarrow> (bool \<times> smsg_t) cres" where
  "decrypt lib keys m =
     (case keys of
        None \<Rightarrow> Inr (True, m)
      | Some (k_encr, k_auth) \<Rightarrow>
          if sm_iv m = [] \<or> sm_encr m = [] \<or> sm_encrypted m then Inr (True, m)
          else if length (sm_encr m) mod 16 \<noteq> 0 then Inr (False, m)
          else
            (case lib_decrypt lib k_encr (sm_iv m) (sm_encr m) of
               None \<Rightarrow> Inr (False, m)
             | Some plain \<Rightarrow>
                 bindE (parse_attributes None plain (m\<lparr>sm_encrypted := True\<rparr>)) (\<lambda>(ok, m').
                   Inr (ok, m'\<lparr>sm_encrypted := False\<rparr>))))"

definition parse :: "crypto_lib_t \<Rightarrow> keys_t \<Rightarrow> smsg_t \<Rightarrow> (bool \<times> smsg_t) cres" where
  "parse lib keys m =
     (if sm_attrs m \<noteq> [] then decrypt lib keys m
      else
        bindE (parse_attributes (Some 8) (drop 8 (sm_hdr m)) m) (\<lambda>(ok, m').
          if ok then decrypt lib keys m' else Inr (False, m')))"

section \<open>Verification\<close>

text \<open>The MAC is set to zero in the message.\<close>

definition check_mac :: "crypto_lib_t \<Rightarrow> keys_t \<Rightarrow> string \<Rightarrow> smsg_t \<Rightarrow> bool cres" where
  "check_mac lib keys sigdata m =
     (case keys of
        None \<Rightarrow> Inr False
      | Some (k_encr, k_auth) \<Rightarrow>
          (case sm_mac m of
             NoMac \<Rightarrow> Inr False
           | MacFreed \<Rightarrow> Inl UseAfterFree
           | MacAt n \<Rightarrow>
               let hdr = sm_hdr m;
                   zeroed = take n hdr @ replicate 16 NUL @ drop (n + 16) hdr
               in Inr (lib_mac lib k_auth (zeroed @ sigdata) = take 16 (drop n hdr))))"

definition verify :: "crypto_lib_t \<Rightarrow> keys_t \<Rightarrow> string \<Rightarrow> smsg_t \<Rightarrow> bool cres" where
  "verify lib keys sigdata m =
     (let subtype = get_subtype m
      in if subtype \<in> {SIM_START, AKA_CLIENT_ERROR, AKA_AUTHENTICATION_REJECT, AKA_SYNCHRONIZATION_FAILURE, AKA_IDENTITY}
         then Inr True
         else if subtype \<in> {SIM_CHALLENGE, AKA_CHALLENGE, AKA_REAUTHENTICATION} then check_mac lib keys sigdata m
         else if subtype = AKA_NOTIFICATION then
           (if sm_p_bit m then Inr True else check_mac lib keys sigdata m)
         else Inr False)"

section \<open>Generation\<close>

text \<open>Writing to a buffer of a given size; a full buffer leaves a NULL pointer.\<close>

definition put :: "nat \<Rightarrow> string \<Rightarrow> string \<Rightarrow> string cres" where
  "put cap out s =
     (if length out + length s \<le> cap then Inr (out @ s)
      else if length out = cap then Inl NullDeref else Inl OutOfBounds)"

text \<open>The bytes of an attribute; those without a rule are skipped.\<close>

definition encode_attr :: "nat \<Rightarrow> string \<Rightarrow> string option cres" where
  "encode_attr type data =
     (if type \<in> {AT_COUNTER_TOO_SMALL, AT_ANY_ID_REQ, AT_PERMANENT_ID_REQ, AT_FULLAUTH_ID_REQ} then
        Inr (Some [char_of type, CHR 0x01, NUL, NUL])
      else if type \<in> {AT_COUNTER, AT_CLIENT_ERROR_CODE, AT_SELECTED_VERSION, AT_NOTIFICATION} then
        (if length data < 2 then Inl OutOfBounds else Inr (Some ([char_of type, CHR 0x01] @ take 2 data)))
      else if type \<in> {AT_NEXT_PSEUDONYM, AT_NEXT_REAUTH_ID, AT_IDENTITY, AT_VERSION_LIST, AT_RES} then
        (let swapped = (length data mod 256) * 256 + length data div 256 mod 256;
             len = (if type = AT_RES then swapped * 8 mod 65536 else swapped);
             padding = (4 - length data mod 4) mod 4;
             hlen = length data div 4 + 1 + (if padding \<noteq> 0 then 1 else 0)
         in Inr (Some ([char_of type, char_of hlen, char_of (len mod 256), char_of (len div 256)] @ data @ replicate padding NUL)))
      else if type \<in> {AT_NONCE_S, AT_NONCE_MT, AT_AUTN} then
        (if length data < 16 then Inl UninitRead
         else Inr (Some ([char_of type, CHR 0x05, NUL, NUL] @ take 16 data)))
      else if type = AT_RAND then
        Inr (Some ([char_of type, char_of (1 + length data div 4), NUL, NUL] @ data))
      else if type = AT_AUTS then
        (if length data < 14 then Inl UninitRead else Inr (Some ([char_of type, CHR 0x04] @ take 14 data)))
      else Inr None)"

definition goes_encrypted :: "nat \<Rightarrow> string \<Rightarrow> bool cres" where
  "goes_encrypted type data =
     (if type \<in> {AT_NONCE_S, AT_NEXT_PSEUDONYM, AT_NEXT_REAUTH_ID, AT_COUNTER, AT_COUNTER_TOO_SMALL} then Inr True
      else if type = AT_NOTIFICATION then
        (if data = [] then Inl OutOfBounds else Inr (\<not> bit (byte_at data 0) 6))
      else Inr False)"

definition generate_attr :: "nat \<Rightarrow> string \<Rightarrow> string \<times> string \<Rightarrow> (string \<times> string) cres" where
  "generate_attr type data bufs =
     bindE (goes_encrypted type data) (\<lambda>b.
     bindE (encode_attr type data) (\<lambda>e.
       case e of
         None \<Rightarrow>
           if b then (if length (snd bufs) < 512 then Inr bufs else Inl NullDeref)
           else (if length (fst bufs) < 1024 then Inr bufs else Inl NullDeref)
       | Some s \<Rightarrow>
           if b then bindE (put 512 (snd bufs) s) (\<lambda>encr. Inr (fst bufs, encr))
           else bindE (put 1024 (fst bufs) s) (\<lambda>out. Inr (out, snd bufs))))"

fun generate_attrs :: "(nat \<times> string) list \<Rightarrow> string \<times> string \<Rightarrow> (string \<times> string) cres" where
  "generate_attrs [] bufs = Inr bufs"
| "generate_attrs ((type, data) # ats) bufs = bindE (generate_attr type data bufs) (generate_attrs ats)"

text \<open>The encrypted attributes: padding, the initialisation vector and the encrypted bytes.\<close>

definition generate_encrypted ::
  "crypto_lib_t \<Rightarrow> keys_t \<Rightarrow> string option \<Rightarrow> string \<Rightarrow> string \<Rightarrow> string option cres" where
  "generate_encrypted lib keys rng out encr =
     (case keys of
        None \<Rightarrow> Inl NullDeref
      | Some (k_encr, k_auth) \<Rightarrow>
          let padding = 16 - length encr mod 16
          in bindE (put 512 encr ([char_of AT_PADDING, char_of (padding div 4)] @ replicate (padding - 2) NUL)) (\<lambda>encr'.
             case rng of
               None \<Rightarrow> Inr None
             | Some iv \<Rightarrow>
                 bindE (put 1024 out ([char_of AT_IV, CHR 0x05, NUL, NUL] @ iv)) (\<lambda>out'.
                   case lib_encrypt lib k_encr iv encr' of
                     None \<Rightarrow> Inr None
                   | Some c \<Rightarrow>
                       bindE (put 1024 out' ([char_of AT_ENCR_DATA, char_of (length c div 4 + 1), NUL, NUL] @ c))
                         (\<lambda>out''. Inr (Some out'')))))"

text \<open>The place for the MAC, the length of the message, and the MAC.\<close>

definition set_length :: "string \<Rightarrow> string" where
  "set_length out = take 2 out @ be16 (length out) @ drop 4 out"

definition generate_mac :: "crypto_lib_t \<Rightarrow> keys_t \<Rightarrow> string \<Rightarrow> string \<Rightarrow> string cres" where
  "generate_mac lib keys sigdata out =
     (case keys of
        None \<Rightarrow> Inl NullDeref
      | Some (k_encr, k_auth) \<Rightarrow>
          bindE (put 1024 out ([char_of AT_MAC, CHR 0x05, NUL, NUL] @ replicate 16 NUL)) (\<lambda>out'.
            let msg = set_length out'
            in Inr (take (length out + 4) msg @ lib_mac lib k_auth (msg @ sigdata))))"

definition generate ::
  "crypto_lib_t \<Rightarrow> keys_t \<Rightarrow> string option \<Rightarrow> string \<Rightarrow> smsg_t \<Rightarrow> string option cres" where
  "generate lib keys rng sigdata m =
     bindE (generate_attrs (sm_attrs m) (take 8 (sm_hdr m), [])) (\<lambda>(out, encr).
     bindE (if encr = [] then Inr (Some out) else generate_encrypted lib keys rng out encr) (\<lambda>r.
       case r of
         None \<Rightarrow> Inr None
       | Some out' \<Rightarrow>
           if get_subtype m \<in> {SIM_CHALLENGE, AKA_CHALLENGE, AKA_REAUTHENTICATION}
           then bindE (generate_mac lib keys sigdata out') (\<lambda>s. Inr (Some s))
           else Inr (Some (set_length out'))))"

section \<open>Lemmas\<close>

text \<open>Attributes that are sent as they are, with data that fits them.\<close>

definition plain_attr :: "nat \<times> string \<Rightarrow> bool" where
  "plain_attr a =
     (case a of (type, data) \<Rightarrow>
        type \<in> {AT_ANY_ID_REQ, AT_PERMANENT_ID_REQ, AT_FULLAUTH_ID_REQ} \<and> data = [] \<or>
        type \<in> {AT_CLIENT_ERROR_CODE, AT_SELECTED_VERSION} \<and> length data = 2 \<or>
        type \<in> {AT_IDENTITY, AT_VERSION_LIST} \<and> length data \<le> 1000 \<or>
        type = AT_RES \<and> length data < 32 \<or>
        type \<in> {AT_NONCE_MT, AT_AUTN} \<and> length data = 16 \<or>
        type = AT_RAND \<and> length data = 16 \<or>
        type = AT_AUTS \<and> length data = 14)"

lemma byte_at_simps [simp]:
  "byte_at (c # s) 0 = of_char c" "byte_at (c # s) (Suc n) = byte_at s n"
  by (simp_all add: byte_at_def)

lemma byte_at_numeral [simp]: "byte_at (c # s) (numeral v) = byte_at s (pred_numeral v)"
  by (simp add: byte_at_def nth_Cons_numeral)

text \<open>The length of a padded attribute, and its place in sixteen bits.\<close>

definition padded :: "nat \<Rightarrow> nat" where
  "padded n = n div 4 + 1 + (if (4 - n mod 4) mod 4 \<noteq> 0 then 1 else 0)"

lemma padded_length: "4 + n + (4 - n mod 4) mod 4 = 4 * padded n"
proof -
  have "n mod 4 = 0 \<or> n mod 4 = 1 \<or> n mod 4 = 2 \<or> n mod 4 = 3"
    by presburger
  then show ?thesis
    using div_mult_mod_eq [of n 4] by (elim disjE) (simp_all add: padded_def)
qed

lemma padded_bounds: "n \<le> 1000 \<Longrightarrow> padded n < 256 \<and> 0 < padded n \<and> n \<le> padded n * 4"
  using padded_length [of n] by (auto simp: padded_def)

lemma swapped_halves:
  assumes "n < (65536 :: nat)"
  shows "((n mod 256) * 256 + n div 256 mod 256) mod 256 = n div 256"
    "((n mod 256) * 256 + n div 256 mod 256) div 256 = n mod 256"
  using assms by (simp_all add: less_mult_imp_div_less)

lemma encode_sized:
  assumes "type \<in> {AT_IDENTITY, AT_VERSION_LIST, AT_RES}" and "length data \<le> 1000" and "type = AT_RES \<longrightarrow> length data < 32"
  shows "\<exists>b c s. encode_attr type data = Inr (Some s) \<and> length s = 4 * padded (length data) \<and>
           s = [char_of type, char_of (padded (length data)), char_of b, char_of c] @ data @ replicate ((4 - length data mod 4) mod 4) NUL \<and>
           b < 256 \<and> c < 256 \<and> (if type = AT_RES then (256 * b + c) div 8 else 256 * b + c) = length data"
proof -
  let ?n = "length data"
  let ?sw = "(?n mod 256) * 256 + ?n div 256 mod 256"
  define len where "len = (if type = AT_RES then ?sw * 8 mod 65536 else ?sw)"
  have e: "encode_attr type data = Inr (Some ([char_of type, char_of (padded ?n), char_of (len mod 256), char_of (len div 256)] @
             data @ replicate ((4 - ?n mod 4) mod 4) NUL))"
    using assms(1) by (elim insertE emptyE) (simp_all only: len_def, simp_all add: encode_attr_def Let_def padded_def)
  have "len mod 256 < 256 \<and> len div 256 < 256 \<and>
      (if type = AT_RES then (256 * (len mod 256) + len div 256) div 8 else 256 * (len mod 256) + len div 256) = ?n"
  proof (cases "type = AT_RES")
    case True
    then have "?n < 32" using assms(3) by simp
    then have "len = ?n * 2048"
      using True by (simp add: len_def)
    then show ?thesis
      using True \<open>?n < 32\<close> by simp
  next
    case False
    then show ?thesis
      using swapped_halves [of ?n] assms(2) by (simp add: len_def)
  qed
  then show ?thesis
    by (intro exI [of _ "len mod 256"] exI [of _ "len div 256"] exI conjI)
      (use padded_length [of ?n] in \<open>simp_all add: e\<close>)
qed

lemma parse_attr_sized:
  assumes "type \<in> {AT_IDENTITY, AT_VERSION_LIST, AT_RES}" and "byte_at inp 0 = type"
  shows "parse_attr encrypted inp =
    (if byte_at inp 1 < 1 \<or> length inp < 4 then Inr None
     else
       let bits = 256 * byte_at inp 2 + byte_at inp 3;
           len = (if type = AT_RES then bits div 8 else bits)
       in if byte_at inp 1 * 4 < len \<or> length inp < len then Inr None
          else if length inp < 4 + len then Inl OutOfBounds
          else Inr (Some (4, take len (drop 4 inp), byte_at inp 1 * 4)))"
  using assms by (elim insertE emptyE; simp add: parse_attr_def Let_def)

lemma parse_encoded:
  assumes "plain_attr (type, data)"
  shows "\<exists>s pos. encode_attr type data = Inr (Some s) \<and> 4 \<le> length s \<and> length s \<le> length data + 8 \<and> byte_at (s @ rest) 0 = type \<and>
           parse_attr False (s @ rest) = Inr (Some (pos, data, length s))"
proof (cases "type \<in> {AT_IDENTITY, AT_VERSION_LIST, AT_RES}")
  case True
  then have len: "length data \<le> 1000" "type = AT_RES \<longrightarrow> length data < 32" "type < 256"
    using assms by (auto simp: plain_attr_def)
  from encode_sized [OF True len(1,2)] obtain b c s where e: "encode_attr type data = Inr (Some s)"
    "length s = 4 * padded (length data)"
    "s = [char_of type, char_of (padded (length data)), char_of b, char_of c] @ data @ replicate ((4 - length data mod 4) mod 4) NUL"
    "b < 256" "c < 256" "(if type = AT_RES then (256 * b + c) div 8 else 256 * b + c) = length data"
    by blast
  have "byte_at (s @ rest) 0 = type" "byte_at (s @ rest) 1 = padded (length data)" "byte_at (s @ rest) 2 = b" "byte_at (s @ rest) 3 = c"
    "take (length data) (drop 4 (s @ rest)) = data" "4 + length data \<le> length (s @ rest)"
    using e(3,4,5) len(3) padded_bounds [OF len(1)] by simp_all
  then have "parse_attr False (s @ rest) = Inr (Some (4, data, length s))"
    using e(2,6) padded_bounds [OF len(1)] by (simp add: parse_attr_sized [OF True] Let_def)
  then show ?thesis
    using e(1,2) len(1) padded_length [of "length data"] padded_bounds [OF len(1)] \<open>byte_at (s @ rest) 0 = type\<close> by auto
next
  case False
  then consider "type \<in> {AT_ANY_ID_REQ, AT_PERMANENT_ID_REQ, AT_FULLAUTH_ID_REQ}" "data = []"
    | "type \<in> {AT_CLIENT_ERROR_CODE, AT_SELECTED_VERSION}" "length data = 2"
    | "type \<in> {AT_NONCE_MT, AT_AUTN}" "length data = 16" | "type = AT_RAND" "length data = 16"
    | "type = AT_AUTS" "length data = 14"
    using assms unfolding plain_attr_def prod.case by blast
  then show ?thesis
  proof cases
    case 1
    then show ?thesis
      by (elim insertE emptyE; simp add: encode_attr_def parse_attr_def Let_def)
  next
    case 2
    then show ?thesis
      by (elim insertE emptyE; simp add: encode_attr_def parse_attr_def Let_def)
  next
    case 3
    then show ?thesis
      by (elim insertE emptyE; simp add: encode_attr_def parse_attr_def Let_def)
  qed (simp_all add: encode_attr_def parse_attr_def Let_def)
qed

subsection \<open>Generated messages are read back\<close>

lemma plain_attr_types: "plain_attr (type, data) \<Longrightarrow> type \<notin> {AT_MAC, AT_IV, AT_ENCR_DATA, AT_PADDING, AT_NOTIFICATION, AT_CHECKCODE}"
  by (auto simp: plain_attr_def)

lemma plain_attr_visible: "plain_attr (type, data) \<Longrightarrow> goes_encrypted type data = Inr False"
  by (auto simp: plain_attr_def goes_encrypted_def)

lemma parse_attributes_encoded:
  assumes "plain_attr (type, data)" and "encode_attr type data = Inr (Some s)" and "\<not> sm_encrypted m"
  shows "parse_attributes off (s @ rest) m =
         parse_attributes (map_option (\<lambda>n. n + length s) off) rest (m\<lparr>sm_attrs := sm_attrs m @ [(type, data)]\<rparr>)"
proof -
  obtain pos where s: "4 \<le> length s" "byte_at (s @ rest) 0 = type" "parse_attr False (s @ rest) = Inr (Some (pos, data, length s))"
    using parse_encoded [OF assms(1), of rest] assms(2) by auto
  have "handle_attr off pos type data m = (True, m\<lparr>sm_attrs := sm_attrs m @ [(type, data)]\<rparr>)"
    using plain_attr_types [OF assms(1)] by (simp add: handle_attr_def add_attribute_def)
  then show ?thesis
    using s assms(3) by (subst parse_attributes.simps) auto
qed

text \<open>Attributes that are sent as they are, and the one that has no rule.\<close>

definition sendable :: "nat \<times> string \<Rightarrow> bool" where
  "sendable a \<longleftrightarrow> plain_attr a \<or> fst a = AT_CHECKCODE"

abbreviation (input) encodable :: "(nat \<times> string) list \<Rightarrow> (nat \<times> string) list" where
  "encodable ats \<equiv> filter (\<lambda>a. fst a \<noteq> AT_CHECKCODE) ats"

lemma put_ok: "put cap out s = Inr out' \<Longrightarrow> out' = out @ s \<and> length out' \<le> cap"
  by (auto simp: put_def split: if_splits)

lemma generate_attr_sendable:
  assumes "sendable (type, data)" and "generate_attr type data (out, encr) = Inr bufs" and "length out \<le> 1024"
  shows "if type = AT_CHECKCODE then bufs = (out, encr)
         else plain_attr (type, data) \<and> (\<exists>s. encode_attr type data = Inr (Some s) \<and> bufs = (out @ s, encr) \<and> length (out @ s) \<le> 1024)"
proof (cases "type = AT_CHECKCODE")
  case True
  then show ?thesis
    using assms(2) by (auto simp: generate_attr_def goes_encrypted_def encode_attr_def split: if_splits)
next
  case False
  then have p: "plain_attr (type, data)"
    using assms(1) by (simp add: sendable_def)
  from parse_encoded [OF p, of "[]"] obtain s where s: "encode_attr type data = Inr (Some s)"
    by auto
  then show ?thesis
    using assms(2) p False by (auto simp: generate_attr_def plain_attr_visible [OF p] bindE_Inr_iff dest!: put_ok)
qed

lemma generated_attrs_parsed:
  assumes "list_all sendable ats" and "generate_attrs ats (out, encr) = Inr (out', encr')" and "length out \<le> 1024"
  shows "encr' = encr \<and> length out' \<le> 1024 \<and> (\<exists>s. out' = out @ s \<and> (\<forall>off rest m. \<not> sm_encrypted m \<longrightarrow>
           parse_attributes off (s @ rest) m =
           parse_attributes (map_option (\<lambda>n. n + length s) off) rest (m\<lparr>sm_attrs := sm_attrs m @ encodable ats\<rparr>)))"
  using assms
proof (induction ats arbitrary: out)
  case Nil
  then show ?case
    by (auto simp: option.map_ident)
next
  case (Cons a ats)
  obtain type data where a: "a = (type, data)"
    by (cases a)
  from Cons.prems obtain bufs where bufs: "generate_attr type data (out, encr) = Inr bufs" "generate_attrs ats bufs = Inr (out', encr')"
    and rest: "list_all sendable ats" and snd: "sendable (type, data)"
    by (auto simp: a bindE_Inr_iff)
  note g = generate_attr_sendable [OF snd bufs(1) Cons.prems(3)]
  show ?case
  proof (cases "type = AT_CHECKCODE")
    case True
    then show ?thesis
      using g Cons.IH [OF rest _ Cons.prems(3)] bufs(2) by (simp add: a)
  next
    case False
    with g obtain s where s: "plain_attr (type, data)" "encode_attr type data = Inr (Some s)" "bufs = (out @ s, encr)" "length (out @ s) \<le> 1024"
      by auto
    from Cons.IH [OF rest _ s(4)] bufs(2) s(3) obtain s' where s': "encr' = encr" "length out' \<le> 1024" "out' = (out @ s) @ s'"
      "\<And>off rest m. \<not> sm_encrypted m \<Longrightarrow> parse_attributes off (s' @ rest) m =
         parse_attributes (map_option (\<lambda>n. n + length s') off) rest (m\<lparr>sm_attrs := sm_attrs m @ encodable ats\<rparr>)"
      by auto
    have "parse_attributes off ((s @ s') @ rest) m =
        parse_attributes (map_option (\<lambda>n. n + length (s @ s')) off) rest (m\<lparr>sm_attrs := sm_attrs m @ encodable (a # ats)\<rparr>)"
      if "\<not> sm_encrypted m" for off rest m
      using parse_attributes_encoded [OF s(1,2) that, of off "s' @ rest"] s'(4) [of "m\<lparr>sm_attrs := sm_attrs m @ [(type, data)]\<rparr>"] that False
      by (simp add: a option.map_comp comp_def add.assoc)
    then show ?thesis
      using s'(1-3) by (intro conjI exI [of _ "s @ s'"]) simp_all
  qed
qed

text \<open>The header of a message of a given length, and the message a parser starts from.\<close>

definition sized_header :: "nat \<Rightarrow> nat \<Rightarrow> nat \<Rightarrow> nat \<Rightarrow> string" where
  "sized_header code identifier subtype n =
     [char_of code, char_of identifier] @ be16 n @ [char_of EAP_AKA, char_of subtype, NUL, NUL]"

definition fresh_msg :: "string \<Rightarrow> smsg_t" where
  "fresh_msg data = \<lparr>sm_hdr = data, sm_attrs = [], sm_encrypted = False, sm_p_bit = True, sm_mac = NoMac, sm_encr = [], sm_iv = []\<rparr>"

lemma fresh_msg_simps [simp]:
  "sm_hdr (fresh_msg s) = s" "sm_attrs (fresh_msg s) = []" "\<not> sm_encrypted (fresh_msg s)" "sm_iv (fresh_msg s) = []" "sm_mac (fresh_msg s) = NoMac"
  by (simp_all add: fresh_msg_def)

lemma length_sized_header [simp]: "length (sized_header code identifier subtype n) = 8"
  by (simp add: sized_header_def be16_def)

lemma set_length_sized: "set_length (sized_header code identifier subtype k @ s) = sized_header code identifier subtype (8 + length s) @ s"
  by (simp add: set_length_def sized_header_def be16_def numeral_2_eq_2)

lemma create_sized:
  assumes "code \<in> {EAP_REQUEST, EAP_RESPONSE}" and "length s \<le> 2000"
  shows "simaka_message_create_data (sized_header code identifier subtype (8 + length s) @ s) =
         Some (fresh_msg (sized_header code identifier subtype (8 + length s) @ s))"
  using assms by (auto simp: simaka_message_create_data_def sized_header_def be16_def fresh_msg_def)

lemma subtype_sized: "subtype < 256 \<Longrightarrow> get_subtype (fresh_msg (sized_header code identifier subtype n @ s)) = subtype"
  by (simp add: get_subtype_def sized_header_def be16_def)

lemma simaka_message_create_eq:
  "simaka_message_create request identifier EAP_AKA subtype =
   Some (fresh_msg (sized_header (if request then EAP_REQUEST else EAP_RESPONSE) identifier subtype 8))"
  using create_sized [of "if request then EAP_REQUEST else EAP_RESPONSE" "[]" "identifier" "subtype"]
  by (auto simp: simaka_message_create_def sized_header_def)

text \<open>The end of a message with a MAC, and what a parser and the verification make of it.\<close>

abbreviation (input) mac_header :: string where
  "mac_header \<equiv> [char_of AT_MAC, CHR 0x05, NUL, NUL]"

lemma generated_mac:
  assumes "generate_mac lib keys sigdata (sized_header code identifier subtype 8 @ b) = Inr s"
    and "\<And>k d. length (lib_mac lib k d) = 16"
  obtains k_encr k_auth tag where "keys = Some (k_encr, k_auth)" "length tag = 16" "length b \<le> 996"
    "s = sized_header code identifier subtype (28 + length b) @ b @ mac_header @ tag"
    "tag = lib_mac lib k_auth ((sized_header code identifier subtype (28 + length b) @ b @ mac_header @ replicate 16 NUL) @ sigdata)"
proof -
  let ?hd = "sized_header code identifier subtype (28 + length b)"
  from assms(1) obtain k_encr k_auth out' where k: "keys = Some (k_encr, k_auth)"
    and out': "put 1024 (sized_header code identifier subtype 8 @ b) (mac_header @ replicate 16 NUL) = Inr out'"
    and s: "s = take (8 + length b + 4) (set_length out') @ lib_mac lib k_auth (set_length out' @ sigdata)"
    by (auto simp: generate_mac_def Let_def bindE_Inr_iff split: option.splits)
  have msg: "set_length out' = ?hd @ b @ mac_header @ replicate 16 NUL" "length b \<le> 996"
    using put_ok [OF out'] set_length_sized [of code "identifier" subtype 8 "b @ mac_header @ replicate 16 NUL"] by auto
  show ?thesis
    by (rule that [OF k _ msg(2) _ refl]) (use s assms(2) in \<open>simp_all add: msg(1)\<close>)
qed

lemma mac_parsed:
  assumes "length tag = 16" and "\<not> sm_encrypted m"
  shows "parse_attributes (Some n) (mac_header @ tag) m = Inr (True, m\<lparr>sm_mac := MacAt (n + 4)\<rparr>)"
  using assms by (simp add: parse_attributes.simps parse_attr_def handle_attr_def Let_def)

lemma mac_checked:
  assumes "tag = lib_mac lib k_auth ((h @ replicate 16 NUL) @ sigdata)" and "length tag = 16"
    and "sm_hdr m = h @ tag" and "sm_mac m = MacAt (length h)"
  shows "check_mac lib (Some (k_encr, k_auth)) sigdata m = Inr True"
  using assms by (simp add: check_mac_def)

lemma parse_fresh:
  assumes "parse_attributes (Some 8) (drop 8 s) (fresh_msg s) = Inr (True, m')" and "sm_iv m' = []"
  shows "parse lib keys (fresh_msg s) = Inr (True, m')"
  using assms by (auto simp: parse_def decrypt_def split: option.splits)

text \<open>
  A message with attributes that can be sent is read back with the attributes that have a rule; with a MAC
  it is the one of the message.
\<close>

lemma generated_message_parsed:
  assumes ats: "list_all sendable ats" and code: "code \<in> {EAP_REQUEST, EAP_RESPONSE}" and sub: "subtype < 256"
    and gen: "generate lib keys rng sigdata (fresh_msg (sized_header code identifier subtype 8)\<lparr>sm_attrs := ats\<rparr>) = Inr (Some s)"
    and mac: "\<And>k d. length (lib_mac lib k d) = 16"
  shows "\<exists>m'. simaka_message_create_data s = Some (fresh_msg s) \<and> parse lib keys' (fresh_msg s) = Inr (True, m') \<and>
           sm_attrs m' = encodable ats \<and> get_subtype m' = subtype \<and> sm_hdr m' = s \<and>
           (subtype \<in> {SIM_CHALLENGE, AKA_CHALLENGE, AKA_REAUTHENTICATION} \<longrightarrow> verify lib keys sigdata m' = Inr True)"
proof -
  let ?h = "sized_header code identifier subtype"
  from gen obtain out encr where g: "generate_attrs ats (?h 8, []) = Inr (out, encr)"
    by (auto simp: generate_def bindE_Inr_iff)
  from generated_attrs_parsed [OF ats g] obtain b where b: "encr = []" "length out \<le> 1024" "out = ?h 8 @ b"
    "\<And>off rest m. \<not> sm_encrypted m \<Longrightarrow> parse_attributes off (b @ rest) m =
       parse_attributes (map_option (\<lambda>n. n + length b) off) rest (m\<lparr>sm_attrs := sm_attrs m @ encodable ats\<rparr>)"
    by auto
  have start: "parse_attributes (Some 8) (b @ rest) (fresh_msg t) =
      parse_attributes (Some (8 + length b)) rest (fresh_msg t\<lparr>sm_attrs := encodable ats\<rparr>)" for rest t
    using b(4) [of "fresh_msg t" "Some 8" rest] by simp
  have subm: "get_subtype (fresh_msg (?h n @ t)\<lparr>sm_attrs := as, sm_mac := r\<rparr>) = subtype" for n t as r
    using subtype_sized [OF sub, of code "identifier" n t] by (simp add: get_subtype_def)
  have sub8: "get_subtype (fresh_msg (?h 8)\<lparr>sm_attrs := ats\<rparr>) = subtype"
    using subtype_sized [OF sub, of code "identifier" 8 "[]"] by (simp add: get_subtype_def)
  show ?thesis
  proof (cases "subtype \<in> {SIM_CHALLENGE, AKA_CHALLENGE, AKA_REAUTHENTICATION}")
    case False
    then have s: "s = ?h (8 + length b) @ b"
      using gen g b(1,3) sub8 by (simp add: generate_def set_length_sized)
    have "parse lib keys' (fresh_msg s) = Inr (True, fresh_msg s\<lparr>sm_attrs := encodable ats, sm_mac := NoMac\<rparr>)"
      by (rule parse_fresh) (use start [of "[]" s] in \<open>simp_all add: s parse_attributes.simps fresh_msg_def\<close>)
    then show ?thesis
      using False create_sized [OF code, of b] b(2,3) subm by (auto simp: s)
  next
    case True
    then have "generate_mac lib keys sigdata (?h 8 @ b) = Inr s"
      using gen g b(1,3) sub8 by (auto simp: generate_def bindE_Inr_iff)
    from generated_mac [OF this mac] obtain k_encr k_auth tag where k: "keys = Some (k_encr, k_auth)"
      and tag: "length tag = 16" "length b \<le> 996" and s: "s = ?h (28 + length b) @ b @ mac_header @ tag"
      and t: "tag = lib_mac lib k_auth ((?h (28 + length b) @ b @ mac_header @ replicate 16 NUL) @ sigdata)"
      by metis
    let ?m' = "fresh_msg s\<lparr>sm_attrs := encodable ats, sm_mac := MacAt (8 + length b + 4)\<rparr>"
    have "parse lib keys' (fresh_msg s) = Inr (True, ?m')"
      by (rule parse_fresh) (use start [of "mac_header @ tag" s] mac_parsed [OF tag(1)] in \<open>simp_all add: s\<close>)
    moreover have "check_mac lib keys sigdata ?m' = Inr True"
      unfolding k by (rule mac_checked [where h = "?h (28 + length b) @ b @ mac_header"]) (use t tag s in simp_all)
    ultimately show ?thesis
      using True create_sized [OF code, of "b @ mac_header @ tag"] tag subm by (auto simp: s verify_def)
  qed
qed

subsection \<open>Short messages are generated\<close>

lemma generate_attr_ok:
  assumes "sendable (type, data)" and "type \<noteq> AT_CHECKCODE \<longrightarrow> length data \<le> 16" and "length out \<le> 900"
  shows "\<exists>out'. generate_attr type data (out, encr) = Inr (out', encr) \<and> length out' \<le> length out + 24"
proof (cases "type = AT_CHECKCODE")
  case True
  then show ?thesis
    using assms(3) by (simp add: generate_attr_def goes_encrypted_def encode_attr_def)
next
  case False
  then have p: "plain_attr (type, data)"
    using assms(1) by (simp add: sendable_def)
  obtain s where s: "encode_attr type data = Inr (Some s)" "length s \<le> length data + 8"
    using parse_encoded [OF p, of "[]"] by auto
  then have "put 1024 out s = Inr (out @ s)"
    using assms(2,3) False by (simp add: put_def)
  then show ?thesis
    using s assms(2) False by (simp add: generate_attr_def plain_attr_visible [OF p])
qed

lemma generate_attrs_ok:
  assumes "list_all sendable ats" and "list_all (\<lambda>(t, d). t \<noteq> AT_CHECKCODE \<longrightarrow> length d \<le> 16) ats"
    and "length out + 24 * length ats \<le> 900"
  shows "\<exists>out'. generate_attrs ats (out, encr) = Inr (out', encr) \<and> length out' \<le> 900"
  using assms
proof (induction ats arbitrary: out)
  case (Cons a ats)
  obtain type data where a: "a = (type, data)"
    by (cases a)
  obtain out1 where out1: "generate_attr type data (out, encr) = Inr (out1, encr)" "length out1 \<le> length out + 24"
    using generate_attr_ok [of type data out encr] Cons.prems by (auto simp: a)
  then show ?case
    using Cons.IH [of out1] Cons.prems by (simp add: a)
qed simp

lemma generate_ok:
  assumes "list_all sendable ats" and "list_all (\<lambda>(t, d). t \<noteq> AT_CHECKCODE \<longrightarrow> length d \<le> 16) ats"
    and "length ats \<le> 30" and "subtype < 256"
    and "subtype \<in> {SIM_CHALLENGE, AKA_CHALLENGE, AKA_REAUTHENTICATION} \<longrightarrow> keys \<noteq> None"
  shows "\<exists>s. generate lib keys rng sigdata (fresh_msg (sized_header code identifier subtype 8)\<lparr>sm_attrs := ats\<rparr>) = Inr (Some s)"
proof -
  obtain out where out: "generate_attrs ats (sized_header code identifier subtype 8, []) = Inr (out, [])" "length out \<le> 900"
    using generate_attrs_ok [OF assms(1,2), of "sized_header code identifier subtype 8" "[]"] assms(3) by auto
  have "get_subtype (fresh_msg (sized_header code identifier subtype 8)\<lparr>sm_attrs := ats\<rparr>) = subtype"
    using subtype_sized [OF assms(4), of code "identifier" 8 "[]"] by (simp add: get_subtype_def)
  moreover have "\<exists>s. generate_mac lib keys sigdata out = Inr s" if "keys \<noteq> None"
    using that out(2) by (auto simp: generate_mac_def put_def Let_def)
  ultimately show ?thesis
    using out(1) assms(5) by (auto simp: generate_def)
qed

subsection \<open>A loop that does not end\<close>

text \<open>An attribute of length zero is read again and again.\<close>

lemma zero_length_diverges:
  assumes "type \<in> {AT_PADDING, AT_ENCR_DATA}" and "2 \<le> length rest"
  shows "parse_attributes off (char_of type # NUL # rest) m = Inl Diverges"
  using assms by (auto simp: parse_attributes.simps parse_attr_def handle_attr_def Let_def)

end
