(* ===== verification/Aka_Server.thy ===== *)
theory Aka_Server
  imports Simaka_Message
begin

text \<open>
  The EAP-AKA server of the ePDG (\<^verbatim>\<open>eap_aka_server.c\<close>) with the derivation of its keys
  (\<^verbatim>\<open>simaka_crypto.c\<close>), over the 3GPP provider as the only provider of the manager. An identity is its encoding.
  Parameters are the cryptographic primitives, which do not fail, and the random bytes.
\<close>

section \<open>State\<close>

text \<open>
  The environment of a call: primitives, keys of the subscribers, the random bytes it gets, and the
  encoding of the identity made of the data of a peer.
\<close>

record aka_env_t =
  en_lib :: crypto_lib_t
  en_crypter :: crypter_t
  en_shared :: "string \<Rightarrow> string option"
  en_rand :: "string option"
  en_iv :: "string option"
  en_nonce :: "string option"
  en_ident :: "string \<Rightarrow> string"

record aka_server_t =
  sv_permanent :: string
  sv_pseudonym :: "string option"
  sv_reauth :: "string option"
  sv_identifier :: "8 word"
  sv_xres :: string
  sv_rand :: string
  sv_msk :: "string option"
  sv_nonce :: string
  sv_counter :: string
  sv_use_reauth :: bool
  sv_use_pseudonym :: bool
  sv_use_permanent :: bool
  sv_pending :: nat
  sv_synchronized :: bool
  sv_id_req :: string
  sv_id_resp :: string
  sv_cc :: string
  sv_keys :: keys_t
  sv_provider :: provider_t

definition eap_aka_server_create :: "string \<Rightarrow> bool \<Rightarrow> 8 word \<Rightarrow> provider_t \<Rightarrow> aka_server_t" where
  "eap_aka_server_create peer request_identity ident provider =
     \<lparr>sv_permanent = peer, sv_pseudonym = None, sv_reauth = None, sv_identifier = ident, sv_xres = [],
      sv_rand = [], sv_msk = None, sv_nonce = [], sv_counter = [], sv_use_reauth = request_identity,
      sv_use_pseudonym = request_identity, sv_use_permanent = request_identity, sv_pending = 0,
      sv_synchronized = False, sv_id_req = [], sv_id_resp = [], sv_cc = [], sv_keys = None, sv_provider = provider\<rparr>"

text \<open>The result of a call: the status, the payload to be sent, and the new state.\<close>

type_synonym aka_result = "(status_t \<times> string option \<times> aka_server_t) cres"

section \<open>Keys\<close>

definition derive_keys_full :: "crypto_lib_t \<Rightarrow> string \<Rightarrow> string \<Rightarrow> keys_t \<times> string" where
  "derive_keys_full lib ident data =
     (let mk = lib_sha1 lib (ident @ data); str = lib_prf lib mk
      in (Some (take 16 str, take 16 (drop 16 str)), take 64 (drop 32 str)))"

definition derive_keys_reauth :: "crypto_lib_t \<Rightarrow> string \<Rightarrow> keys_t" where
  "derive_keys_reauth lib mk =
     (let str = lib_prf lib mk in Some (take 16 str, take 16 (drop 16 str)))"

definition derive_keys_reauth_msk :: "crypto_lib_t \<Rightarrow> string \<Rightarrow> string \<Rightarrow> string \<Rightarrow> string \<Rightarrow> string" where
  "derive_keys_reauth_msk lib ident counter nonce mk = take 64 (lib_prf lib (lib_sha1 lib (ident @ counter @ nonce @ mk)))"

section \<open>Requests\<close>

definition generate_payload :: "aka_env_t \<Rightarrow> keys_t \<Rightarrow> smsg_t \<Rightarrow> string option cres" where
  "generate_payload env keys m = generate (en_lib env) keys (en_iv env) [] m"

definition request :: "nat \<Rightarrow> nat \<Rightarrow> (nat \<times> string) list \<Rightarrow> smsg_t cres" where
  "request ident subtype ats =
     (case simaka_message_create True ident EAP_AKA subtype of
        None \<Rightarrow> Inl NullDeref
      | Some m \<Rightarrow> Inr (fold (\<lambda>(type, data). add_attribute type data) ats m))"

definition identity :: "aka_env_t \<Rightarrow> aka_server_t \<Rightarrow> aka_result" where
  "identity env s =
     (let s1 = s\<lparr>sv_identifier := sv_identifier s + 1, sv_use_pseudonym := True\<rparr>;
          ats = (if sv_use_reauth s1 then [(AT_ANY_ID_REQ, [])]
                 else if sv_use_pseudonym s1 then [(AT_FULLAUTH_ID_REQ, [])]
                 else if sv_use_permanent s1 then [(AT_PERMANENT_ID_REQ, [])] else [])
      in bindE (request (unat (sv_identifier s)) AKA_IDENTITY ats) (\<lambda>m.
         bindE (generate_payload env (sv_keys s1) m) (\<lambda>r.
           case r of
             None \<Rightarrow> Inr (FAILED, None, s1)
           | Some data \<Rightarrow> Inr (NEED_MORE, Some data, s1\<lparr>sv_id_req := data, sv_pending := AKA_IDENTITY\<rparr>))))"

definition challenge :: "aka_env_t \<Rightarrow> aka_server_t \<Rightarrow> aka_result" where
  "challenge env s =
     (case provider_get_quintuplet (en_crypter env) (en_shared env) (en_rand env) (sv_permanent s) (sv_provider s) of
        (None, p) \<Rightarrow>
          let s1 = s\<lparr>sv_provider := p, sv_use_pseudonym := True\<rparr>
          in if sv_use_pseudonym s1
             then identity env (s1\<lparr>sv_use_pseudonym := False, sv_pseudonym := None\<rparr>)
             else Inr (FAILED, None, s1)
      | (Some q, p) \<Rightarrow>
          let ident = (case sv_pseudonym s of None \<Rightarrow> sv_permanent s | Some i \<Rightarrow> i);
              keys = derive_keys_full (en_lib env) ident (qt_ik q @ qt_ck q);
              s1 = s\<lparr>sv_provider := p, sv_keys := fst keys, sv_msk := Some (snd keys), sv_rand := qt_rand q, sv_xres := qt_xres q\<rparr>
          in bindE (request 0 AKA_CHALLENGE [(AT_RAND, sv_rand s1), (AT_AUTN, qt_autn q), (AT_CHECKCODE, sv_cc s1)]) (\<lambda>m.
             bindE (generate_payload env (sv_keys s1) m) (\<lambda>r.
               case r of
                 None \<Rightarrow> Inr (FAILED, None, s1)
               | Some data \<Rightarrow> Inr (NEED_MORE, Some data, s1\<lparr>sv_pending := AKA_CHALLENGE\<rparr>))))"

text \<open>The master key and the counter are missing when they were never assigned.\<close>

definition reauthenticate :: "aka_env_t \<Rightarrow> (string \<times> nat) option \<Rightarrow> aka_server_t \<Rightarrow> aka_result" where
  "reauthenticate env mkc s =
     (case en_nonce env of
        None \<Rightarrow> Inr (FAILED, None, s)
      | Some nonce \<Rightarrow>
          (case mkc of
             None \<Rightarrow> Inl UninitRead
           | Some (mk, counter) \<Rightarrow>
               let s1 = s\<lparr>sv_nonce := nonce, sv_counter := be16 counter\<rparr>;
                   ident = (case sv_reauth s of None \<Rightarrow> [] | Some i \<Rightarrow> i);
                   s2 = s1\<lparr>sv_keys := derive_keys_reauth (en_lib env) mk,
                           sv_msk := Some (derive_keys_reauth_msk (en_lib env) ident (be16 counter) nonce mk),
                           sv_identifier := sv_identifier s + 1\<rparr>
               in bindE (request (unat (sv_identifier s)) AKA_REAUTHENTICATION
                           [(AT_COUNTER, sv_counter s2), (AT_NONCE_S, sv_nonce s2)]) (\<lambda>m.
                  bindE (generate_payload env (sv_keys s2) m) (\<lambda>r.
                    case r of
                      None \<Rightarrow> Inr (FAILED, None, s2)
                    | Some data \<Rightarrow> Inr (NEED_MORE, Some data, s2\<lparr>sv_pending := AKA_REAUTHENTICATION\<rparr>)))))"

definition initiate :: "aka_env_t \<Rightarrow> aka_server_t \<Rightarrow> aka_result" where
  "initiate env s =
     (if sv_use_permanent s \<or> sv_use_pseudonym s \<or> sv_use_reauth s then identity env s else challenge env s)"

section \<open>Responses\<close>

text \<open>
  The loops over the attributes: all must be known or skippable, and the last one of a type counts.
\<close>

definition attrs_known :: "nat list \<Rightarrow> (nat \<times> string) list \<Rightarrow> bool" where
  "attrs_known known ats = list_all (\<lambda>(type, data). type \<in> set known \<or> simaka_attribute_skippable type) ats"

definition last_attr :: "nat \<Rightarrow> (nat \<times> string) list \<Rightarrow> string" where
  "last_attr type ats = (case filter (\<lambda>(t, _). t = type) ats of [] \<Rightarrow> [] | xs \<Rightarrow> snd (last xs))"

text \<open>The identity that replaces the one of the peer, and the mapping of the 3GPP provider.\<close>

definition fixed_identity :: string where
  "fixed_identity = ''0310210123456787@nai.epc.mnc210.mcc310.3gppnetwork.org''"

definition provider_is_reauth :: "string \<Rightarrow> (string \<times> nat) option" where
  "provider_is_reauth ident = None"

definition process_identity :: "aka_env_t \<Rightarrow> smsg_t \<Rightarrow> aka_server_t \<Rightarrow> aka_result" where
  "process_identity env m s =
     (if sv_pending s \<noteq> AKA_IDENTITY then Inr (FAILED, None, s)
      else
        let s1 = s\<lparr>sv_cc := lib_sha256 (en_lib env) (sv_id_req s @ sv_id_resp s)\<rparr>;
            data = last_attr AT_IDENTITY (sm_attrs m); ident = en_ident env data
        in if \<not> attrs_known [AT_IDENTITY] (sm_attrs m) then Inr (FAILED, None, s1)
           else if data = [] then Inr (FAILED, None, s1)
           else if sv_use_reauth s1 then
             reauthenticate env (provider_is_reauth ident) (s1\<lparr>sv_permanent := fixed_identity, sv_reauth := Some ident\<rparr>)
           else
             let s2 = (if sv_use_pseudonym s1
                       then s1\<lparr>sv_permanent := fixed_identity, sv_pseudonym := Some ident, sv_use_permanent := False\<rparr>
                       else s1);
                 s3 = (if sv_pseudonym s2 = None \<and> sv_use_permanent s2 then s2\<lparr>sv_permanent := ident\<rparr> else s2)
             in challenge env s3)"

definition process_challenge :: "aka_env_t \<Rightarrow> smsg_t \<Rightarrow> aka_server_t \<Rightarrow> aka_result" where
  "process_challenge env m s =
     (if sv_pending s \<noteq> AKA_CHALLENGE then Inr (FAILED, None, s)
      else
        bindE (verify (en_lib env) (sv_keys s) [] m) (\<lambda>ok.
          Inr (if \<not> ok \<or> \<not> attrs_known [AT_RES] (sm_attrs m) \<or> last_attr AT_RES (sm_attrs m) \<noteq> sv_xres s
               then FAILED else SUCCESS, None, s)))"

definition process_reauthentication :: "aka_env_t \<Rightarrow> smsg_t \<Rightarrow> aka_server_t \<Rightarrow> aka_result" where
  "process_reauthentication env m s =
     (if sv_pending s \<noteq> AKA_REAUTHENTICATION then Inr (FAILED, None, s)
      else
        bindE (verify (en_lib env) (sv_keys s) (sv_nonce s) m) (\<lambda>ok.
          if \<not> ok \<or> \<not> attrs_known [AT_COUNTER, AT_COUNTER_TOO_SMALL] (sm_attrs m) then Inr (FAILED, None, s)
          else if AT_COUNTER_TOO_SMALL \<in> set (map fst (sm_attrs m))
          then challenge env (s\<lparr>sv_use_reauth := False, sv_keys := None\<rparr>)
          else Inr (if last_attr AT_COUNTER (sm_attrs m) \<noteq> sv_counter s then FAILED else SUCCESS, None, s)))"

text \<open>The random bytes are those of the last challenge, or NULL when none was sent.\<close>

definition process_synchronize :: "aka_env_t \<Rightarrow> smsg_t \<Rightarrow> aka_server_t \<Rightarrow> aka_result" where
  "process_synchronize env m s =
     (if sv_synchronized s then Inr (FAILED, None, s)
      else if \<not> attrs_known [AT_AUTS] (sm_attrs m) then Inr (FAILED, None, s)
      else
        let auts = last_attr AT_AUTS (sm_attrs m)
        in if auts = [] then Inr (FAILED, None, s)
           else if eap_aka_3gpp_get_k_opc (en_shared env) (sv_permanent s) \<noteq> None \<and> sv_rand s = [] then Inl NullDeref
           else
             (case provider_resync (en_crypter env) (en_shared env) (sv_permanent s) (sv_rand s) auts (sv_provider s) of
                (False, p) \<Rightarrow> Inr (FAILED, None, s\<lparr>sv_provider := p\<rparr>)
              | (True, p) \<Rightarrow> challenge env (s\<lparr>sv_provider := p, sv_synchronized := True\<rparr>)))"

definition process_client_error :: "smsg_t \<Rightarrow> aka_server_t \<Rightarrow> aka_result" where
  "process_client_error m s = Inr (FAILED, None, s)"

definition process_authentication_reject :: "smsg_t \<Rightarrow> aka_server_t \<Rightarrow> aka_result" where
  "process_authentication_reject m s = Inr (FAILED, None, s)"

definition aka_process :: "aka_env_t \<Rightarrow> string \<Rightarrow> aka_server_t \<Rightarrow> aka_result" where
  "aka_process env data s =
     (case simaka_message_create_data data of
        None \<Rightarrow> Inr (FAILED, None, s)
      | Some m0 \<Rightarrow>
          bindE (parse (en_lib env) (sv_keys s) m0) (\<lambda>(ok, m).
            if \<not> ok then Inr (FAILED, None, s)
            else if get_subtype m = AKA_IDENTITY then process_identity env m (s\<lparr>sv_id_resp := data\<rparr>)
            else if get_subtype m = AKA_CHALLENGE then process_challenge env m s
            else if get_subtype m = AKA_REAUTHENTICATION then process_reauthentication env m s
            else if get_subtype m = AKA_SYNCHRONIZATION_FAILURE then process_synchronize env m s
            else if get_subtype m = AKA_CLIENT_ERROR then process_client_error m s
            else if get_subtype m = AKA_AUTHENTICATION_REJECT then process_authentication_reject m s
            else Inr (FAILED, None, s)))"

definition get_msk :: "aka_server_t \<Rightarrow> status_t \<times> string option" where
  "get_msk s = (case sv_msk s of None \<Rightarrow> (FAILED, None) | Some k \<Rightarrow> (SUCCESS, Some k))"

definition get_identifier :: "aka_server_t \<Rightarrow> 8 word" where
  "get_identifier s = sv_identifier s"

definition set_identifier :: "8 word \<Rightarrow> aka_server_t \<Rightarrow> aka_server_t" where
  "set_identifier ident s = s\<lparr>sv_identifier := ident\<rparr>"

end
