(* ===== verification/Aka_Properties.thy ===== *)
theory Aka_Properties
  imports Aka_Server
begin

text \<open>
  What the EAP-AKA server and the AKA functions do together with a card that has the same key: agreement
  on the keys, resynchronisation, a full authentication; and what the changes for the tests lead to.
\<close>

section \<open>Requests of the server\<close>

lemma fold_add_attribute: "fold (\<lambda>(type, data). add_attribute type data) ats m = m\<lparr>sm_attrs := sm_attrs m @ ats\<rparr>"
  by (induction ats arbitrary: m) (auto simp: add_attribute_def)

lemma request_eq: "request ident subtype ats = Inr (fresh_msg (sized_header EAP_REQUEST ident subtype 8)\<lparr>sm_attrs := ats\<rparr>)"
  by (simp add: request_def simaka_message_create_eq fold_add_attribute)

definition identity_attr :: "aka_server_t \<Rightarrow> nat" where
  "identity_attr s = (if sv_use_reauth s then AT_ANY_ID_REQ else AT_FULLAUTH_ID_REQ)"

lemma identity_sends:
  "\<exists>data. identity env s = Inr (NEED_MORE, Some data, s\<lparr>sv_identifier := sv_identifier s + 1, sv_use_pseudonym := True,
            sv_id_req := data, sv_pending := AKA_IDENTITY\<rparr>) \<and>
          generate_payload env (sv_keys s) (fresh_msg (sized_header EAP_REQUEST (unat (sv_identifier s)) AKA_IDENTITY 8)\<lparr>sm_attrs := [(identity_attr s, [])]\<rparr>) = Inr (Some data)"
proof -
  have "list_all sendable [(identity_attr s, [])]"
    by (simp add: sendable_def plain_attr_def identity_attr_def)
  then obtain data where "generate_payload env (sv_keys s) (fresh_msg (sized_header EAP_REQUEST (unat (sv_identifier s)) AKA_IDENTITY 8)\<lparr>sm_attrs := [(identity_attr s, [])]\<rparr>) = Inr (Some data)"
    using generate_ok [of "[(identity_attr s, [])]" AKA_IDENTITY "sv_keys s" "en_lib env" "en_iv env" "[]"]
    by (auto simp: generate_payload_def)
  then show ?thesis
    by (auto simp: identity_def Let_def request_eq identity_attr_def split: if_splits)
qed

text \<open>The attributes of a challenge and the state after it.\<close>

definition challenged :: "aka_env_t \<Rightarrow> quintuplet_t \<Rightarrow> provider_t \<Rightarrow> aka_server_t \<Rightarrow> aka_server_t" where
  "challenged env q p s =
     (let ident = (case sv_pseudonym s of None \<Rightarrow> sv_permanent s | Some i \<Rightarrow> i);
          keys = derive_keys_full (en_lib env) ident (qt_ik q @ qt_ck q)
      in s\<lparr>sv_provider := p, sv_keys := fst keys, sv_msk := Some (snd keys), sv_rand := qt_rand q, sv_xres := qt_xres q,
           sv_pending := AKA_CHALLENGE\<rparr>)"

lemma quintuplet_lengths:
  assumes "block_cipher crypter" and "provider_get_quintuplet crypter get_shared rng ident p = (Some q, p')"
    and "length (pv_sqn p) = 6"
  shows "length (qt_rand q) = 16" "length (qt_autn q) = 16" "length (qt_xres q) = 8" "length (pv_sqn p') = 6"
proof -
  obtain k opc maca ak where k: "eap_aka_3gpp_get_k_opc get_shared ident = Some (k, opc)" "length maca = 8"
    "f2345 crypter k opc (qt_rand q) = Some (qt_xres q, qt_ck q, qt_ik q, ak)" "length ak = 6"
    "qt_autn q = memxor (pv_sqn p) ak 6 @ AKA_AMF @ maca" "qt_rand q = replicate 16 NUL"
    "p' = p\<lparr>pv_sqn := chunk_increment (pv_sqn p)\<rparr>"
    by (rule provider_quintuplet [OF assms])
  then show "length (qt_rand q) = 16" "length (qt_autn q) = 16" "length (pv_sqn p') = 6"
    using assms(3) by (simp_all add: AKA_AMF_def)
  show "length (qt_xres q) = 8"
    using f2345_ok [OF assms(1), of k opc "qt_rand q"] get_k_opc_lengths [OF k(1)] k(3,6) by auto
qed

lemma challenge_sends:
  assumes "block_cipher (en_crypter env)" and "length (pv_sqn (sv_provider s)) = 6"
    and "\<And>k d. length (lib_mac (en_lib env) k d) = 16"
    and q: "provider_get_quintuplet (en_crypter env) (en_shared env) (en_rand env) (sv_permanent s) (sv_provider s) = (Some q, p)"
  shows "\<exists>data m. challenge env s = Inr (NEED_MORE, Some data, challenged env q p s) \<and>
           simaka_message_create_data data = Some (fresh_msg data) \<and>
           parse (en_lib env) keys' (fresh_msg data) = Inr (True, m) \<and> sm_attrs m = [(AT_RAND, qt_rand q), (AT_AUTN, qt_autn q)] \<and>
           verify (en_lib env) (sv_keys (challenged env q p s)) [] m = Inr True"
proof -
  let ?ats = "[(AT_RAND, qt_rand q), (AT_AUTN, qt_autn q), (AT_CHECKCODE, sv_cc s)]"
  let ?keys = "sv_keys (challenged env q p s)"
  note l = quintuplet_lengths [OF assms(1) q assms(2)]
  have ats: "list_all sendable ?ats" "list_all (\<lambda>(t, d). t \<noteq> AT_CHECKCODE \<longrightarrow> length d \<le> 16) ?ats"
    using l by (simp_all add: sendable_def plain_attr_def)
  have keys: "?keys \<noteq> None"
    by (simp add: challenged_def derive_keys_full_def Let_def)
  obtain data where data: "generate (en_lib env) ?keys (en_iv env) [] (fresh_msg (sized_header EAP_REQUEST 0 AKA_CHALLENGE 8)\<lparr>sm_attrs := ?ats\<rparr>) = Inr (Some data)"
    using generate_ok [OF ats, of AKA_CHALLENGE ?keys "en_lib env" "en_iv env" "[]" EAP_REQUEST 0] keys by auto
  have "challenge env s = Inr (NEED_MORE, Some data, challenged env q p s)"
    using q data by (simp add: challenge_def Let_def request_eq generate_payload_def challenged_def)
  then show ?thesis
    using generated_message_parsed [OF ats(1) _ _ data assms(3)] by auto
qed

text \<open>With a key for the identity there is an authentication vector.\<close>

lemma quintuplet_exists:
  assumes "block_cipher crypter" and "eap_aka_3gpp_get_k_opc get_shared ident \<noteq> None" and "rng \<noteq> None"
    and "length (pv_sqn p) = 6"
  shows "\<exists>q p'. provider_get_quintuplet crypter get_shared rng ident p = (Some q, p')"
proof -
  from assms(2) obtain k opc where k: "eap_aka_3gpp_get_k_opc get_shared ident = Some (k, opc)"
    by auto
  from get_k_opc_lengths [OF k] have l: "length k = 16" "length opc = 16" "length (replicate 16 NUL) = 16"
    by simp_all
  obtain maca where "f1 crypter k opc (replicate 16 NUL) (pv_sqn p) AKA_AMF = Some maca"
    using f1andf1star_ok [OF assms(1) l assms(4), of AKA_AMF] by (auto simp: f1_def AKA_AMF_def)
  moreover obtain res ck ik ak where "f2345 crypter k opc (replicate 16 NUL) = Some (res, ck, ik, ak)"
    using f2345_ok [OF assms(1) l] by auto
  ultimately show ?thesis
    using assms(3) k by (auto simp: provider_get_quintuplet_def)
qed

section \<open>Examples\<close>

text \<open>Primitives that are easy to compute, a subscriber and an answer with an identity.\<close>

definition example_cipher :: crypter_t where
  "example_cipher k d = Some d"

definition example_lib :: crypto_lib_t where
  "example_lib =
     \<lparr>lib_mac = (\<lambda>k d. replicate 16 (CHR ''m'')), lib_encrypt = (\<lambda>k iv d. Some d), lib_decrypt = (\<lambda>k iv d. Some d),
      lib_sha1 = (\<lambda>d. take 20 (d @ replicate 20 NUL)), lib_sha256 = (\<lambda>d. take 32 (d @ replicate 32 NUL)),
      lib_prf = (\<lambda>k. replicate 120 (CHR ''p''))\<rparr>"

definition example_keys :: "string \<Rightarrow> string option" where
  "example_keys ident = (if ident = ''peer'' then Some (replicate 16 (CHR ''k'')) else None)"

definition example_env :: "(string \<Rightarrow> string option) \<Rightarrow> aka_env_t" where
  "example_env get_shared =
     \<lparr>en_lib = example_lib, en_crypter = example_cipher, en_shared = get_shared, en_rand = Some (replicate 16 (CHR ''r'')),
      en_iv = Some (replicate 16 (CHR ''i'')), en_nonce = Some (replicate 16 (CHR ''n'')), en_ident = id\<rparr>"

definition example_answer :: string where
  "example_answer = sized_header EAP_RESPONSE 1 AKA_IDENTITY 16 @ [char_of AT_IDENTITY, CHR 0x02, NUL, CHR 0x04] @ ''user''"

lemma example_cipher_blocks: "block_cipher example_cipher"
  by (simp add: block_cipher_def example_cipher_def)

lemma example_env_simps [simp]:
  "en_lib (example_env g) = example_lib" "en_crypter (example_env g) = example_cipher" "en_shared (example_env g) = g"
  "en_rand (example_env g) \<noteq> None" "en_nonce (example_env g) \<noteq> None" "length (lib_mac example_lib k d) = 16"
  by (simp_all add: example_env_def example_lib_def)

lemma example_key: "eap_aka_3gpp_get_k_opc example_keys ''peer'' \<noteq> None"
  by (simp add: eap_aka_3gpp_get_k_opc_def example_keys_def)

section \<open>Agreement\<close>

text \<open>The card accepts a vector: the status and the keys it computes are those of the provider.\<close>

definition accepts :: "crypter_t \<Rightarrow> (string \<Rightarrow> string option) \<Rightarrow> string \<Rightarrow> quintuplet_t \<Rightarrow> card_t \<Rightarrow> bool" where
  "accepts crypter get_shared ident q usim =
     (case card_get_quintuplet crypter get_shared ident (qt_rand q) (qt_autn q) usim of
        (st, keys, usim') \<Rightarrow> st = SUCCESS \<and> keys = Some (qt_ck q, qt_ik q, qt_xres q))"

text \<open>
  C13: A card with the key of the subscriber either accepts the vector of the provider, with the same RES,
  CK and IK, or asks for a resynchronisation because its sequence number is not smaller. Then the provider
  accepts the token of the card, and the card accepts the next vector, unless its number is the largest one.
\<close>

theorem resynchronised_vector_accepted:
  assumes "block_cipher crypter" and "eap_aka_3gpp_get_k_opc get_shared ident \<noteq> None" and "rng \<noteq> None"
    and "length (pv_sqn p) = 6" and "length (cd_sqn usim) = 6" and "be_value (cd_sqn usim) + 1 < 256 ^ 6"
  shows "\<exists>q p1. provider_get_quintuplet crypter get_shared rng ident p = (Some q, p1) \<and>
    (accepts crypter get_shared ident q usim \<or>
     be_value (pv_sqn p) \<le> be_value (cd_sqn usim) \<and>
     card_get_quintuplet crypter get_shared ident (qt_rand q) (qt_autn q) usim = (INVALID_STATE, None, usim) \<and>
     (\<exists>auts p2 q' p3. card_resync crypter get_shared ident (qt_rand q) usim = Some auts \<and>
        provider_resync crypter get_shared ident (qt_rand q) auts p1 = (True, p2) \<and>
        provider_get_quintuplet crypter get_shared rng ident p2 = (Some q', p3) \<and>
        accepts crypter get_shared ident q' usim))"
proof -
  obtain q p1 where q: "provider_get_quintuplet crypter get_shared rng ident p = (Some q, p1)"
    using quintuplet_exists [OF assms(1-4)] by blast
  note l = quintuplet_lengths [OF assms(1) q assms(4)]
  show ?thesis
  proof (cases "cd_seq_check usim \<and> \<not> memcmp_less (cd_sqn usim) (pv_sqn p)")
    case False
    then have "accepts crypter get_shared ident q usim"
      using card_answers [OF assms(1) q assms(4), of usim] by (auto simp: accepts_def)
    then show ?thesis
      using q by blast
  next
    case True
    obtain auts where auts: "card_resync crypter get_shared ident (qt_rand q) usim = Some auts"
      using card_resync_ok [OF assms(1,2) l(1) assms(5)] by blast
    let ?p2 = "p1\<lparr>pv_sqn := chunk_increment (cd_sqn usim)\<rparr>"
    have p2: "length (pv_sqn ?p2) = 6"
      using assms(5) by simp
    obtain q' p3 where q': "provider_get_quintuplet crypter get_shared rng ident ?p2 = (Some q', p3)"
      using quintuplet_exists [OF assms(1-3) p2] by blast
    have "memcmp_less (cd_sqn usim) (pv_sqn ?p2)"
      using assms(5,6) by (simp add: memcmp_less_value chunk_increment_value)
    then have "accepts crypter get_shared ident q' usim"
      using card_answers [OF assms(1) q' p2, of usim] by (simp add: accepts_def)
    then show ?thesis
      using q q' auts provider_resyncs [OF assms(1) auts l(1) assms(5), of p1] True
        card_answers [OF assms(1) q assms(4), of usim] memcmp_less_value [of "cd_sqn usim" "pv_sqn p"] assms(4,5)
      by auto
  qed
qed

definition example_card :: card_t where
  "example_card = \<lparr>cd_seq_check = True, cd_sqn = [NUL, NUL, NUL, NUL, NUL, CHR 0x07]\<rparr>"

theorem resynchronised_vector_accepted_witness:
  "block_cipher example_cipher \<and> eap_aka_3gpp_get_k_opc example_keys ''peer'' \<noteq> None \<and>
   length (pv_sqn (eap_aka_3gpp_provider_create 0)) = 6 \<and> length (cd_sqn example_card) = 6 \<and> be_value (cd_sqn example_card) + 1 < 256 ^ 6 \<and>
   (\<exists>q p1. provider_get_quintuplet example_cipher example_keys (Some []) ''peer'' (eap_aka_3gpp_provider_create 0) = (Some q, p1) \<and>
    (accepts example_cipher example_keys ''peer'' q example_card \<or>
     be_value (pv_sqn (eap_aka_3gpp_provider_create 0)) \<le> be_value (cd_sqn example_card) \<and>
     card_get_quintuplet example_cipher example_keys ''peer'' (qt_rand q) (qt_autn q) example_card = (INVALID_STATE, None, example_card) \<and>
     (\<exists>auts p2 q' p3. card_resync example_cipher example_keys ''peer'' (qt_rand q) example_card = Some auts \<and>
        provider_resync example_cipher example_keys ''peer'' (qt_rand q) auts p1 = (True, p2) \<and>
        provider_get_quintuplet example_cipher example_keys (Some []) ''peer'' p2 = (Some q', p3) \<and>
        accepts example_cipher example_keys ''peer'' q' example_card)))"
proof -
  have l: "length (pv_sqn (eap_aka_3gpp_provider_create 0)) = 6" "length (cd_sqn example_card) = 6" "be_value (cd_sqn example_card) + 1 < 256 ^ 6"
    by (simp_all add: eap_aka_3gpp_provider_create_def eap_aka_3gpp_get_sqn_def example_card_def be_value_def)
  show ?thesis
    using example_cipher_blocks example_key l resynchronised_vector_accepted [OF example_cipher_blocks example_key _ l, of "Some []"] by simp
qed

section \<open>A full authentication\<close>

lemma last_attr_simps [simp]:
  "last_attr type [(type, data)] = data" "type \<noteq> t \<Longrightarrow> last_attr type ((t, d) # ats) = last_attr type ats"
  by (simp_all add: last_attr_def)

text \<open>The answer of a peer to a challenge: a response with RES under the keys it derived.\<close>

definition challenge_response :: "aka_env_t \<Rightarrow> keys_t \<Rightarrow> nat \<Rightarrow> string \<Rightarrow> string option cres" where
  "challenge_response env keys ident res =
     (case simaka_message_create False ident EAP_AKA AKA_CHALLENGE of
        None \<Rightarrow> Inr None
      | Some m \<Rightarrow> generate_payload env keys (add_attribute AT_RES res m))"

lemma challenge_response_accepted:
  assumes "sv_pending s = AKA_CHALLENGE" and "sv_keys s \<noteq> None" and "length (sv_xres s) = 8"
    and "\<And>k d. length (lib_mac (en_lib env) k d) = 16"
  shows "\<exists>resp. challenge_response env (sv_keys s) ident (sv_xres s) = Inr (Some resp) \<and> aka_process env resp s = Inr (SUCCESS, None, s)"
proof -
  let ?ats = "[(AT_RES, sv_xres s)]"
  have ats: "list_all sendable ?ats" "list_all (\<lambda>(t, d). t \<noteq> AT_CHECKCODE \<longrightarrow> length d \<le> 16) ?ats"
    using assms(3) by (simp_all add: sendable_def plain_attr_def)
  obtain resp where resp: "generate (en_lib env) (sv_keys s) (en_iv env) [] (fresh_msg (sized_header EAP_RESPONSE ident AKA_CHALLENGE 8)\<lparr>sm_attrs := ?ats\<rparr>) = Inr (Some resp)"
    using generate_ok [OF ats, of AKA_CHALLENGE "sv_keys s" "en_lib env" "en_iv env" "[]" EAP_RESPONSE ident] assms(2) by auto
  then have "challenge_response env (sv_keys s) ident (sv_xres s) = Inr (Some resp)"
    by (simp add: challenge_response_def simaka_message_create_eq add_attribute_def generate_payload_def)
  moreover obtain m where m: "simaka_message_create_data resp = Some (fresh_msg resp)"
    "parse (en_lib env) (sv_keys s) (fresh_msg resp) = Inr (True, m)" "sm_attrs m = ?ats" "get_subtype m = AKA_CHALLENGE"
    "verify (en_lib env) (sv_keys s) [] m = Inr True"
    using generated_message_parsed [OF ats(1) _ _ resp assms(4), of "sv_keys s"] by auto
  moreover have "attrs_known [AT_RES] ?ats"
    by (simp add: attrs_known_def)
  ultimately show ?thesis
    using assms(1) by (simp add: aka_process_def process_challenge_def)
qed

text \<open>
  C7: With identities not requested, a subscriber with a key and a card that accepts the sequence number,
  the authentication succeeds: the server sends a challenge whose MAC is right under the keys that the peer
  derives from the answer of the card, and the response with the RES of the card is accepted.
\<close>

theorem authentication_succeeds:
  assumes "block_cipher (en_crypter env)" and "\<And>k d. length (lib_mac (en_lib env) k d) = 16"
    and "s = eap_aka_server_create peer False ident0 p" and "length (pv_sqn p) = 6"
    and "eap_aka_3gpp_get_k_opc (en_shared env) peer \<noteq> None" and "en_rand env \<noteq> None"
    and "cd_seq_check usim \<longrightarrow> memcmp_less (cd_sqn usim) (pv_sqn p)"
  shows "\<exists>data s1 m ck ik res usim' keys resp. initiate env s = Inr (NEED_MORE, Some data, s1) \<and>
    simaka_message_create_data data = Some (fresh_msg data) \<and> parse (en_lib env) None (fresh_msg data) = Inr (True, m) \<and>
    card_get_quintuplet (en_crypter env) (en_shared env) peer (last_attr AT_RAND (sm_attrs m)) (last_attr AT_AUTN (sm_attrs m)) usim =
      (SUCCESS, Some (ck, ik, res), usim') \<and>
    keys = fst (derive_keys_full (en_lib env) peer (ik @ ck)) \<and> verify (en_lib env) keys [] m = Inr True \<and>
    challenge_response env keys rid res = Inr (Some resp) \<and> aka_process env resp s1 = Inr (SUCCESS, None, s1)"
proof -
  have s: "sv_permanent s = peer" "sv_pseudonym s = None" "sv_provider s = p" "initiate env s = challenge env s"
    by (simp_all add: assms(3) eap_aka_server_create_def initiate_def)
  obtain q p' where q: "provider_get_quintuplet (en_crypter env) (en_shared env) (en_rand env) peer p = (Some q, p')"
    using quintuplet_exists [OF assms(1,5,6,4)] by blast
  let ?s1 = "challenged env q p' s"
  let ?keys = "fst (derive_keys_full (en_lib env) peer (qt_ik q @ qt_ck q))"
  have s1: "sv_pending ?s1 = AKA_CHALLENGE" "sv_keys ?s1 = ?keys" "sv_xres ?s1 = qt_xres q" "?keys \<noteq> None"
    by (simp_all add: challenged_def Let_def s derive_keys_full_def)
  obtain data m where data: "challenge env s = Inr (NEED_MORE, Some data, ?s1)"
    "simaka_message_create_data data = Some (fresh_msg data)" "parse (en_lib env) None (fresh_msg data) = Inr (True, m)"
    "sm_attrs m = [(AT_RAND, qt_rand q), (AT_AUTN, qt_autn q)]" "verify (en_lib env) ?keys [] m = Inr True"
    using challenge_sends [OF assms(1) _ assms(2), of s q p' None] q assms(4) s s1(2) by auto
  obtain resp where "challenge_response env ?keys rid (qt_xres q) = Inr (Some resp)" "aka_process env resp ?s1 = Inr (SUCCESS, None, ?s1)"
    using challenge_response_accepted [OF s1(1) _ _ assms(2), of rid] s1 quintuplet_lengths(3) [OF assms(1) q assms(4)] by auto
  moreover have "card_get_quintuplet (en_crypter env) (en_shared env) peer (last_attr AT_RAND (sm_attrs m)) (last_attr AT_AUTN (sm_attrs m)) usim =
      (SUCCESS, Some (qt_ck q, qt_ik q, qt_xres q), usim\<lparr>cd_sqn := pv_sqn p\<rparr>)"
    using card_answers [OF assms(1) q assms(4), of usim] assms(7) by (auto simp: data(4) last_attr_def)
  ultimately show ?thesis
    using data s(4) by auto
qed

theorem authentication_succeeds_witness:
  "\<exists>data s1 m ck ik res usim' keys resp.
     initiate (example_env example_keys) (eap_aka_server_create ''peer'' False 1 \<lparr>pv_sqn = ''sqn009''\<rparr>) = Inr (NEED_MORE, Some data, s1) \<and>
     simaka_message_create_data data = Some (fresh_msg data) \<and> parse example_lib None (fresh_msg data) = Inr (True, m) \<and>
     card_get_quintuplet example_cipher example_keys ''peer'' (last_attr AT_RAND (sm_attrs m)) (last_attr AT_AUTN (sm_attrs m)) example_card =
       (SUCCESS, Some (ck, ik, res), usim') \<and>
     keys = fst (derive_keys_full example_lib ''peer'' (ik @ ck)) \<and> verify example_lib keys [] m = Inr True \<and>
     challenge_response (example_env example_keys) keys 1 res = Inr (Some resp) \<and>
     aka_process (example_env example_keys) resp s1 = Inr (SUCCESS, None, s1)"
proof -
  have "memcmp_less (cd_sqn example_card) ''sqn009''"
    by (simp add: example_card_def)
  then show ?thesis
    using authentication_succeeds [of "example_env example_keys" "eap_aka_server_create ''peer'' False 1 \<lparr>pv_sqn = ''sqn009''\<rparr>" "''peer''" 1
      "\<lparr>pv_sqn = ''sqn009''\<rparr>" example_card 1] example_cipher_blocks example_key by simp
qed

section \<open>Success only with the key of the subscriber\<close>

text \<open>The states of a server over all sequences of calls, whatever the responses and the random bytes are.\<close>

inductive aka_reachable :: "crypto_lib_t \<Rightarrow> crypter_t \<Rightarrow> (string \<Rightarrow> string option) \<Rightarrow> aka_server_t \<Rightarrow> bool" for lib crypter get_shared where
  created: "aka_reachable lib crypter get_shared (eap_aka_server_create peer request_identity ident p)"
| initiated: "aka_reachable lib crypter get_shared s \<Longrightarrow> en_lib env = lib \<Longrightarrow> en_crypter env = crypter \<Longrightarrow> en_shared env = get_shared \<Longrightarrow>
    initiate env s = Inr (st, out, s') \<Longrightarrow> aka_reachable lib crypter get_shared s'"
| processed: "aka_reachable lib crypter get_shared s \<Longrightarrow> en_lib env = lib \<Longrightarrow> en_crypter env = crypter \<Longrightarrow> en_shared env = get_shared \<Longrightarrow>
    aka_process env r s = Inr (st, out, s') \<Longrightarrow> aka_reachable lib crypter get_shared s'"
| renumbered: "aka_reachable lib crypter get_shared s \<Longrightarrow> aka_reachable lib crypter get_shared (set_identifier ident s)"

text \<open>What a server with a challenge holds: the result and the keys of a vector for its subscriber.\<close>

definition holds_vector :: "crypto_lib_t \<Rightarrow> crypter_t \<Rightarrow> (string \<Rightarrow> string option) \<Rightarrow> aka_server_t \<Rightarrow> quintuplet_t \<Rightarrow> bool" where
  "holds_vector lib crypter get_shared s q \<longleftrightarrow>
     (\<exists>rng p0 p. provider_get_quintuplet crypter get_shared rng (sv_permanent s) p0 = (Some q, p)) \<and>
     sv_rand s = qt_rand q \<and> sv_xres s = qt_xres q \<and>
     sv_keys s = fst (derive_keys_full lib (case sv_pseudonym s of None \<Rightarrow> sv_permanent s | Some i \<Rightarrow> i) (qt_ik q @ qt_ck q))"

definition challenge_inv :: "crypto_lib_t \<Rightarrow> crypter_t \<Rightarrow> (string \<Rightarrow> string option) \<Rightarrow> aka_server_t \<Rightarrow> bool" where
  "challenge_inv lib crypter get_shared s \<longleftrightarrow>
     sv_pending s \<noteq> AKA_REAUTHENTICATION \<and> (sv_pending s = AKA_CHALLENGE \<longrightarrow> (\<exists>q. holds_vector lib crypter get_shared s q))"

lemma identity_step:
  assumes "identity env s = Inr (st, out, s')"
  shows "st \<noteq> SUCCESS \<and> challenge_inv lib crypter get_shared s'"
  using identity_sends [of env s] assms by (auto simp: challenge_inv_def)

lemma challenge_vector:
  assumes "provider_get_quintuplet (en_crypter env) (en_shared env) (en_rand env) (sv_permanent s) (sv_provider s) = (Some q, p)"
  shows "\<exists>m. challenge env s = bindE (generate_payload env (sv_keys (challenged env q p s)) m)
    (case_option (Inr (FAILED, None, (challenged env q p s)\<lparr>sv_pending := sv_pending s\<rparr>)) (\<lambda>data. Inr (NEED_MORE, Some data, challenged env q p s)))"
  using assms by (intro exI) (simp add: challenge_def challenged_def Let_def request_eq)

lemma challenge_sets:
  assumes "challenge env s = Inr (st, out, s')"
    and "provider_get_quintuplet (en_crypter env) (en_shared env) (en_rand env) (sv_permanent s) (sv_provider s) = (Some q, p)"
  obtains n where "st \<noteq> SUCCESS" "s' = (challenged env q p s)\<lparr>sv_pending := n\<rparr>" "n = sv_pending s \<or> n = AKA_CHALLENGE"
proof -
  obtain m where "bindE (generate_payload env (sv_keys (challenged env q p s)) m) (case_option (Inr (FAILED, None, (challenged env q p s)\<lparr>sv_pending := sv_pending s\<rparr>))
      (\<lambda>data. Inr (NEED_MORE, Some data, challenged env q p s))) = Inr (st, out, s')"
    using challenge_vector [OF assms(2)] assms(1) by metis
  then obtain r where "(case r of None \<Rightarrow> Inr (FAILED, None, (challenged env q p s)\<lparr>sv_pending := sv_pending s\<rparr>)
      | Some data \<Rightarrow> Inr (NEED_MORE, Some data, challenged env q p s)) = (Inr (st, out, s') :: aka_result)"
    by (auto simp only: bindE_Inr_iff)
  then consider "st = FAILED" "s' = (challenged env q p s)\<lparr>sv_pending := sv_pending s\<rparr>" | "st = NEED_MORE" "s' = challenged env q p s"
    by (cases r) simp_all
  then show thesis
  proof cases
    case 1
    then show thesis
      by (intro that [of "sv_pending s"]) simp_all
  next
    case 2
    then show thesis
      by (intro that [of AKA_CHALLENGE]) (simp_all add: challenged_def Let_def)
  qed
qed

lemma challenge_step:
  assumes "challenge env s = Inr (st, out, s')" and "sv_pending s \<noteq> AKA_REAUTHENTICATION"
  shows "st \<noteq> SUCCESS \<and> challenge_inv (en_lib env) (en_crypter env) (en_shared env) s'"
proof (cases "provider_get_quintuplet (en_crypter env) (en_shared env) (en_rand env) (sv_permanent s) (sv_provider s)")
  case (Pair v p)
  show ?thesis
  proof (cases v)
    case None
    then have "identity env (s\<lparr>sv_provider := p, sv_use_pseudonym := False, sv_pseudonym := None\<rparr>) = Inr (st, out, s')"
      using assms(1) Pair by (simp add: challenge_def Let_def)
    then show ?thesis
      by (rule identity_step)
  next
    case (Some q)
    then obtain n where n: "st \<noteq> SUCCESS" "s' = (challenged env q p s)\<lparr>sv_pending := n\<rparr>" "n = sv_pending s \<or> n = AKA_CHALLENGE"
      using challenge_sets [OF assms(1)] Pair by blast
    then have "holds_vector (en_lib env) (en_crypter env) (en_shared env) s' q"
      using Pair Some by (auto simp: holds_vector_def challenged_def Let_def cong: option.case_cong)
    moreover have "sv_pending s' \<noteq> AKA_REAUTHENTICATION"
      using n(2,3) assms(2) by auto
    ultimately show ?thesis
      using n(1) by (auto simp: challenge_inv_def)
  qed
qed

lemma reauthenticate_step:
  "reauthenticate env (provider_is_reauth ident) s = Inr (st, out, s') \<Longrightarrow> st = FAILED \<and> s' = s"
  by (auto simp: reauthenticate_def provider_is_reauth_def split: option.splits)

lemma process_identity_step:
  assumes "process_identity env m s = Inr (st, out, s')" and "challenge_inv (en_lib env) (en_crypter env) (en_shared env) s"
  shows "st \<noteq> SUCCESS \<and> challenge_inv (en_lib env) (en_crypter env) (en_shared env) s'"
proof (cases "sv_pending s = AKA_IDENTITY")
  case True
  then show ?thesis
    using assms by (auto simp: process_identity_def Let_def challenge_inv_def dest!: reauthenticate_step challenge_step split: if_splits)
qed (use assms in \<open>auto simp: process_identity_def\<close>)

lemma challenge_inv_provider:
  "challenge_inv lib crypter get_shared (s\<lparr>sv_provider := p\<rparr>) = challenge_inv lib crypter get_shared s"
  by (simp add: challenge_inv_def holds_vector_def cong: option.case_cong)

lemma process_synchronize_step:
  assumes "process_synchronize env m s = Inr (st, out, s')" and "challenge_inv (en_lib env) (en_crypter env) (en_shared env) s"
  shows "st \<noteq> SUCCESS \<and> challenge_inv (en_lib env) (en_crypter env) (en_shared env) s'"
proof -
  obtain ok p where p: "provider_resync (en_crypter env) (en_shared env) (sv_permanent s) (sv_rand s) (last_attr AT_AUTS (sm_attrs m)) (sv_provider s) = (ok, p)"
    by (metis surj_pair)
  let ?c = "challenge env (s\<lparr>sv_provider := p, sv_synchronized := True\<rparr>)"
  have "process_synchronize env m s \<in> {Inr (FAILED, None, s), Inl NullDeref, Inr (FAILED, None, s\<lparr>sv_provider := p\<rparr>), ?c}"
    by (cases ok) (simp_all add: process_synchronize_def Let_def p)
  then consider "st = FAILED" "s' = s" | "st = FAILED" "s' = s\<lparr>sv_provider := p\<rparr>" | "?c = Inr (st, out, s')"
    unfolding assms(1) by fastforce
  then show ?thesis
  proof cases
    case 3
    then show ?thesis
      using challenge_step [OF 3] assms(2) by (simp add: challenge_inv_def)
  qed (use assms(2) in \<open>simp_all add: challenge_inv_provider\<close>)
qed

text \<open>A call keeps the invariant, and it succeeds only on the answer to a challenge.\<close>

lemma aka_process_step:
  assumes "aka_process env r s = Inr (st, out, s')" and "challenge_inv (en_lib env) (en_crypter env) (en_shared env) s"
  shows "challenge_inv (en_lib env) (en_crypter env) (en_shared env) s' \<and>
    (st = SUCCESS \<longrightarrow> sv_pending s = AKA_CHALLENGE \<and>
      (\<exists>m0 m. simaka_message_create_data r = Some m0 \<and> parse (en_lib env) (sv_keys s) m0 = Inr (True, m) \<and>
         verify (en_lib env) (sv_keys s) [] m = Inr True \<and> last_attr AT_RES (sm_attrs m) = sv_xres s))"
proof (cases "simaka_message_create_data r")
  case None
  then show ?thesis
    using assms by (simp add: aka_process_def)
next
  case (Some m0)
  then obtain ok m where m: "parse (en_lib env) (sv_keys s) m0 = Inr (ok, m)"
    using assms(1) by (auto simp: aka_process_def bindE_Inr_iff)
  have r: "challenge_inv (en_lib env) (en_crypter env) (en_shared env) (s\<lparr>sv_id_resp := r\<rparr>)"
    using assms(2) by (auto simp: challenge_inv_def holds_vector_def cong: option.case_cong)
  consider "st = FAILED" "s' = s" | "process_identity env m (s\<lparr>sv_id_resp := r\<rparr>) = Inr (st, out, s')"
    | "ok" "process_challenge env m s = Inr (st, out, s')" | "process_reauthentication env m s = Inr (st, out, s')"
    | "process_synchronize env m s = Inr (st, out, s')"
    using assms(1) Some m by (auto simp: aka_process_def process_client_error_def process_authentication_reject_def split: if_splits)
  then show ?thesis
  proof cases
    case 2
    then show ?thesis
      using process_identity_step [OF _ r] by simp
  next
    case 3
    then show ?thesis
      using assms(2) Some m by (auto simp: process_challenge_def bindE_Inr_iff split: if_splits)
  next
    case 4
    then show ?thesis
      using assms(2) by (auto simp: process_reauthentication_def challenge_inv_def)
  next
    case 5
    then show ?thesis
      using process_synchronize_step [OF _ assms(2)] by simp
  qed (use assms(2) in simp)
qed

lemma reachable_challenge_inv: "aka_reachable lib crypter get_shared s \<Longrightarrow> challenge_inv lib crypter get_shared s"
proof (induction rule: aka_reachable.induct)
  case (initiated s env st out s')
  then show ?case
    using identity_step [of env s st out s'] challenge_step [of env s st out s'] by (auto simp: initiate_def challenge_inv_def split: if_splits)
next
  case (processed s env r st out s')
  then show ?case
    using aka_process_step by blast
qed (auto simp: eap_aka_server_create_def challenge_inv_def holds_vector_def set_identifier_def cong: option.case_cong)

text \<open>
  C6: In every state that a server can get into, with any responses, a success means that the last
  response has the result of a vector of the subscriber, computed from their key, and a MAC that is right
  under the keys derived from this vector.
\<close>

theorem success_needs_key:
  assumes "aka_reachable (en_lib env) (en_crypter env) (en_shared env) s" and "aka_process env r s = Inr (SUCCESS, out, s')"
  shows "\<exists>m0 m q rng p0 p. simaka_message_create_data r = Some m0 \<and> parse (en_lib env) (sv_keys s) m0 = Inr (True, m) \<and>
    provider_get_quintuplet (en_crypter env) (en_shared env) rng (sv_permanent s) p0 = (Some q, p) \<and>
    sv_rand s = qt_rand q \<and> last_attr AT_RES (sm_attrs m) = qt_xres q \<and>
    verify (en_lib env) (fst (derive_keys_full (en_lib env) (case sv_pseudonym s of None \<Rightarrow> sv_permanent s | Some i \<Rightarrow> i) (qt_ik q @ qt_ck q))) [] m = Inr True"
proof -
  have i: "challenge_inv (en_lib env) (en_crypter env) (en_shared env) s"
    by (rule reachable_challenge_inv [OF assms(1)])
  obtain m0 m where m: "sv_pending s = AKA_CHALLENGE" "simaka_message_create_data r = Some m0" "parse (en_lib env) (sv_keys s) m0 = Inr (True, m)"
    "verify (en_lib env) (sv_keys s) [] m = Inr True" "last_attr AT_RES (sm_attrs m) = sv_xres s"
    using aka_process_step [OF assms(2) i] by blast
  obtain q where q: "holds_vector (en_lib env) (en_crypter env) (en_shared env) s q"
    using i m(1) by (auto simp: challenge_inv_def)
  then show ?thesis
    using m(2-5) by (intro exI [of _ m0] exI [of _ m] exI [of _ q]) (auto simp: holds_vector_def)
qed

theorem success_needs_key_witness:
  "\<exists>s r m0 m q rng p0 p. aka_reachable example_lib example_cipher example_keys s \<and>
    aka_process (example_env example_keys) r s = Inr (SUCCESS, None, s) \<and> simaka_message_create_data r = Some m0 \<and>
    parse example_lib (sv_keys s) m0 = Inr (True, m) \<and>
    provider_get_quintuplet example_cipher example_keys rng (sv_permanent s) p0 = (Some q, p) \<and>
    sv_rand s = qt_rand q \<and> last_attr AT_RES (sm_attrs m) = qt_xres q \<and>
    verify example_lib (fst (derive_keys_full example_lib (case sv_pseudonym s of None \<Rightarrow> sv_permanent s | Some i \<Rightarrow> i) (qt_ik q @ qt_ck q))) [] m = Inr True"
proof -
  let ?e = "example_env example_keys" and ?s = "eap_aka_server_create ''peer'' False 1 \<lparr>pv_sqn = ''sqn009''\<rparr>"
  have s: "sv_permanent ?s = ''peer''" "sv_provider ?s = \<lparr>pv_sqn = ''sqn009''\<rparr>" "initiate ?e ?s = challenge ?e ?s"
    by (simp_all add: eap_aka_server_create_def initiate_def)
  obtain q p where q: "provider_get_quintuplet example_cipher example_keys (en_rand ?e) ''peer'' \<lparr>pv_sqn = ''sqn009''\<rparr> = (Some q, p)"
    using quintuplet_exists [OF example_cipher_blocks example_key, of "en_rand ?e" "\<lparr>pv_sqn = ''sqn009''\<rparr>"] by auto
  let ?s1 = "challenged ?e q p ?s"
  obtain data where "initiate ?e ?s = Inr (NEED_MORE, Some data, ?s1)"
    using challenge_sends [of ?e ?s q p None] example_cipher_blocks q s by auto
  then have reach: "aka_reachable (en_lib ?e) (en_crypter ?e) (en_shared ?e) ?s1"
    using aka_reachable.initiated [OF aka_reachable.created refl refl refl] by blast
  have "sv_pending ?s1 = AKA_CHALLENGE" "sv_keys ?s1 \<noteq> None" "length (sv_xres ?s1) = 8"
    using quintuplet_lengths(3) [OF example_cipher_blocks q] by (simp_all add: challenged_def derive_keys_full_def Let_def)
  then obtain r where r: "aka_process ?e r ?s1 = Inr (SUCCESS, None, ?s1)"
    using challenge_response_accepted [of ?s1 ?e] by auto
  show ?thesis
    using success_needs_key [OF reach r] reach r by simp blast
qed

section \<open>Answers to an identity request\<close>

text \<open>A response with an identity, whatever the identity is.\<close>

definition identity_answer :: "string \<Rightarrow> bool" where
  "identity_answer r =
     (case simaka_message_create_data r of
        None \<Rightarrow> False
      | Some m0 \<Rightarrow>
          (case parse_attributes (Some 8) (drop 8 r) m0 of
             Inl _ \<Rightarrow> False
           | Inr (ok, m) \<Rightarrow>
               ok \<and> get_subtype m = AKA_IDENTITY \<and> sm_iv m = [] \<and> attrs_known [AT_IDENTITY] (sm_attrs m) \<and>
               last_attr AT_IDENTITY (sm_attrs m) \<noteq> []))"

lemma example_answer_ok: "identity_answer example_answer"
proof -
  let ?t = "[char_of AT_IDENTITY, CHR 0x02, NUL, CHR 0x04] @ ''user''"
  have c: "simaka_message_create_data example_answer = Some (fresh_msg example_answer)" "drop 8 example_answer = ?t"
    "byte_at example_answer 5 = AKA_IDENTITY"
    using create_sized [of EAP_RESPONSE ?t 1 AKA_IDENTITY] by (simp_all add: example_answer_def sized_header_def be16_def byte_at_def)
  have "parse_attributes (Some 8) ?t m = Inr (True, m\<lparr>sm_attrs := sm_attrs m @ [(AT_IDENTITY, ''user'')]\<rparr>)" for m
    by (simp add: parse_attributes.simps parse_attr_def handle_attr_def add_attribute_def Let_def)
  then show ?thesis
    using c by (simp add: identity_answer_def fresh_msg_def get_subtype_def attrs_known_def last_attr_def)
qed

lemma created_message: "simaka_message_create_data r = Some m \<Longrightarrow> m = fresh_msg r"
  by (auto simp: simaka_message_create_data_def fresh_msg_def split: if_splits)

lemma identity_answer_processed:
  assumes "identity_answer r" and "sv_pending s = AKA_IDENTITY"
  obtains ident where
    "aka_process env r s =
      (let s1 = s\<lparr>sv_id_resp := r, sv_cc := lib_sha256 (en_lib env) (sv_id_req s @ r)\<rparr>
       in if sv_use_reauth s1 then
            reauthenticate env (provider_is_reauth ident) (s1\<lparr>sv_permanent := fixed_identity, sv_reauth := Some ident\<rparr>)
          else if sv_use_pseudonym s1
          then challenge env (s1\<lparr>sv_permanent := fixed_identity, sv_pseudonym := Some ident, sv_use_permanent := False\<rparr>)
          else challenge env (if sv_pseudonym s1 = None \<and> sv_use_permanent s1 then s1\<lparr>sv_permanent := ident\<rparr> else s1))"
proof -
  obtain m0 m where m0: "simaka_message_create_data r = Some m0" and m: "parse_attributes (Some 8) (drop 8 r) m0 = Inr (True, m)"
    "get_subtype m = AKA_IDENTITY" "sm_iv m = []" "attrs_known [AT_IDENTITY] (sm_attrs m)" "last_attr AT_IDENTITY (sm_attrs m) \<noteq> []"
    using assms(1) by (auto simp: identity_answer_def split: option.splits sum.splits)
  have "m0 = fresh_msg r"
    using created_message [OF m0] .
  then have "parse (en_lib env) (sv_keys s) m0 = Inr (True, m)"
    using parse_fresh [of r m] m(1,3) by simp
  then show ?thesis
    using that [of "en_ident env (last_attr AT_IDENTITY (sm_attrs m))"] m0 m assms(2) by (simp add: aka_process_def process_identity_def Let_def)
qed

text \<open>
  C24: With identities requested, the default of the code, the first answer with an identity makes the server read a
  master key and a counter that were never assigned: it takes the answer for a known reauthentication
  identity although the provider knows none.
\<close>

theorem requested_identity_reads_uninitialised:
  assumes "initiate env (eap_aka_server_create peer True ident0 p) = Inr (NEED_MORE, Some data, s)"
    and "identity_answer r" and "en_nonce env' \<noteq> None"
  shows "aka_process env' r s = Inl UninitRead"
proof -
  have "initiate env (eap_aka_server_create peer True ident0 p) = identity env (eap_aka_server_create peer True ident0 p)"
    by (simp add: initiate_def eap_aka_server_create_def)
  then have s: "sv_pending s = AKA_IDENTITY" "sv_use_reauth s"
    using assms(1) identity_sends [of env "eap_aka_server_create peer True ident0 p"]
    by (auto simp: eap_aka_server_create_def)
  obtain ident where "aka_process env' r s = reauthenticate env' (provider_is_reauth ident)
      (s\<lparr>sv_id_resp := r, sv_cc := lib_sha256 (en_lib env') (sv_id_req s @ r), sv_permanent := fixed_identity, sv_reauth := Some ident\<rparr>)"
    using identity_answer_processed [OF assms(2) s(1), of env'] s(2) by (auto simp: Let_def)
  then show ?thesis
    using assms(3) by (auto simp: reauthenticate_def provider_is_reauth_def)
qed

theorem requested_identity_reads_uninitialised_witness:
  "\<exists>data s. initiate (example_env example_keys) (eap_aka_server_create ''peer'' True 1 \<lparr>pv_sqn = ''sqn009''\<rparr>) = Inr (NEED_MORE, Some data, s) \<and>
     identity_answer example_answer \<and> aka_process (example_env example_keys) example_answer s = Inl UninitRead"
proof -
  let ?s = "eap_aka_server_create ''peer'' True 1 \<lparr>pv_sqn = ''sqn009''\<rparr>"
  obtain data s where i: "initiate (example_env example_keys) ?s = Inr (NEED_MORE, Some data, s)"
    using identity_sends [of "example_env example_keys" ?s] by (auto simp: initiate_def eap_aka_server_create_def)
  show ?thesis
    using i example_answer_ok requested_identity_reads_uninitialised [OF i example_answer_ok, of "example_env example_keys"] by auto
qed

text \<open>
  C27: After an exchange of identities the server computes the checkcode over the request and the response
  and adds it to the challenge, but the challenge that is sent has the random value and the token only.
\<close>

theorem checkcode_not_sent:
  assumes "block_cipher (en_crypter env)" and "\<And>k d. length (lib_mac (en_lib env) k d) = 16"
    and "sv_pending s = AKA_IDENTITY" and "\<not> sv_use_reauth s" and "sv_use_pseudonym s" and "identity_answer r"
    and "eap_aka_3gpp_get_k_opc (en_shared env) fixed_identity \<noteq> None" and "en_rand env \<noteq> None" and "length (pv_sqn (sv_provider s)) = 6"
  shows "\<exists>data s' m rand autn. aka_process env r s = Inr (NEED_MORE, Some data, s') \<and>
    sv_cc s' = lib_sha256 (en_lib env) (sv_id_req s @ r) \<and> sv_pending s' = AKA_CHALLENGE \<and>
    simaka_message_create_data data = Some (fresh_msg data) \<and> parse (en_lib env) (sv_keys s') (fresh_msg data) = Inr (True, m) \<and>
    sm_attrs m = [(AT_RAND, rand), (AT_AUTN, autn)]"
proof -
  let ?s1 = "\<lambda>ident. s\<lparr>sv_id_resp := r, sv_cc := lib_sha256 (en_lib env) (sv_id_req s @ r),
                sv_permanent := fixed_identity, sv_pseudonym := Some ident, sv_use_permanent := False\<rparr>"
  obtain ident where p: "aka_process env r s = challenge env (?s1 ident)"
    using identity_answer_processed [OF assms(6,3), of env] assms(4,5) by (auto simp: Let_def)
  obtain q p' where q: "provider_get_quintuplet (en_crypter env) (en_shared env) (en_rand env) fixed_identity (sv_provider s) = (Some q, p')"
    using quintuplet_exists [OF assms(1,7,8,9)] by blast
  let ?s' = "challenged env q p' (?s1 ident)"
  obtain data m where data: "challenge env (?s1 ident) = Inr (NEED_MORE, Some data, ?s')"
    "simaka_message_create_data data = Some (fresh_msg data)" "parse (en_lib env) (sv_keys ?s') (fresh_msg data) = Inr (True, m)"
    "sm_attrs m = [(AT_RAND, qt_rand q), (AT_AUTN, qt_autn q)]"
    using challenge_sends [OF assms(1) _ assms(2), of "?s1 ident" q p' "sv_keys ?s'"] assms(9) q by auto
  have "sv_cc ?s' = lib_sha256 (en_lib env) (sv_id_req s @ r)" "sv_pending ?s' = AKA_CHALLENGE"
    by (simp_all add: challenged_def Let_def)
  then show ?thesis
    using p data by auto
qed

text \<open>A server that asked for an identity after it did not know the one of the peer.\<close>

definition example_server :: aka_server_t where
  "example_server = (eap_aka_server_create ''peer'' False 1 \<lparr>pv_sqn = ''sqn009''\<rparr>)\<lparr>sv_pending := AKA_IDENTITY, sv_use_pseudonym := True\<rparr>"

definition fixed_keys :: "string \<Rightarrow> string option" where
  "fixed_keys ident = (if ident = fixed_identity then Some (replicate 32 (CHR ''k'')) else None)"

lemma example_server_simps [simp]:
  "sv_pending example_server = AKA_IDENTITY" "\<not> sv_use_reauth example_server" "sv_use_pseudonym example_server"
  "pv_sqn (sv_provider example_server) = ''sqn009''" "sv_id_req example_server = []"
  by (simp_all add: example_server_def eap_aka_server_create_def)

theorem checkcode_not_sent_witness:
  "sv_pending example_server = AKA_IDENTITY \<and> identity_answer example_answer \<and>
   (\<exists>data s' m rand autn. aka_process (example_env fixed_keys) example_answer example_server = Inr (NEED_MORE, Some data, s') \<and>
      sv_cc s' = lib_sha256 example_lib example_answer \<and> sv_pending s' = AKA_CHALLENGE \<and>
      simaka_message_create_data data = Some (fresh_msg data) \<and> parse example_lib (sv_keys s') (fresh_msg data) = Inr (True, m) \<and>
      sm_attrs m = [(AT_RAND, rand), (AT_AUTN, autn)])"
proof -
  have "eap_aka_3gpp_get_k_opc fixed_keys fixed_identity \<noteq> None"
    by (simp add: eap_aka_3gpp_get_k_opc_def fixed_keys_def)
  then show ?thesis
    using checkcode_not_sent [of "example_env fixed_keys" example_server example_answer] example_cipher_blocks example_answer_ok by simp
qed

text \<open>A sequence of responses, and the statuses and requests of the server.\<close>

fun process_all :: "aka_env_t \<Rightarrow> string list \<Rightarrow> aka_server_t \<Rightarrow> ((status_t \<times> string option) list \<times> aka_server_t) cres" where
  "process_all env [] s = Inr ([], s)"
| "process_all env (r # rs) s =
     bindE (aka_process env r s) (\<lambda>(st, out, s').
     bindE (process_all env rs s') (\<lambda>(sts, s''). Inr ((st, out) # sts, s'')))"



section \<open>Malformed attributes\<close>

text \<open>
  C25: A response whose first attribute is padding or encrypted data of length zero makes the server loop for
  ever, and one whose identity is as long as the rest of the message makes it read behind the message, in
  every state.
\<close>

theorem malformed_attribute_faults:
  assumes "2 \<le> length rest" and "length rest \<le> 1000" and "type \<in> {AT_PADDING, AT_ENCR_DATA}" and "length w = 4"
  shows "aka_process env (sized_header EAP_RESPONSE ident subtype (8 + length (char_of type # NUL # rest)) @ char_of type # NUL # rest) s = Inl Diverges \<and>
    aka_process env (sized_header EAP_RESPONSE ident subtype 16 @ [char_of AT_IDENTITY, CHR 0x02, NUL, CHR 0x08] @ w) s = Inl OutOfBounds"
proof
  let ?r = "char_of type # NUL # rest"
  show "aka_process env (sized_header EAP_RESPONSE ident subtype (8 + length ?r) @ ?r) s = Inl Diverges"
    using create_sized [of EAP_RESPONSE ?r "ident" "subtype"] assms(2) zero_length_diverges [OF assms(3,1)]
    by (simp add: aka_process_def parse_def)
  let ?t = "[char_of AT_IDENTITY, CHR 0x02, NUL, CHR 0x08] @ w"
  have "parse_attributes (Some 8) ?t (fresh_msg t) = Inl OutOfBounds" for t
    using assms(4) by (simp add: parse_attributes.simps parse_attr_def Let_def)
  then show "aka_process env (sized_header EAP_RESPONSE ident subtype 16 @ ?t) s = Inl OutOfBounds"
    using create_sized [of EAP_RESPONSE ?t "ident" "subtype"] assms(4) by (simp add: aka_process_def parse_def)
qed

theorem malformed_attribute_faults_witness:
  "aka_process (example_env example_keys) (sized_header EAP_RESPONSE 1 AKA_CHALLENGE 12 @ char_of AT_PADDING # NUL # ''ab'') example_server = Inl Diverges \<and>
   aka_process (example_env example_keys) (sized_header EAP_RESPONSE 1 AKA_CHALLENGE 16 @ [char_of AT_IDENTITY, CHR 0x02, NUL, CHR 0x08] @ ''user'') example_server = Inl OutOfBounds"
  using malformed_attribute_faults [of "''ab''" AT_PADDING "''user''" "example_env example_keys" 1 AKA_CHALLENGE example_server] by simp

end
