(* ===== verification/Spec2Isabelle.thy ===== *)
theory Spec2Isabelle
  imports Ue_Properties Sip_Properties Generator_Properties Aka_Properties
begin

text \<open>
  A verification of the VoWiFi UE testing framework: a controller (Java) sends testcases line by line to
  a modified ePDG (strongSwan, C) and a modified IMS server (Kamailio, C). Each server has a listener
  thread that builds a tree of query nodes from the lines and installs it in the test instance, hooks in
  the daemon that look up nodes of the installed query and change the message in hand, and a sender
  thread that takes reports off a queue and writes them to the controller. A UE controller (Python) drives
  the phone under test with commands of adb, and a script (Python) generates the testcases from primary
  properties. The ePDG authenticates the phone with its EAP-AKA server, which the framework changed.

  \<^bold>\<open>Conventions.\<close> A C function is a function into \<open>'a cres\<close>, where the left summand is undefined behaviour
  or an abort (\<open>NullDeref\<close>, \<open>UseAfterFree\<close>, \<open>DoubleFree\<close>, \<open>OutOfBounds\<close>, \<open>UninitRead\<close>, \<open>AssertFail\<close>, \<open>Exited\<close>,
  \<open>Diverges\<close>, ...) and the right one the result; \<open>bindE\<close> and \<open>seqE\<close> sequence such functions. Query nodes
  live in an explicit heap, since they are linked in three ways and released. Integers are words where
  their width matters. Allocation does not fail. Memory behind a block that the code reads past is a
  parameter of the definition. Sockets are the bytes that were received and the results of \<^verbatim>\<open>write\<close>;
  states that a busy wait observes are a list of states. A Java method of the controller is a function
  from its state to an exception or a result and the new state (\<open>'a prog\<close>); what a connection delivers is
  a list of read events, and the end of the program and an endless loop are exceptions that no handler
  catches. The phone of the UE controller is a parameter, a function from the commands run so far and the
  next one to its output, and the readings of the clock are a list. A Python function of the generator has
  a result or an exception (\<open>bindP\<close>); an object that a function changes in place is part of its result.

  \<^bold>\<open>Theories.\<close>
  \<^item> \<^verbatim>\<open>Prelude\<close>: the result type and its rules, C strings (\<open>cstr\<close>, \<open>strncmp_eq\<close>, \<open>strtok\<close>, \<open>strstr\<close>).
  \<^item> \<^verbatim>\<open>Int_Codec\<close>: \<^verbatim>\<open>int_to_char\<close> and \<^verbatim>\<open>char_to_int\<close> of \<^verbatim>\<open>ike_sa_instance.c\<close>, with the exact digits they
    write and read.
  \<^item> \<^verbatim>\<open>Bounded_Fifo\<close>: the contract of the send queues as a locale, with the behaviour of every interleaving
    of additions and fetches. \<^verbatim>\<open>Epdg_Instance\<close> (capacity ten) and \<^verbatim>\<open>Sip_Instance\<close> (capacity eight)
    interpret it on the queues of the two servers.
  \<^item> \<^verbatim>\<open>Epdg_Instance\<close>, \<^verbatim>\<open>Query_Heap\<close>, \<^verbatim>\<open>Epdg_Listener\<close>: the instance, messages, sender thread, query nodes and
    listener thread of the ePDG (\<^verbatim>\<open>ike_sa_instance.c\<close>, \<^verbatim>\<open>ike_sa_manager.c\<close>).
  \<^item> \<^verbatim>\<open>Query_Tree\<close>, \<^verbatim>\<open>Query_Path\<close>: the tree that a heap represents; lookup, printing and release as operations
    on the tree.
  \<^item> \<^verbatim>\<open>Listener_Zipper\<close>, \<^verbatim>\<open>Listener_Build\<close>, \<^verbatim>\<open>Listener_Run\<close>: the listener as an abstract machine on a tree with a
    position, and what it builds from the lines of a testcase.
  \<^item> \<^verbatim>\<open>Epdg_Generate\<close>, \<^verbatim>\<open>Epdg_Report\<close>: what the framework added to the generation of messages (\<^verbatim>\<open>message.c\<close>,
    \<^verbatim>\<open>encrypted_payload.c\<close>) and to the task manager with its tasks (\<^verbatim>\<open>task_manager_v2.c\<close>, \<^verbatim>\<open>ike_init.c\<close>,
    \<^verbatim>\<open>ike_auth.c\<close>, \<^verbatim>\<open>ike_natd.c\<close>, \<^verbatim>\<open>eap_authenticator.c\<close>): naming and reporting requests and responses, the
    wait for a query, error notifications, failures. \<^verbatim>\<open>Report_Proofs\<close> has the step relation of the ePDG
    and its invariant.
  \<^item> \<^verbatim>\<open>Controller_Wire\<close>: testcases, value types and \<^verbatim>\<open>sendMessage\<close> of \<^verbatim>\<open>Controller.java\<close>, \<^verbatim>\<open>Testcases.java\<close> and
    \<^verbatim>\<open>ValueType.java\<close>. \<^verbatim>\<open>Controller_Testcase\<close>: reading testcases from JSON objects, and their iterators.
    \<^verbatim>\<open>Controller_Log\<close>: message logs (\<^verbatim>\<open>QueryReplyLogger.java\<close>) and the loop that reads a report.
    \<^verbatim>\<open>Controller_Run\<close>: connections, commands, the execution of a testcase, the oracles (\<^verbatim>\<open>Oracle.java\<close>) and
    the run of one test. \<^verbatim>\<open>Controller_Main\<close>: the loop over the tests and the files their results are stored in.
  \<^item> \<^verbatim>\<open>Ue_Controller\<close>: the UE controller (\<^verbatim>\<open>ue_controller.py\<close>), that is its commands, the wait for a rebooted phone,
    the recognition of the device and the loop over the received bytes.
  \<^item> \<^verbatim>\<open>Generator\<close>: the reader of primary properties (\<^verbatim>\<open>testcases.py\<close>) and the generator of testcases
    (\<^verbatim>\<open>generate_testcases.py\<close>).
  \<^item> \<^verbatim>\<open>Aka_Functions\<close>: the algorithms of AKA over a block cipher, the provider of authentication vectors and
    the card that answers them (\<^verbatim>\<open>eap_aka_3gpp_functions.c\<close>, \<^verbatim>\<open>eap_aka_3gpp_provider.c\<close>,
    \<^verbatim>\<open>eap_aka_3gpp_card.c\<close>). \<^verbatim>\<open>Simaka_Message\<close>: the messages of EAP-AKA (\<^verbatim>\<open>simaka_message.c\<close>).
    \<^verbatim>\<open>Aka_Server\<close>: the server with its keys (\<^verbatim>\<open>eap_aka_server.c\<close>, \<^verbatim>\<open>simaka_crypto.c\<close>).
  \<^item> \<^verbatim>\<open>Ike_Payloads\<close>, \<^verbatim>\<open>Epdg_Process\<close>, \<^verbatim>\<open>Epdg_Eap\<close>: the fields of strongSwan's payloads that queries change, its
    array collection, and \<^verbatim>\<open>process_query\<close> with all the functions it calls; \<^verbatim>\<open>Process_Proofs\<close>,
    \<^verbatim>\<open>Transform_Proofs\<close> and \<^verbatim>\<open>Eap_Proofs\<close> have the lemmas on them.
  \<^item> \<^verbatim>\<open>Sip_Query\<close>: query nodes and listener of the IMS server (\<^verbatim>\<open>sip_instance.c\<close>), whose names and values are
    arrays of fixed size; \<^verbatim>\<open>Sip_Sim\<close> relates them to those of the ePDG, operation by operation.
  \<^item> \<^verbatim>\<open>Sip_Message\<close>, \<^verbatim>\<open>Sip_Process\<close>: SIP messages, \<^verbatim>\<open>process_query\<close>, \<^verbatim>\<open>report_message\<close> (\<^verbatim>\<open>sip_controller.c\<close>) and
    the hooks in \<^verbatim>\<open>receive.c\<close> and \<^verbatim>\<open>tcp_main.c\<close>; \<^verbatim>\<open>Sip_Lists\<close>, \<^verbatim>\<open>Sip_Roundtrip\<close> and \<^verbatim>\<open>Sip_Proofs\<close> have the lemmas.
    Definitions of the IMS server that have a namesake in the ePDG carry the prefix \<^verbatim>\<open>sip_\<close>.
  \<^item> \<^verbatim>\<open>Epdg_Properties\<close>, \<^verbatim>\<open>Process_Properties\<close>, \<^verbatim>\<open>Payload_Properties\<close>, \<^verbatim>\<open>Report_Properties\<close>,
    \<^verbatim>\<open>Controller_Properties\<close>, \<^verbatim>\<open>Ue_Properties\<close>, \<^verbatim>\<open>Sip_Properties\<close>, \<^verbatim>\<open>Generator_Properties\<close>, \<^verbatim>\<open>Aka_Properties\<close>:
    the properties.

  \<^bold>\<open>What is shown.\<close> The listener installs exactly the testcase that the controller sent when each payload
  is the only one of its parent, and misplaces the second of two payloads; on arbitrary bytes it never
  uses or releases a node twice. The listener of the IMS server refines the one of the ePDG. The send
  queues are bounded first-in first-out queues. Lookup, printing and release of queries agree with the
  tree they represent. For each kind of payload there is a theorem on what an update or a drop changes
  and that it changes nothing else, and on the values for which the code leaves defined behaviour. SIP
  responses survive parsing and serialising; the hooks of the IMS server report responses in the order of
  a registration, change exactly the attribute that a query names, and change nothing without a query.
  The ePDG numbers requests, reports responses in the order of the protocol in every reachable state,
  replaces a response by the error notification a query asks for, and after a failure binds to the next
  IKE_SA; a response is generated without its query. The controller reads back exactly what the sender
  of the ePDG writes; a conversation gives one pair per message; failed exchanges repeat the test or the
  message; testcases read from JSON are well typed; the oracles give the verdicts of their tables; one file
  of results is stored for every test from the first requested one on. The commands of the UE controller
  switch the radio of a phone that behaves as they expect, the wait for a reboot ends however the phone
  behaves, and the main controller gets its answer. The generator makes exactly one test for each wanted
  value and each error, with nothing but the target changed. The EAP-AKA server succeeds, in every state it
  can reach, only on a response made with the key of the subscriber; the answer of a card with this key is
  accepted, if need be after a resynchronisation; messages it generates are parsed back.
  Several theorems state faults of the code.

  \<^bold>\<open>Bounds and fuel.\<close> The recursions on linked nodes (\<open>free_query_fuel\<close>, \<open>print_query_fuel\<close>,
  \<open>find_sub_fuel\<close> and their counterparts with the prefix \<^verbatim>\<open>sip_\<close>) take as fuel a number that grows with the
  number of nodes ever allocated; on trees of nodes it is never used up, and running out is the fault
  \<open>Diverges\<close>, which the safety theorem excludes. The loop over transforms runs once per element and gets
  one step more than there are elements. The listener's loop consumes a line per step and gets one step
  per byte of input. The busy waits end with \<open>None\<close> when the observed states end. The loops of the
  controller that may run forever (\<open>reset_loop\<close>, \<open>step_loop\<close>, \<open>repeat_test\<close>) have a bound on their iterations
  and end in \<open>Forever\<close> when it is used up; the conversation theorem holds for every positive bound, and the
  theorem on the loop that never ends for every bound. The wait for a reboot is a recursion
  on the readings of the clock and needs at most 22 of them. Attempts to connect are a list, and an exhausted
  one is a recursion without end. The loop over the attributes of an EAP-AKA message needs no fuel: an
  attribute that takes no bytes is the fault \<open>Diverges\<close>, all others shorten the input.

  \<^bold>\<open>Not modelled.\<close> What the tasks of strongSwan do between the hooks (a parameter of \<open>build_response\<close>), the
  rest of strongSwan and of Kamailio, and the HSS: third-party code. Of EAP-AKA, the cryptographic
  primitives (parameters that do not fail), the making of an identity from the data of a peer (a parameter),
  hooks, and the manager, whose only provider is the one modelled. Of the controller, the JSON parser
  (its \<^verbatim>\<open>toString\<close> is a parameter), reading the command line and the configuration; of the readers that are
  replaced between tests, the number of lines lost with them is a parameter. Of the Python programs, the
  command line, logging and pauses. The scripts that evaluate logs or start a server, the settings and the
  extraction of properties by a language model: I/O. Of the modelled files, the functions that only release messages and
  instances, and output on the console, except where printing itself is undefined behaviour. A concurrent
  change of the instance during an operation is not modelled except where an operation waits for it.
\<close>

end
